theory Spec2Isabelle
  imports Complex_Main
begin

section \<open>Python values and errors\<close>

text \<open>
  The exceptions that the modelled functions of \<^verbatim>\<open>mace/tools/utils.py\<close> can raise.
  A function that may raise returns \<open>py_error + 'a\<close>, with \<open>Inl\<close> for the exception.
\<close>

datatype py_error =
  AssertionError | ZeroDivisionError | ValueError | IndexError | AttributeError | RuntimeError

section \<open>Statistics helpers\<close>

text \<open>
  A numpy array is modelled by the list of its entries (numpy reduces over the
  flattened array), and its entries by exact real numbers: rounding, overflow and
  underflow of IEEE arithmetic are outside the definitions of this section, which
  are the helpers in exact arithmetic; \<^verbatim>\<open>compute_mae\<close> and \<^verbatim>\<open>compute_rmse\<close> are
  modelled in float64 arithmetic as well, further below. \<^verbatim>\<open>np.mean\<close> of an empty
  array is NaN (numpy warns and does not raise); \<open>None\<close> stands for that NaN, which
  every later arithmetic operation propagates.
\<close>

definition np_mean :: "real list \<Rightarrow> real option" where
  "np_mean xs = (if xs = [] then None else Some (sum_list xs / real (length xs)))"

definition compute_mae :: "real list \<Rightarrow> real option" where
  "compute_mae delta = np_mean (map abs delta)"

definition compute_rel_mae :: "real list \<Rightarrow> real list \<Rightarrow> real option" where
  "compute_rel_mae delta target_val =
     (case np_mean (map abs target_val) of
        None \<Rightarrow> None
      | Some target_norm \<Rightarrow>
          (case np_mean (map abs delta) of
             None \<Rightarrow> None
           | Some m \<Rightarrow> Some (m / (target_norm + 1 / 10 ^ 9) * 100)))"

definition compute_rmse :: "real list \<Rightarrow> real option" where
  "compute_rmse delta = map_option sqrt (np_mean (map (\<lambda>x. x\<^sup>2) delta))"

definition compute_rel_rmse :: "real list \<Rightarrow> real list \<Rightarrow> real option" where
  "compute_rel_rmse delta target_val =
     (case map_option sqrt (np_mean (map (\<lambda>x. x\<^sup>2) target_val)) of
        None \<Rightarrow> None
      | Some target_norm \<Rightarrow>
          (case map_option sqrt (np_mean (map (\<lambda>x. x\<^sup>2) delta)) of
             None \<Rightarrow> None
           | Some r \<Rightarrow> Some (r / (target_norm + 1 / 10 ^ 9) * 100)))"

text \<open>
  \<^verbatim>\<open>np.abs(delta) < eta\<close> is a boolean array; its mean counts \<open>True\<close> as 1 and
  \<open>False\<close> as 0.
\<close>

definition compute_c :: "real list \<Rightarrow> real \<Rightarrow> real option" where
  "compute_c delta eta = np_mean (map (\<lambda>x. if \<bar>x\<bar> < eta then 1 else 0) delta)"

text \<open>Multiplying every entry of an array by a constant, \<^verbatim>\<open>c * delta\<close>.\<close>

definition scale_array :: "real \<Rightarrow> real list \<Rightarrow> real list" where
  "scale_array c xs = map (\<lambda>x. c * x) xs"

section \<open>AtomicNumberTable\<close>

text \<open>
  The class stores the sequence it is given, unchanged. Atomic numbers are Python
  integers.
\<close>

record atomic_number_table =
  zs :: "int list"

definition AtomicNumberTable :: "int list \<Rightarrow> atomic_number_table" where
  "AtomicNumberTable s = \<lparr> zs = s \<rparr>"

definition len_table :: "atomic_number_table \<Rightarrow> nat" where
  "len_table t = length (zs t)"

text \<open>
  \<^verbatim>\<open>self.zs[index]\<close>: a negative index counts from the end, an index out of range
  raises IndexError.
\<close>

definition index_to_z :: "atomic_number_table \<Rightarrow> int \<Rightarrow> py_error + int" where
  "index_to_z t i =
     (if 0 \<le> i \<and> i < int (length (zs t)) then Inr (zs t ! nat i)
      else if i < 0 \<and> - int (length (zs t)) \<le> i then Inr (zs t ! nat (int (length (zs t)) + i))
      else Inl IndexError)"

text \<open>
  \<^verbatim>\<open>list.index\<close>: the position of the first entry equal to the argument,
  ValueError when there is none.
\<close>

fun list_index :: "'a list \<Rightarrow> 'a \<Rightarrow> nat option" where
  "list_index [] x = None"
| "list_index (y # ys) x = (if y = x then Some 0 else map_option Suc (list_index ys x))"

definition z_to_index :: "atomic_number_table \<Rightarrow> int \<Rightarrow> py_error + nat" where
  "z_to_index t atomic_number =
     (case list_index (zs t) atomic_number of
        None \<Rightarrow> Inl ValueError
      | Some i \<Rightarrow> Inr i)"

text \<open>
  The loop adds every element to a set; \<^verbatim>\<open>sorted(list(z_set))\<close> lists the set in
  ascending order.
\<close>

definition get_atomic_number_table_from_zs :: "int list \<Rightarrow> atomic_number_table" where
  "get_atomic_number_table_from_zs s =
     AtomicNumberTable (sorted_list_of_set (fold insert s {}))"

text \<open>
  The invariant the data model asks of a table: entries ascending, and the two
  lookups inverse to each other on the positions of the table.
\<close>

definition table_sorted :: "atomic_number_table \<Rightarrow> bool" where
  "table_sorted t = sorted (zs t)"

definition table_bijective :: "atomic_number_table \<Rightarrow> bool" where
  "table_bijective t =
     (list_all (\<lambda>i. case index_to_z t (int i) of
                       Inl e \<Rightarrow> False
                     | Inr z \<Rightarrow> z_to_index t z = Inr i) [0..<length (zs t)]
      \<and> list_all (\<lambda>z. case z_to_index t z of
                       Inl e \<Rightarrow> False
                     | Inr i \<Rightarrow> index_to_z t (int i) = Inr z) (zs t))"

definition table_invariant :: "atomic_number_table \<Rightarrow> bool" where
  "table_invariant t = (table_sorted t \<and> table_bijective t)"

section \<open>Tensors\<close>

text \<open>
  A tensor is its shape and its entries in row-major order (the tensors handled
  here are contiguous). Entries are exact reals, as for the arrays above.
  Every tensor that PyTorch builds has as many entries as its shape says;
  \<open>wf_tensor\<close> states that for a value of the model.
\<close>

record tensor =
  shape :: "nat list"
  data :: "real list"

definition numel :: "tensor \<Rightarrow> nat" where
  "numel t = prod_list (shape t)"

definition wf_tensor :: "tensor \<Rightarrow> bool" where
  "wf_tensor t = (length (data t) = numel t)"

definition and_then :: "py_error + 'a \<Rightarrow> ('a \<Rightarrow> py_error + 'b) \<Rightarrow> py_error + 'b" where
  "and_then r f = (case r of Inl e \<Rightarrow> Inl e | Inr v \<Rightarrow> f v)"

text \<open>\<^verbatim>\<open>xs[i]\<close> for an index \<open>i \<ge> 0\<close>; the error is the one the container raises.\<close>

definition item :: "'a list \<Rightarrow> nat \<Rightarrow> py_error \<Rightarrow> py_error + 'a" where
  "item xs i err = (if i < length xs then Inr (xs ! i) else Inl err)"

text \<open>\<^verbatim>\<open>.clone()\<close>: a new tensor with the same shape and entries.\<close>

definition clone :: "tensor \<Rightarrow> tensor" where
  "clone t = \<lparr> shape = shape t, data = data t \<rparr>"

definition flatten :: "tensor \<Rightarrow> tensor" where
  "flatten t = \<lparr> shape = [numel t], data = data t \<rparr>"

definition div_scalar :: "tensor \<Rightarrow> real \<Rightarrow> tensor" where
  "div_scalar t k = \<lparr> shape = shape t, data = map (\<lambda>x. x / k) (data t) \<rparr>"

text \<open>\<^verbatim>\<open>.view(n, -1)\<close>: the second dimension is inferred; RuntimeError when it cannot be.\<close>

definition view_rows :: "nat \<Rightarrow> tensor \<Rightarrow> py_error + tensor" where
  "view_rows n t =
     (if n = 0 \<or> numel t mod n \<noteq> 0 then Inl RuntimeError
      else Inr \<lparr> shape = [n, numel t div n], data = data t \<rparr>)"

definition reshape :: "nat list \<Rightarrow> tensor \<Rightarrow> py_error + tensor" where
  "reshape s t =
     (if prod_list s = numel t then Inr \<lparr> shape = s, data = data t \<rparr> else Inl RuntimeError)"

text \<open>
  Indexing one dimension with a list of positions and every other dimension with a
  full slice, as in \<^verbatim>\<open>t[:, idx, :]\<close>. The tensor is \<open>outer\<close> groups of \<open>n\<close> blocks of
  \<open>inner\<close> entries; the result keeps, in every group, the blocks at the listed
  positions, in the order of the list.
\<close>

definition select_blocks :: "nat \<Rightarrow> nat \<Rightarrow> nat \<Rightarrow> nat list \<Rightarrow> real list \<Rightarrow> real list" where
  "select_blocks outer n inner idx xs =
     concat (map (\<lambda>g. concat (map (\<lambda>i. take inner (drop ((g * n + i) * inner) xs)) idx))
                 [0..<outer])"

text \<open>
  \<open>index_dim pre post idx t\<close> is the subscript with \<open>pre\<close> slices before the list and
  \<open>post\<close> slices after it. IndexError when the tensor has fewer dimensions than the
  subscript has entries, or when a position is out of range.
\<close>

definition index_dim :: "nat \<Rightarrow> nat \<Rightarrow> nat list \<Rightarrow> tensor \<Rightarrow> py_error + tensor" where
  "index_dim pre post idx t =
     (if length (shape t) < pre + 1 + post then Inl IndexError
      else if list_ex (\<lambda>i. shape t ! pre \<le> i) idx then Inl IndexError
      else Inr \<lparr> shape = (shape t)[pre := length idx],
                 data = select_blocks (prod_list (take pre (shape t))) (shape t ! pre)
                          (prod_list (drop (Suc pre) (shape t))) idx (data t) \<rparr>)"

text \<open>\<^verbatim>\<open>t[:k, :]\<close>: the first \<open>k\<close> rows (all of them when there are fewer).\<close>

definition slice_rows :: "nat \<Rightarrow> tensor \<Rightarrow> py_error + tensor" where
  "slice_rows k t =
     (case shape t of
        s0 # s1 # rest \<Rightarrow>
          Inr \<lparr> shape = min k s0 # s1 # rest,
                data = take (min k s0 * prod_list (s1 # rest)) (data t) \<rparr>
      | _ \<Rightarrow> Inl IndexError)"

text \<open>
  \<^verbatim>\<open>(num_species_foundations / num_species) ** 0.5\<close>, a division of Python integers:
  ZeroDivisionError when the divisor is 0.
\<close>

definition rescale_factor :: "nat \<Rightarrow> nat \<Rightarrow> py_error + real" where
  "rescale_factor nsf ns =
     (if ns = 0 then Inl ZeroDivisionError else Inr (sqrt (real nsf / real ns)))"

section \<open>The model objects\<close>

text \<open>
  Modelled from the spec: the classes of the MACE model (its interaction blocks,
  product blocks, readouts and scale-shift block) are declared outside
  \<^verbatim>\<open>utils.py\<close>. The records below hold the attributes that \<^verbatim>\<open>load_foundations\<close>
  reads or writes, under the attribute paths of the source:
  \<^verbatim>\<open>interactions[i].linear_up.weight\<close> is \<open>linear_up_weight\<close> of the \<open>i\<close>-th block, the
  weight of \<^verbatim>\<open>conv_tp_weights.layer{j}\<close> is the \<open>j\<close>-th entry of \<open>conv_tp_weights\<close>
  (a missing layer is a missing attribute), \<^verbatim>\<open>bessel_fn.bessel_weights\<close> is \<open>None\<close>
  for a basis that has no such attribute, and \<open>scale_shift = None\<close> is Python's
  \<^verbatim>\<open>None\<close>. The readout heads are "a single linear layer and a two-layer head".
\<close>

record interaction_block =
  class_name :: string
  linear_up_weight :: tensor
  avg_num_neighbors :: real
  conv_tp_weights :: "tensor list"
  linear_weight :: tensor
  skip_tp_weight :: tensor

record contraction =
  weights_max :: tensor
  weights :: "tensor list"

record product_block =
  contractions :: "contraction list"
  product_linear_weight :: tensor

datatype readout_block =
  LinearReadoutBlock tensor
| NonLinearReadoutBlock tensor tensor

record scale_shift_block =
  scale :: tensor
  shift :: tensor

record mace_model =
  r_max :: real
  atomic_numbers :: "int list"
  node_embedding_weight :: tensor
  radial_out_dim :: nat
  bessel_fn_class :: string
  bessel_weights :: "tensor option"
  lmax :: nat
  num_interactions :: nat
  interactions :: "interaction_block list"
  products :: "product_block list"
  readouts :: "readout_block list"
  scale_shift :: "scale_shift_block option"

section \<open>Statements on a store of model objects\<close>

text \<open>
  \<^verbatim>\<open>load_foundations\<close> mutates the object \<open>model\<close> in place while it reads the object
  \<open>model_foundations\<close>. The store maps object references to the current value of
  the object; a statement returns the exception it raised, if any, together with
  the store it leaves behind, so that what was assigned before an exception stays
  assigned. The submodules of a model are owned by it (two models do not share
  a submodule).
\<close>

type_synonym ref = nat
type_synonym heap = "ref \<Rightarrow> mace_model"
type_synonym outcome = "py_error option \<times> heap"

text \<open>
  \<^verbatim>\<open>model.path = rhs\<close>: the right-hand side is evaluated on the foundation object
  first, then the attribute path of the target is resolved and assigned.
\<close>

definition set_stmt ::
  "ref \<Rightarrow> ref \<Rightarrow> (mace_model \<Rightarrow> py_error + 'v) \<Rightarrow> ('v \<Rightarrow> mace_model \<Rightarrow> py_error + mace_model)
     \<Rightarrow> heap \<Rightarrow> outcome" where
  "set_stmt model model_foundations rhs store h =
     (case rhs (h model_foundations) of
        Inl e \<Rightarrow> (Some e, h)
      | Inr v \<Rightarrow>
          (case store v (h model) of
             Inl e \<Rightarrow> (Some e, h)
           | Inr t \<Rightarrow> (None, h(model := t))))"

definition seq :: "(heap \<Rightarrow> outcome) \<Rightarrow> (heap \<Rightarrow> outcome) \<Rightarrow> heap \<Rightarrow> outcome" where
  "seq s1 s2 h = (case s1 h of (None, h') \<Rightarrow> s2 h' | (Some e, h') \<Rightarrow> (Some e, h'))"

definition skip :: "heap \<Rightarrow> outcome" where
  "skip h = (None, h)"

fun for_range :: "nat list \<Rightarrow> (nat \<Rightarrow> heap \<Rightarrow> outcome) \<Rightarrow> heap \<Rightarrow> outcome" where
  "for_range [] body h = (None, h)"
| "for_range (i # is) body h = seq (body i) (for_range is body) h"

text \<open>A list comprehension over a function that may raise stops at the first exception.\<close>

fun collect :: "('a \<Rightarrow> py_error + 'b) \<Rightarrow> 'a list \<Rightarrow> py_error + 'b list" where
  "collect f [] = Inr []"
| "collect f (x # xs) =
     and_then (f x) (\<lambda>y. and_then (collect f xs) (\<lambda>ys. Inr (y # ys)))"

section \<open>load_foundations\<close>

text \<open>The local variables that the function computes before it assigns anything.\<close>

record lf_locals =
  num_species_foundations :: nat
  num_channels_foundation :: nat
  indices_weights :: "nat list"
  num_radial :: nat
  num_species :: nat
  max_ell :: nat

text \<open>
  \<^verbatim>\<open>shape[0] // num_species_foundations\<close> raises IndexError on a tensor without
  dimensions and ZeroDivisionError on an empty foundation table; the list
  comprehension over \<^verbatim>\<open>z_table.z_to_index\<close> raises at the first element of the target
  table that the foundation table does not have.
\<close>

definition compute_locals ::
  "mace_model \<Rightarrow> mace_model \<Rightarrow> atomic_number_table \<Rightarrow> py_error + lf_locals" where
  "compute_locals model model_foundations table =
     (let z_table = AtomicNumberTable (atomic_numbers model_foundations);
          new_z_table = table;
          nsf = length (zs z_table)
      in and_then
           (case shape (node_embedding_weight model_foundations) of
              [] \<Rightarrow> Inl IndexError
            | s0 # rest \<Rightarrow> if nsf = 0 then Inl ZeroDivisionError else Inr (s0 div nsf))
           (\<lambda>ncf. and_then (collect (z_to_index z_table) (zs new_z_table))
              (\<lambda>idx. Inr \<lparr> num_species_foundations = nsf,
                            num_channels_foundation = ncf,
                            indices_weights = idx,
                            num_radial = radial_out_dim model,
                            num_species = length idx,
                            max_ell = lmax model \<rparr>)))"

subsection \<open>Right-hand sides: what is read from the foundation model\<close>

definition node_embedding_rhs :: "lf_locals \<Rightarrow> mace_model \<Rightarrow> py_error + tensor" where
  "node_embedding_rhs L f =
     and_then (view_rows (num_species_foundations L) (node_embedding_weight f))
       (\<lambda>v. and_then (index_dim 0 1 (indices_weights L) v)
          (\<lambda>s. and_then (rescale_factor (num_species_foundations L) (num_species L))
             (\<lambda>k. Inr (div_scalar (clone (flatten s)) k))))"

definition bessel_rhs :: "mace_model \<Rightarrow> py_error + tensor" where
  "bessel_rhs f =
     (case bessel_weights f of None \<Rightarrow> Inl AttributeError | Some w \<Rightarrow> Inr (clone w))"

definition linear_up_rhs :: "nat \<Rightarrow> mace_model \<Rightarrow> py_error + tensor" where
  "linear_up_rhs i f =
     and_then (item (interactions f) i IndexError) (\<lambda>b. Inr (clone (linear_up_weight b)))"

definition avg_num_neighbors_rhs :: "nat \<Rightarrow> mace_model \<Rightarrow> py_error + real" where
  "avg_num_neighbors_rhs i f =
     and_then (item (interactions f) i IndexError) (\<lambda>b. Inr (avg_num_neighbors b))"

definition conv_tp_rhs :: "lf_locals \<Rightarrow> nat \<Rightarrow> nat \<Rightarrow> mace_model \<Rightarrow> py_error + tensor" where
  "conv_tp_rhs L i j f =
     and_then (item (interactions f) i IndexError)
       (\<lambda>b. and_then (item (conv_tp_weights b) j AttributeError)
          (\<lambda>w. if j = 0 then and_then (slice_rows (num_radial L) w) (\<lambda>s. Inr (clone s))
                else Inr (clone w)))"

definition linear_rhs :: "nat \<Rightarrow> mace_model \<Rightarrow> py_error + tensor" where
  "linear_rhs i f =
     and_then (item (interactions f) i IndexError) (\<lambda>b. Inr (clone (linear_weight b)))"

definition skip_tp_residual_rhs :: "lf_locals \<Rightarrow> nat \<Rightarrow> mace_model \<Rightarrow> py_error + tensor" where
  "skip_tp_residual_rhs L i f =
     and_then (item (interactions f) i IndexError)
       (\<lambda>b. and_then
          (reshape [num_channels_foundation L, num_species_foundations L,
                    num_channels_foundation L] (skip_tp_weight b))
          (\<lambda>v. and_then (index_dim 1 1 (indices_weights L) v)
             (\<lambda>s. and_then (rescale_factor (num_species_foundations L) (num_species L))
                (\<lambda>k. Inr (div_scalar (clone (flatten s)) k)))))"

definition skip_tp_else_rhs :: "lf_locals \<Rightarrow> nat \<Rightarrow> mace_model \<Rightarrow> py_error + tensor" where
  "skip_tp_else_rhs L i f =
     and_then (item (interactions f) i IndexError)
       (\<lambda>b. and_then
          (reshape [num_channels_foundation L, max_ell L + 1, num_species_foundations L,
                    num_channels_foundation L] (skip_tp_weight b))
          (\<lambda>v. and_then (index_dim 2 1 (indices_weights L) v)
             (\<lambda>s. and_then (rescale_factor (num_species_foundations L) (num_species L))
                (\<lambda>k. Inr (div_scalar (clone (flatten s)) k)))))"

definition weights_max_rhs :: "lf_locals \<Rightarrow> nat \<Rightarrow> nat \<Rightarrow> mace_model \<Rightarrow> py_error + tensor" where
  "weights_max_rhs L i j f =
     and_then (item (products f) i IndexError)
       (\<lambda>p. and_then (item (contractions p) j IndexError)
          (\<lambda>c. and_then (index_dim 0 2 (indices_weights L) (weights_max c))
             (\<lambda>s. Inr (clone s))))"

definition weights_rhs ::
  "lf_locals \<Rightarrow> nat \<Rightarrow> nat \<Rightarrow> nat \<Rightarrow> mace_model \<Rightarrow> py_error + tensor" where
  "weights_rhs L i j k f =
     and_then (item (products f) i IndexError)
       (\<lambda>p. and_then (item (contractions p) j IndexError)
          (\<lambda>c. and_then (item (weights c) k IndexError)
             (\<lambda>w. and_then (index_dim 0 2 (indices_weights L) w)
                (\<lambda>s. Inr (clone s)))))"

definition product_linear_rhs :: "nat \<Rightarrow> mace_model \<Rightarrow> py_error + tensor" where
  "product_linear_rhs i f =
     and_then (item (products f) i IndexError) (\<lambda>p. Inr (clone (product_linear_weight p)))"

definition readout_linear_rhs :: "mace_model \<Rightarrow> py_error + tensor" where
  "readout_linear_rhs f =
     and_then (item (readouts f) 0 IndexError)
       (\<lambda>r. case r of LinearReadoutBlock w \<Rightarrow> Inr (clone w)
                     | NonLinearReadoutBlock w1 w2 \<Rightarrow> Inl AttributeError)"

definition readout_linear_1_rhs :: "mace_model \<Rightarrow> py_error + tensor" where
  "readout_linear_1_rhs f =
     and_then (item (readouts f) 1 IndexError)
       (\<lambda>r. case r of LinearReadoutBlock w \<Rightarrow> Inl AttributeError
                     | NonLinearReadoutBlock w1 w2 \<Rightarrow> Inr (clone w1))"

definition readout_linear_2_rhs :: "mace_model \<Rightarrow> py_error + tensor" where
  "readout_linear_2_rhs f =
     and_then (item (readouts f) 1 IndexError)
       (\<lambda>r. case r of LinearReadoutBlock w \<Rightarrow> Inl AttributeError
                     | NonLinearReadoutBlock w1 w2 \<Rightarrow> Inr (clone w2))"

definition scale_rhs :: "mace_model \<Rightarrow> py_error + tensor" where
  "scale_rhs f =
     (case scale_shift f of None \<Rightarrow> Inl AttributeError | Some s \<Rightarrow> Inr (clone (scale s)))"

definition shift_rhs :: "mace_model \<Rightarrow> py_error + tensor" where
  "shift_rhs f =
     (case scale_shift f of None \<Rightarrow> Inl AttributeError | Some s \<Rightarrow> Inr (clone (shift s)))"

subsection \<open>Assignment targets: what is written into the target model\<close>

definition store_node_embedding :: "tensor \<Rightarrow> mace_model \<Rightarrow> py_error + mace_model" where
  "store_node_embedding w t = Inr (t\<lparr> node_embedding_weight := w \<rparr>)"

definition store_bessel :: "tensor \<Rightarrow> mace_model \<Rightarrow> py_error + mace_model" where
  "store_bessel w t = Inr (t\<lparr> bessel_weights := Some w \<rparr>)"

definition store_interaction ::
  "nat \<Rightarrow> ('v \<Rightarrow> interaction_block \<Rightarrow> py_error + interaction_block)
     \<Rightarrow> 'v \<Rightarrow> mace_model \<Rightarrow> py_error + mace_model" where
  "store_interaction i g v t =
     and_then (item (interactions t) i IndexError)
       (\<lambda>b. and_then (g v b)
          (\<lambda>b'. Inr (t\<lparr> interactions := (interactions t)[i := b'] \<rparr>)))"

definition put_linear_up :: "tensor \<Rightarrow> interaction_block \<Rightarrow> py_error + interaction_block" where
  "put_linear_up w b = Inr (b\<lparr> linear_up_weight := w \<rparr>)"

definition put_avg_num_neighbors ::
  "real \<Rightarrow> interaction_block \<Rightarrow> py_error + interaction_block" where
  "put_avg_num_neighbors a b = Inr (b\<lparr> avg_num_neighbors := a \<rparr>)"

definition put_conv_tp ::
  "nat \<Rightarrow> tensor \<Rightarrow> interaction_block \<Rightarrow> py_error + interaction_block" where
  "put_conv_tp j w b =
     (if j < length (conv_tp_weights b)
      then Inr (b\<lparr> conv_tp_weights := (conv_tp_weights b)[j := w] \<rparr>)
      else Inl AttributeError)"

definition put_linear :: "tensor \<Rightarrow> interaction_block \<Rightarrow> py_error + interaction_block" where
  "put_linear w b = Inr (b\<lparr> linear_weight := w \<rparr>)"

definition put_skip_tp :: "tensor \<Rightarrow> interaction_block \<Rightarrow> py_error + interaction_block" where
  "put_skip_tp w b = Inr (b\<lparr> skip_tp_weight := w \<rparr>)"

definition store_product ::
  "nat \<Rightarrow> ('v \<Rightarrow> product_block \<Rightarrow> py_error + product_block)
     \<Rightarrow> 'v \<Rightarrow> mace_model \<Rightarrow> py_error + mace_model" where
  "store_product i g v t =
     and_then (item (products t) i IndexError)
       (\<lambda>p. and_then (g v p)
          (\<lambda>p'. Inr (t\<lparr> products := (products t)[i := p'] \<rparr>)))"

definition put_contraction ::
  "nat \<Rightarrow> ('v \<Rightarrow> contraction \<Rightarrow> py_error + contraction)
     \<Rightarrow> 'v \<Rightarrow> product_block \<Rightarrow> py_error + product_block" where
  "put_contraction j g v p =
     and_then (item (contractions p) j IndexError)
       (\<lambda>c. and_then (g v c)
          (\<lambda>c'. Inr (p\<lparr> contractions := (contractions p)[j := c'] \<rparr>)))"

definition put_weights_max :: "tensor \<Rightarrow> contraction \<Rightarrow> py_error + contraction" where
  "put_weights_max w c = Inr (c\<lparr> weights_max := w \<rparr>)"

definition put_weights :: "nat \<Rightarrow> tensor \<Rightarrow> contraction \<Rightarrow> py_error + contraction" where
  "put_weights k w c =
     (if k < length (weights c) then Inr (c\<lparr> weights := (weights c)[k := w] \<rparr>)
      else Inl IndexError)"

definition put_product_linear :: "tensor \<Rightarrow> product_block \<Rightarrow> py_error + product_block" where
  "put_product_linear w p = Inr (p\<lparr> product_linear_weight := w \<rparr>)"

definition store_readout_linear :: "tensor \<Rightarrow> mace_model \<Rightarrow> py_error + mace_model" where
  "store_readout_linear w t =
     and_then (item (readouts t) 0 IndexError)
       (\<lambda>r. case r of
               LinearReadoutBlock w0 \<Rightarrow>
                 Inr (t\<lparr> readouts := (readouts t)[0 := LinearReadoutBlock w] \<rparr>)
             | NonLinearReadoutBlock w1 w2 \<Rightarrow> Inl AttributeError)"

definition store_readout_linear_1 :: "tensor \<Rightarrow> mace_model \<Rightarrow> py_error + mace_model" where
  "store_readout_linear_1 w t =
     and_then (item (readouts t) 1 IndexError)
       (\<lambda>r. case r of
               LinearReadoutBlock w0 \<Rightarrow> Inl AttributeError
             | NonLinearReadoutBlock w1 w2 \<Rightarrow>
                 Inr (t\<lparr> readouts := (readouts t)[1 := NonLinearReadoutBlock w w2] \<rparr>))"

definition store_readout_linear_2 :: "tensor \<Rightarrow> mace_model \<Rightarrow> py_error + mace_model" where
  "store_readout_linear_2 w t =
     and_then (item (readouts t) 1 IndexError)
       (\<lambda>r. case r of
               LinearReadoutBlock w0 \<Rightarrow> Inl AttributeError
             | NonLinearReadoutBlock w1 w2 \<Rightarrow>
                 Inr (t\<lparr> readouts := (readouts t)[1 := NonLinearReadoutBlock w1 w] \<rparr>))"

definition store_scale :: "tensor \<Rightarrow> mace_model \<Rightarrow> py_error + mace_model" where
  "store_scale w t =
     (case scale_shift t of
        None \<Rightarrow> Inl AttributeError
      | Some s \<Rightarrow> Inr (t\<lparr> scale_shift := Some (s\<lparr> scale := w \<rparr>) \<rparr>))"

definition store_shift :: "tensor \<Rightarrow> mace_model \<Rightarrow> py_error + mace_model" where
  "store_shift w t =
     (case scale_shift t of
        None \<Rightarrow> Inl AttributeError
      | Some s \<Rightarrow> Inr (t\<lparr> scale_shift := Some (s\<lparr> shift := w \<rparr>) \<rparr>))"

subsection \<open>The statements of the function body, in source order\<close>

definition node_embedding_stmt :: "lf_locals \<Rightarrow> ref \<Rightarrow> ref \<Rightarrow> heap \<Rightarrow> outcome" where
  "node_embedding_stmt L model model_foundations =
     set_stmt model model_foundations (node_embedding_rhs L) store_node_embedding"

text \<open>The radial basis: only the class named \<^verbatim>\<open>BesselBasis\<close> has a branch.\<close>

definition bessel_stmt :: "ref \<Rightarrow> ref \<Rightarrow> heap \<Rightarrow> outcome" where
  "bessel_stmt model model_foundations h =
     (if bessel_fn_class (h model) = ''BesselBasis''
      then set_stmt model model_foundations bessel_rhs store_bessel h
      else (None, h))"

text \<open>The skip tensor product: one class name selects the first layout, every other the second.\<close>

definition skip_tp_stmt :: "lf_locals \<Rightarrow> ref \<Rightarrow> ref \<Rightarrow> nat \<Rightarrow> heap \<Rightarrow> outcome" where
  "skip_tp_stmt L model model_foundations i h =
     (case item (interactions (h model)) i IndexError of
        Inl e \<Rightarrow> (Some e, h)
      | Inr b \<Rightarrow>
          if class_name b = ''RealAgnosticResidualInteractionBlock''
          then set_stmt model model_foundations (skip_tp_residual_rhs L i)
                 (store_interaction i put_skip_tp) h
          else set_stmt model model_foundations (skip_tp_else_rhs L i)
                 (store_interaction i put_skip_tp) h)"

definition interaction_body :: "lf_locals \<Rightarrow> ref \<Rightarrow> ref \<Rightarrow> nat \<Rightarrow> heap \<Rightarrow> outcome" where
  "interaction_body L model model_foundations i =
     seq (set_stmt model model_foundations (linear_up_rhs i)
            (store_interaction i put_linear_up))
    (seq (set_stmt model model_foundations (avg_num_neighbors_rhs i)
            (store_interaction i put_avg_num_neighbors))
    (seq (for_range [0..<4]
            (\<lambda>j. set_stmt model model_foundations (conv_tp_rhs L i j)
                   (store_interaction i (put_conv_tp j))))
    (seq (set_stmt model model_foundations (linear_rhs i)
            (store_interaction i put_linear))
         (skip_tp_stmt L model model_foundations i))))"

definition contraction_body ::
  "lf_locals \<Rightarrow> ref \<Rightarrow> ref \<Rightarrow> nat \<Rightarrow> nat \<Rightarrow> heap \<Rightarrow> outcome" where
  "contraction_body L model model_foundations i j =
     seq (set_stmt model model_foundations (weights_max_rhs L i j)
            (store_product i (put_contraction j put_weights_max)))
         (for_range [0..<2]
            (\<lambda>k. set_stmt model model_foundations (weights_rhs L i j k)
                   (store_product i (put_contraction j (put_weights k)))))"

definition product_body :: "lf_locals \<Rightarrow> ref \<Rightarrow> ref \<Rightarrow> int \<Rightarrow> nat \<Rightarrow> heap \<Rightarrow> outcome" where
  "product_body L model model_foundations max_L i =
     (let max_range = (if i = 0 then nat (max_L + 1) else 1)
      in seq (for_range [0..<max_range] (contraction_body L model model_foundations i))
             (set_stmt model model_foundations (product_linear_rhs i)
                (store_product i put_product_linear)))"

definition readout_stmts :: "ref \<Rightarrow> ref \<Rightarrow> bool \<Rightarrow> heap \<Rightarrow> outcome" where
  "readout_stmts model model_foundations load_readout =
     (if load_readout
      then seq (set_stmt model model_foundations readout_linear_rhs store_readout_linear)
          (seq (set_stmt model model_foundations readout_linear_1_rhs store_readout_linear_1)
               (set_stmt model model_foundations readout_linear_2_rhs store_readout_linear_2))
      else skip)"

definition scale_shift_stmts :: "ref \<Rightarrow> ref \<Rightarrow> bool \<Rightarrow> bool \<Rightarrow> heap \<Rightarrow> outcome" where
  "scale_shift_stmts model model_foundations use_scale use_shift h =
     (case scale_shift (h model_foundations) of
        None \<Rightarrow> (None, h)
      | Some s \<Rightarrow>
          seq (if use_scale then set_stmt model model_foundations scale_rhs store_scale
               else skip)
              (if use_shift then set_stmt model model_foundations shift_rhs store_shift
               else skip) h)"

definition lf_body ::
  "lf_locals \<Rightarrow> ref \<Rightarrow> ref \<Rightarrow> nat \<Rightarrow> bool \<Rightarrow> bool \<Rightarrow> bool \<Rightarrow> int \<Rightarrow> heap \<Rightarrow> outcome" where
  "lf_body L model model_foundations n load_readout use_shift use_scale max_L =
     seq (node_embedding_stmt L model model_foundations)
    (seq (bessel_stmt model model_foundations)
    (seq (for_range [0..<n] (interaction_body L model model_foundations))
    (seq (for_range [0..<2] (product_body L model model_foundations max_L))
    (seq (readout_stmts model model_foundations load_readout)
         (scale_shift_stmts model model_foundations use_scale use_shift)))))"

text \<open>
  The function: the assertion on the cutoff radius, the local variables, the body,
  and \<^verbatim>\<open>return model\<close>. The result is the exception or the returned reference,
  with the store after the call.
\<close>

definition load_foundations ::
  "heap \<Rightarrow> ref \<Rightarrow> ref \<Rightarrow> atomic_number_table \<Rightarrow> bool \<Rightarrow> bool \<Rightarrow> bool \<Rightarrow> int
     \<Rightarrow> (py_error + ref) \<times> heap" where
  "load_foundations h model model_foundations table load_readout use_shift use_scale max_L =
     (if r_max (h model_foundations) \<noteq> r_max (h model) then (Inl AssertionError, h)
      else case compute_locals (h model) (h model_foundations) table of
             Inl e \<Rightarrow> (Inl e, h)
           | Inr L \<Rightarrow>
               (case lf_body L model model_foundations (num_interactions (h model))
                       load_readout use_shift use_scale max_L h of
                  (None, h') \<Rightarrow> (Inr model, h')
                | (Some e, h') \<Rightarrow> (Inl e, h')))"

section \<open>A concrete foundation/target pair\<close>

text \<open>
  A small foundation model over the elements 1, 6, 8 with two channels, one
  interaction block and two product blocks, and a fresh target model of the same
  architecture; the statements below are evaluated on them.
\<close>

definition vec :: "real list \<Rightarrow> tensor" where
  "vec xs = \<lparr> shape = [length xs], data = xs \<rparr>"

definition example_foundation :: mace_model where
  "example_foundation =
     \<lparr> r_max = 5,
       atomic_numbers = [1, 6, 8],
       node_embedding_weight = vec [1, 2, 3, 4, 5, 6],
       radial_out_dim = 2,
       bessel_fn_class = ''BesselBasis'',
       bessel_weights = Some (vec [7, 8]),
       lmax = 0,
       num_interactions = 1,
       interactions =
         [\<lparr> class_name = ''RealAgnosticResidualInteractionBlock'',
            linear_up_weight = vec [1, 2, 3, 4],
            avg_num_neighbors = 12,
            conv_tp_weights =
              [\<lparr> shape = [2, 2], data = [1, 2, 3, 4] \<rparr>, vec [5], vec [6], vec [7]],
            linear_weight = vec [8, 9],
            skip_tp_weight = vec [1, 2, 3, 4, 5, 6, 7, 8, 9, 10, 11, 12] \<rparr>],
       products =
         [\<lparr> contractions =
              [\<lparr> weights_max = \<lparr> shape = [3, 1, 2], data = [1, 2, 3, 4, 5, 6] \<rparr>,
                 weights = [\<lparr> shape = [3, 1, 1], data = [1, 2, 3] \<rparr>,
                            \<lparr> shape = [3, 1, 1], data = [4, 5, 6] \<rparr>] \<rparr>],
            product_linear_weight = vec [1, 2] \<rparr>,
          \<lparr> contractions =
              [\<lparr> weights_max = \<lparr> shape = [3, 1, 2], data = [6, 5, 4, 3, 2, 1] \<rparr>,
                 weights = [\<lparr> shape = [3, 1, 1], data = [7, 8, 9] \<rparr>,
                            \<lparr> shape = [3, 1, 1], data = [3, 2, 1] \<rparr>] \<rparr>],
            product_linear_weight = vec [3, 4] \<rparr>],
       readouts = [LinearReadoutBlock (vec [1, 2]), NonLinearReadoutBlock (vec [3]) (vec [4])],
       scale_shift = Some \<lparr> scale = vec [2], shift = vec [3] \<rparr> \<rparr>"

definition fresh_block :: "string \<Rightarrow> interaction_block" where
  "fresh_block c =
     \<lparr> class_name = c,
       linear_up_weight = vec [0, 0, 0, 0],
       avg_num_neighbors = 1,
       conv_tp_weights = [\<lparr> shape = [1, 2], data = [0, 0] \<rparr>, vec [0], vec [0], vec [0]],
       linear_weight = vec [0, 0],
       skip_tp_weight = vec [0, 0, 0, 0, 0, 0, 0, 0] \<rparr>"

definition fresh_product :: product_block where
  "fresh_product =
     \<lparr> contractions =
         [\<lparr> weights_max = \<lparr> shape = [2, 1, 2], data = [0, 0, 0, 0] \<rparr>,
            weights = [\<lparr> shape = [2, 1, 1], data = [0, 0] \<rparr>,
                       \<lparr> shape = [2, 1, 1], data = [0, 0] \<rparr>] \<rparr>],
       product_linear_weight = vec [0, 0] \<rparr>"

definition example_target :: "string \<Rightarrow> string \<Rightarrow> mace_model" where
  "example_target basis block =
     \<lparr> r_max = 5,
       atomic_numbers = [1, 8],
       node_embedding_weight = vec [0, 0, 0, 0],
       radial_out_dim = 1,
       bessel_fn_class = basis,
       bessel_weights = None,
       lmax = 0,
       num_interactions = 1,
       interactions = [fresh_block block],
       products = [fresh_product, fresh_product],
       readouts = [LinearReadoutBlock (vec [0, 0]), NonLinearReadoutBlock (vec [0]) (vec [0])],
       scale_shift = Some \<lparr> scale = vec [1], shift = vec [0] \<rparr> \<rparr>"

text \<open>The store: object 0 is the target, object 1 the foundation.\<close>

definition example_heap :: "mace_model \<Rightarrow> mace_model \<Rightarrow> heap" where
  "example_heap t f = (\<lambda>r. if r = 0 then t else f)"

section \<open>What a successful call has copied\<close>

text \<open>
  The relations between a block of the target before the call, the foundation model
  and the same block after the call, as the loops of the function establish them.
\<close>

definition interaction_copied ::
  "lf_locals \<Rightarrow> mace_model \<Rightarrow> nat \<Rightarrow> interaction_block \<Rightarrow> interaction_block \<Rightarrow> bool" where
  "interaction_copied L f i b b' =
     (class_name b' = class_name b
      \<and> length (conv_tp_weights b') = length (conv_tp_weights b)
      \<and> linear_up_rhs i f = Inr (linear_up_weight b')
      \<and> avg_num_neighbors_rhs i f = Inr (avg_num_neighbors b')
      \<and> conv_tp_rhs L i 0 f = Inr (conv_tp_weights b' ! 0)
      \<and> conv_tp_rhs L i 1 f = Inr (conv_tp_weights b' ! 1)
      \<and> conv_tp_rhs L i 2 f = Inr (conv_tp_weights b' ! 2)
      \<and> conv_tp_rhs L i 3 f = Inr (conv_tp_weights b' ! 3)
      \<and> linear_rhs i f = Inr (linear_weight b')
      \<and> (if class_name b = ''RealAgnosticResidualInteractionBlock''
          then skip_tp_residual_rhs L i f else skip_tp_else_rhs L i f)
         = Inr (skip_tp_weight b'))"

definition contraction_copied ::
  "lf_locals \<Rightarrow> mace_model \<Rightarrow> nat \<Rightarrow> nat \<Rightarrow> contraction \<Rightarrow> contraction \<Rightarrow> bool" where
  "contraction_copied L f i j c c' =
     (length (weights c') = length (weights c)
      \<and> weights_max_rhs L i j f = Inr (weights_max c')
      \<and> weights_rhs L i j 0 f = Inr (weights c' ! 0)
      \<and> weights_rhs L i j 1 f = Inr (weights c' ! 1))"

definition product_copied ::
  "lf_locals \<Rightarrow> mace_model \<Rightarrow> nat \<Rightarrow> nat \<Rightarrow> product_block \<Rightarrow> product_block \<Rightarrow> bool" where
  "product_copied L f i n p p' =
     (length (contractions p') = length (contractions p)
      \<and> n \<le> length (contractions p)
      \<and> list_all (\<lambda>j. contraction_copied L f i j (contractions p ! j) (contractions p' ! j))
           [0..<n]
      \<and> product_linear_rhs i f = Inr (product_linear_weight p'))"

section \<open>The node embedding as the specification words it\<close>

text \<open>
  The flat tensor of \<open>n\<close> species is cut into \<open>n\<close> consecutive blocks of equal
  length, one per species; \<open>reindex_blocks\<close> lists the blocks of the positions \<open>idx\<close>
  (the position of each target element in the foundation table), flattened. The
  specification has the result "rescaled by" \<open>sqrt (nsf / ns)\<close>:
  \<open>spec_node_embedding\<close> scales every entry by that factor.
\<close>

definition per_species_blocks :: "nat \<Rightarrow> real list \<Rightarrow> real list list" where
  "per_species_blocks n xs =
     map (\<lambda>s. take (length xs div n) (drop (s * (length xs div n)) xs)) [0..<n]"

definition reindex_blocks :: "nat \<Rightarrow> nat list \<Rightarrow> real list \<Rightarrow> real list" where
  "reindex_blocks n idx xs = concat (map (\<lambda>i. per_species_blocks n xs ! i) idx)"

definition spec_node_embedding :: "nat \<Rightarrow> nat \<Rightarrow> nat list \<Rightarrow> real list \<Rightarrow> real list" where
  "spec_node_embedding nsf ns idx xs =
     map (\<lambda>x. x * sqrt (real nsf / real ns)) (reindex_blocks nsf idx xs)"

section \<open>Well-formed foundation models\<close>

text \<open>
  The shapes that the layers of a foundation model have: the weights of the linear
  and tensor-product layers are flat, and the first dimension of a contraction
  weight runs over the elements of the model.
\<close>

definition flat :: "tensor \<Rightarrow> bool" where
  "flat t = (length (shape t) = 1 \<and> wf_tensor t)"

definition species_tensor :: "nat \<Rightarrow> tensor \<Rightarrow> bool" where
  "species_tensor n t = (3 \<le> length (shape t) \<and> hd (shape t) = n \<and> wf_tensor t)"

definition wf_contraction :: "nat \<Rightarrow> contraction \<Rightarrow> bool" where
  "wf_contraction n c =
     (species_tensor n (weights_max c) \<and> list_all (species_tensor n) (weights c))"

definition wf_foundation :: "mace_model \<Rightarrow> bool" where
  "wf_foundation f =
     (flat (node_embedding_weight f)
      \<and> list_all (\<lambda>b. flat (skip_tp_weight b)) (interactions f)
      \<and> list_all (\<lambda>p. list_all (wf_contraction (length (atomic_numbers f))) (contractions p))
           (products f))"

section \<open>The statistics helpers in float64 arithmetic\<close>

text \<open>
  On an array of dtype float64 numpy computes every operation in IEEE binary64
  arithmetic, rounding to nearest with ties to even. A finite float64 value is
  modelled by the real number it denotes; \<open>None\<close> stands for a result that is not
  finite (the infinity of an overflow, which every later operation of these helpers
  propagates, or the NaN of an empty array). The entries of the input array are
  finite float64 values.

  \<open>f64_round\<close> is the rounding of a real number to binary64: 53 significant bits
  down to the exponent \<open>-1022\<close>, multiples of \<open>2 ^ -1074\<close> below (gradual
  underflow), infinity from \<open>2 ^ 1024\<close> on. A division by zero and the square
  root of a negative number are not finite either.
\<close>

definition round_half_even :: "real \<Rightarrow> int" where
  "round_half_even y =
     (if y - of_int \<lfloor>y\<rfloor> < 1 / 2 then \<lfloor>y\<rfloor>
      else if 1 / 2 < y - of_int \<lfloor>y\<rfloor> then \<lfloor>y\<rfloor> + 1
      else if even \<lfloor>y\<rfloor> then \<lfloor>y\<rfloor> else \<lfloor>y\<rfloor> + 1)"

definition f64_round :: "real \<Rightarrow> real option" where
  "f64_round x =
     (if x = 0 then Some 0
      else let q = 2 powr (of_int (max \<lfloor>log 2 \<bar>x\<bar>\<rfloor> (- 1022)) - 52);
               r = of_int (round_half_even (x / q)) * q
           in if 2 powr 1024 \<le> \<bar>r\<bar> then None else Some r)"

definition f64_add :: "real option \<Rightarrow> real option \<Rightarrow> real option" where
  "f64_add a b =
     (case a of None \<Rightarrow> None
      | Some x \<Rightarrow> (case b of None \<Rightarrow> None | Some y \<Rightarrow> f64_round (x + y)))"

definition f64_div :: "real option \<Rightarrow> real option \<Rightarrow> real option" where
  "f64_div a b =
     (case a of None \<Rightarrow> None
      | Some x \<Rightarrow>
          (case b of None \<Rightarrow> None
           | Some y \<Rightarrow> if y = 0 then None else f64_round (x / y)))"

definition f64_sqrt :: "real option \<Rightarrow> real option" where
  "f64_sqrt a =
     (case a of None \<Rightarrow> None
      | Some x \<Rightarrow> if x < 0 then None else f64_round (sqrt x))"

text \<open>
  \<^verbatim>\<open>np.mean\<close> adds the entries with numpy's pairwise summation and divides by their
  number. Fewer than 8 entries are added from left to right; up to 128 entries are
  added in 8 interleaved lanes whose sums are then combined, the entries beyond the
  last full group of 8 being added at the end; a longer array is split near its
  middle, at a multiple of 8.
\<close>

definition half8 :: "nat \<Rightarrow> nat" where
  "half8 n = n div 2 - (n div 2) mod 8"

function lane_sums :: "real option list \<Rightarrow> real option list \<Rightarrow> real option list" where
  "lane_sums r a =
     (if length a < 8 then r else lane_sums (map2 f64_add r (take 8 a)) (drop 8 a))"
  by pat_completeness auto
termination
  by (relation "measure (\<lambda>(r, a). length a)") auto

function pairwise_sum :: "real option list \<Rightarrow> real option" where
  "pairwise_sum a =
     (if length a < 8 then foldl f64_add (Some 0) a
      else if length a \<le> 128 then
        (let m = length a - length a mod 8;
             r = lane_sums (take 8 a) (drop 8 (take m a));
             res = f64_add (f64_add (f64_add (r ! 0) (r ! 1)) (f64_add (r ! 2) (r ! 3)))
                     (f64_add (f64_add (r ! 4) (r ! 5)) (f64_add (r ! 6) (r ! 7)))
         in foldl f64_add res (drop m a))
      else f64_add (pairwise_sum (take (half8 (length a)) a))
             (pairwise_sum (drop (half8 (length a)) a)))"
  by pat_completeness auto
termination
  by (relation "measure length") (auto simp: half8_def)

definition np_mean_f64 :: "real option list \<Rightarrow> real option" where
  "np_mean_f64 a =
     (if a = [] then None
      else f64_div (f64_add (Some 0) (pairwise_sum a)) (Some (real (length a))))"

definition compute_mae_f64 :: "real list \<Rightarrow> real option" where
  "compute_mae_f64 delta = np_mean_f64 (map (\<lambda>x. Some \<bar>x\<bar>) delta)"

definition compute_rmse_f64 :: "real list \<Rightarrow> real option" where
  "compute_rmse_f64 delta = f64_sqrt (np_mean_f64 (map (\<lambda>x. f64_round (x * x)) delta))"

text \<open>A value that is non-negative or not finite.\<close>

definition nonneg_f64 :: "real option \<Rightarrow> bool" where
  "nonneg_f64 v = (case v of None \<Rightarrow> True | Some x \<Rightarrow> 0 \<le> x)"

section \<open>Lemmas on the table lookups\<close>

lemma list_index_None: "list_index xs x = None \<longleftrightarrow> x \<notin> set xs"
  by (induction xs) auto

lemma list_index_Some:
  "list_index xs x = Some i \<Longrightarrow> i < length xs \<and> xs ! i = x \<and> (\<forall>j<i. xs ! j \<noteq> x)"
proof (induction xs arbitrary: i)
  case Nil
  then show ?case by simp
next
  case (Cons y ys)
  show ?case
  proof (cases "y = x")
    case True
    with Cons.prems show ?thesis by simp
  next
    case False
    with Cons.prems obtain k where k: "list_index ys x = Some k" "i = Suc k"
      by auto
    from Cons.IH [OF k(1)] have ih: "k < length ys" "ys ! k = x" "\<forall>j<k. ys ! j \<noteq> x"
      by auto
    show ?thesis
    proof (intro conjI allI impI)
      show "i < length (y # ys)" using ih(1) k(2) by simp
      show "(y # ys) ! i = x" using ih(2) k(2) by simp
      fix j assume "j < i"
      then show "(y # ys) ! j \<noteq> x"
        using False ih(3) k(2) by (cases j) auto
    qed
  qed
qed

lemma list_index_mem: "x \<in> set xs \<Longrightarrow> \<exists>i. list_index xs x = Some i"
  using list_index_None [of xs x] by (cases "list_index xs x") auto

lemma list_index_nth_distinct:
  "distinct xs \<Longrightarrow> i < length xs \<Longrightarrow> list_index xs (xs ! i) = Some i"
proof -
  assume d: "distinct xs" and i: "i < length xs"
  then have "xs ! i \<in> set xs" by simp
  then obtain k where k: "list_index xs (xs ! i) = Some k"
    using list_index_mem by fastforce
  from list_index_Some [OF k] have "k < length xs" "xs ! k = xs ! i" by auto
  with d i have "k = i" by (simp add: nth_eq_iff_index_eq)
  with k show ?thesis by simp
qed

lemma index_to_z_nat:
  "i < length (zs t) \<Longrightarrow> index_to_z t (int i) = Inr (zs t ! i)"
  by (simp add: index_to_z_def)

lemma fold_insert_set: "fold insert s A = set s \<union> A"
  by (induction s arbitrary: A) auto

lemma zs_from_zs: "zs (get_atomic_number_table_from_zs s) = sorted_list_of_set (set s)"
  by (simp add: get_atomic_number_table_from_zs_def AtomicNumberTable_def fold_insert_set)

lemma roundtrip_z:
  assumes "z \<in> set (zs t)"
  shows "\<exists>i. z_to_index t z = Inr i \<and> index_to_z t (int i) = Inr z"
proof -
  from assms obtain i where i: "list_index (zs t) z = Some i"
    using list_index_mem by fastforce
  from list_index_Some [OF i] have "i < length (zs t)" "zs t ! i = z" by auto
  then show ?thesis using i by (simp add: z_to_index_def index_to_z_nat)
qed

lemma table_bijective_iff: "table_bijective t \<longleftrightarrow> distinct (zs t)"
proof
  assume b: "table_bijective t"
  show "distinct (zs t)"
    unfolding distinct_conv_nth
  proof (intro allI impI)
    fix i j assume i: "i < length (zs t)" and j: "j < length (zs t)" and ne: "i \<noteq> j"
    from b i have "z_to_index t (zs t ! i) = Inr i"
      by (auto simp: table_bijective_def list_all_iff index_to_z_nat)
    moreover from b j have "z_to_index t (zs t ! j) = Inr j"
      by (auto simp: table_bijective_def list_all_iff index_to_z_nat)
    ultimately show "zs t ! i \<noteq> zs t ! j" using ne by auto
  qed
next
  assume d: "distinct (zs t)"
  have a: "list_all (\<lambda>i. case index_to_z t (int i) of Inl e \<Rightarrow> False
                     | Inr z \<Rightarrow> z_to_index t z = Inr i) [0..<length (zs t)]"
    using d by (simp add: list_all_iff index_to_z_nat z_to_index_def list_index_nth_distinct)
  have b: "list_all (\<lambda>z. case z_to_index t z of Inl e \<Rightarrow> False
                     | Inr i \<Rightarrow> index_to_z t (int i) = Inr z) (zs t)"
    unfolding list_all_iff
  proof
    fix z assume "z \<in> set (zs t)"
    from roundtrip_z [OF this] show "case z_to_index t z of Inl e \<Rightarrow> False
                     | Inr i \<Rightarrow> index_to_z t (int i) = Inr z"
      by auto
  qed
  from a b show "table_bijective t" by (simp add: table_bijective_def)
qed

section \<open>Tables: construction and invariant\<close>

text \<open>
  Claim C7. For every finite collection of integers, the table returned by
  \<^verbatim>\<open>get_atomic_number_table_from_zs\<close> has strictly ascending entries (so no entry
  occurs twice), holds exactly the distinct elements of the input, and
  \<^verbatim>\<open>index_to_z(z_to_index(z)) == z\<close> for every \<open>z\<close> of the table.
\<close>

theorem from_zs_sorted_dedup:
  "sorted_wrt (<) (zs (get_atomic_number_table_from_zs s))
   \<and> set (zs (get_atomic_number_table_from_zs s)) = set s
   \<and> (\<forall>z \<in> set (zs (get_atomic_number_table_from_zs s)).
         \<exists>i. z_to_index (get_atomic_number_table_from_zs s) z = Inr i
            \<and> index_to_z (get_atomic_number_table_from_zs s) (int i) = Inr z)"
proof (intro conjI ballI)
  show "sorted_wrt (<) (zs (get_atomic_number_table_from_zs s))"
    by (simp add: zs_from_zs)
  show "set (zs (get_atomic_number_table_from_zs s)) = set s"
    by (simp add: zs_from_zs)
  fix z assume "z \<in> set (zs (get_atomic_number_table_from_zs s))"
  then show "\<exists>i. z_to_index (get_atomic_number_table_from_zs s) z = Inr i
            \<and> index_to_z (get_atomic_number_table_from_zs s) (int i) = Inr z"
    by (rule roundtrip_z)
qed

text \<open>
  The claim at the input 8, 1, 8, 6: the table is 1, 6, 8, and 6 is found at
  position 1.
\<close>

theorem from_zs_sorted_dedup_witness:
  "sorted_wrt (<) (zs (get_atomic_number_table_from_zs [8, 1, 8, 6]))
   \<and> set (zs (get_atomic_number_table_from_zs [8, 1, 8, 6])) = {1, 6, 8}
   \<and> zs (get_atomic_number_table_from_zs [8, 1, 8, 6]) = [1, 6, 8]
   \<and> z_to_index (get_atomic_number_table_from_zs [8, 1, 8, 6]) 6 = Inr 1
   \<and> index_to_z (get_atomic_number_table_from_zs [8, 1, 8, 6]) 1 = Inr 6"
proof -
  have e: "zs (get_atomic_number_table_from_zs [8, 1, 8, 6]) = [1, 6, 8]"
    by code_simp
  have z: "z_to_index (get_atomic_number_table_from_zs [8, 1, 8, 6]) 6 = Inr 1"
    by code_simp
  have i: "index_to_z (get_atomic_number_table_from_zs [8, 1, 8, 6]) 1 = Inr 6"
    by code_simp
  from from_zs_sorted_dedup [of "[8, 1, 8, 6]"]
  have "sorted_wrt (<) (zs (get_atomic_number_table_from_zs [8, 1, 8, 6]))"
    and "set (zs (get_atomic_number_table_from_zs [8, 1, 8, 6])) = set [8, 1, 8, 6]"
    by blast+
  then show ?thesis using e z i by auto
qed

text \<open>
  Claim C6 asks the invariant (entries ascending, lookups inverse to each other) of
  every table, also of one built by the constructor from an arbitrary sequence.
  The constructor stores its argument as it is: the table built from 3, 1, 1 is
  neither ascending nor bijective.
\<close>

theorem raw_constructor_breaks_invariant:
  "\<not> table_invariant (AtomicNumberTable [3, 1, 1])"
  by (simp add: table_invariant_def table_sorted_def AtomicNumberTable_def)

text \<open>
  Claim C6, amended. Every table returned by \<^verbatim>\<open>get_atomic_number_table_from_zs\<close>
  satisfies the invariant; a table built by the constructor satisfies it exactly
  when the sequence given to the constructor is strictly ascending.
\<close>

theorem table_invariant_by_construction:
  "table_invariant (get_atomic_number_table_from_zs s)
   \<and> (table_invariant (AtomicNumberTable s) \<longleftrightarrow> sorted_wrt (<) s)"
proof
  show "table_invariant (get_atomic_number_table_from_zs s)"
    by (simp add: table_invariant_def table_sorted_def table_bijective_iff zs_from_zs)
  show "table_invariant (AtomicNumberTable s) \<longleftrightarrow> sorted_wrt (<) s"
    by (auto simp: table_invariant_def table_sorted_def table_bijective_iff
        AtomicNumberTable_def strict_sorted_iff)
qed

section \<open>Statistics helpers: properties\<close>

lemma sum_list_indicator:
  "sum_list (map (\<lambda>x. if P x then (1::real) else 0) xs) = real (length (filter P xs))"
  by (induction xs) auto

text \<open>
  Claim C10. For a non-empty array, \<^verbatim>\<open>compute_c\<close> returns the number of entries
  whose absolute value is strictly below \<open>eta\<close>, divided by the number of entries:
  a fraction between 0 and 1, in which an entry with \<open>\<bar>delta_i\<bar> = eta\<close> is not
  counted.
\<close>

theorem compute_c_fraction:
  "delta \<noteq> [] \<Longrightarrow>
     compute_c delta eta
       = Some (real (length (filter (\<lambda>x. \<bar>x\<bar> < eta) delta)) / real (length delta))
     \<and> 0 \<le> real (length (filter (\<lambda>x. \<bar>x\<bar> < eta) delta)) / real (length delta)
     \<and> real (length (filter (\<lambda>x. \<bar>x\<bar> < eta) delta)) / real (length delta) \<le> 1"
proof -
  assume ne: "delta \<noteq> []"
  have le: "length (filter (\<lambda>x. \<bar>x\<bar> < eta) delta) \<le> length delta"
    by (rule length_filter_le)
  have pos: "0 < real (length delta)" using ne by simp
  have "real (length (filter (\<lambda>x. \<bar>x\<bar> < eta) delta)) / real (length delta) \<le> 1"
    using le pos by simp
  then show ?thesis
    using ne by (simp add: compute_c_def np_mean_def sum_list_indicator)
qed

text \<open>
  The claim at the array 1, -2, 3 with threshold 2: the entry -2 has absolute value
  equal to the threshold and is not counted, so the result is 1/3.
\<close>

theorem compute_c_fraction_witness:
  "[1, -2, 3] \<noteq> ([]::real list) \<and> compute_c [1, -2, 3] 2 = Some (1 / 3)"
  using compute_c_fraction [of "[1, -2, 3]" 2] by simp

lemma sum_sq_dev:
  "sum_list (map (\<lambda>x. (x - m)\<^sup>2) xs)
     = sum_list (map (\<lambda>x. x\<^sup>2) xs) - 2 * m * sum_list xs + real (length xs) * m\<^sup>2"
  for m :: real
  by (induction xs) (simp_all add: power2_eq_square algebra_simps)

lemma mean_sq_minus_sq_mean:
  fixes xs :: "real list"
  assumes "xs \<noteq> []"
  defines "n \<equiv> real (length xs)"
  defines "m \<equiv> sum_list xs / n"
  shows "sum_list (map (\<lambda>x. x\<^sup>2) xs) / n - m\<^sup>2 = sum_list (map (\<lambda>x. (x - m)\<^sup>2) xs) / n"
proof -
  have n: "n > 0" using assms by simp
  have s: "sum_list xs = n * m" using n by (simp add: m_def)
  have "sum_list (map (\<lambda>x. (x - m)\<^sup>2) xs)
          = sum_list (map (\<lambda>x. x\<^sup>2) xs) - 2 * m * (n * m) + n * m\<^sup>2"
    using sum_sq_dev [of m xs] by (simp add: s n_def)
  also have "\<dots> = sum_list (map (\<lambda>x. x\<^sup>2) xs) - n * m\<^sup>2"
    by (simp add: power2_eq_square algebra_simps)
  finally show ?thesis using n by (simp add: field_simps)
qed

lemma sum_list_sq_nonneg: "0 \<le> sum_list (map (\<lambda>x. (x - m)\<^sup>2) xs)" for m :: real
  by (rule sum_list_nonneg) auto

lemma sum_list_sq_zero:
  "sum_list (map (\<lambda>x. (x - m)\<^sup>2) xs) = 0 \<Longrightarrow> x \<in> set xs \<Longrightarrow> x = m" for m :: real
proof (induction xs)
  case Nil
  then show ?case by simp
next
  case (Cons y ys)
  have a: "0 \<le> (y - m)\<^sup>2" by simp
  have b: "0 \<le> sum_list (map (\<lambda>x. (x - m)\<^sup>2) ys)" by (rule sum_list_sq_nonneg)
  from Cons.prems(1) have "(y - m)\<^sup>2 + sum_list (map (\<lambda>x. (x - m)\<^sup>2) ys) = 0" by simp
  with a b have "(y - m)\<^sup>2 = 0" "sum_list (map (\<lambda>x. (x - m)\<^sup>2) ys) = 0"
    by linarith+
  with Cons show ?case by auto
qed

text \<open>
  In exact arithmetic the mean of the absolute values is non-negative and at most the
  root of the mean of the squares, and the two are equal only when all absolute values
  are equal: the mean of the squares exceeds the square of the mean by the mean
  squared deviation.
\<close>

lemma mean_abs_le_root_mean_square:
  assumes "d \<noteq> []"
  shows "\<exists>a r. compute_mae d = Some a \<and> compute_rmse d = Some r
           \<and> 0 \<le> a \<and> a \<le> r
           \<and> (r = a \<longrightarrow> (\<forall>x \<in> set d. \<forall>y \<in> set d. \<bar>x\<bar> = \<bar>y\<bar>))"
proof -
  define xs where "xs = map abs d"
  define n where "n = real (length xs)"
  define m where "m = sum_list xs / n"
  define q where "q = sum_list (map (\<lambda>x. x\<^sup>2) xs) / n"
  have ne: "xs \<noteq> []" using assms by (simp add: xs_def)
  have n: "0 < n" using ne by (simp add: n_def)
  have mae: "compute_mae d = Some m"
    using assms by (simp add: compute_mae_def np_mean_def m_def n_def xs_def)
  have sq: "map (\<lambda>x. x\<^sup>2) xs = map (\<lambda>x. x\<^sup>2) d" by (simp add: xs_def)
  have rmse: "compute_rmse d = Some (sqrt q)"
    using assms by (simp add: compute_rmse_def np_mean_def q_def n_def sq) (simp add: xs_def)
  have "0 \<le> sum_list xs" unfolding xs_def by (rule sum_list_nonneg) auto
  then have m0: "0 \<le> m" using n by (simp add: m_def)
  have var: "q - m\<^sup>2 = sum_list (map (\<lambda>x. (x - m)\<^sup>2) xs) / n"
    using mean_sq_minus_sq_mean [OF ne] by (simp add: q_def m_def n_def)
  have "0 \<le> q - m\<^sup>2" unfolding var using n sum_list_sq_nonneg [of m xs] by simp
  then have "m\<^sup>2 \<le> q" by simp
  then have le: "m \<le> sqrt q" using m0 by (simp add: real_le_rsqrt)
  have eq: "\<forall>x \<in> set d. \<forall>y \<in> set d. \<bar>x\<bar> = \<bar>y\<bar>" if "sqrt q = m"
  proof -
    from that have "q = m\<^sup>2" using m0 by (metis abs_of_nonneg real_sqrt_abs real_sqrt_eq_iff)
    with var n have z: "sum_list (map (\<lambda>x. (x - m)\<^sup>2) xs) = 0" by simp
    have "\<bar>x\<bar> = m" if "x \<in> set d" for x
      using sum_list_sq_zero [OF z, of "\<bar>x\<bar>"] that by (simp add: xs_def)
    then show ?thesis by simp
  qed
  show ?thesis using mae rmse m0 le eq by blast
qed

section \<open>The statistics helpers in float64 arithmetic: properties\<close>

subsection \<open>Results are never negative\<close>

lemma round_half_even_nonneg: "0 \<le> y \<Longrightarrow> 0 \<le> round_half_even y"
proof -
  assume "0 \<le> y"
  then have "0 \<le> \<lfloor>y\<rfloor>" by simp
  then show ?thesis by (simp add: round_half_even_def)
qed

lemma f64_round_nonneg: "0 \<le> x \<Longrightarrow> nonneg_f64 (f64_round x)"
proof (cases "x = 0")
  case True
  then show ?thesis by (simp add: f64_round_def nonneg_f64_def)
next
  case False
  assume x: "0 \<le> x"
  define q :: real where "q = 2 powr (of_int (max \<lfloor>log 2 \<bar>x\<bar>\<rfloor> (- 1022)) - 52)"
  have q: "0 < q" by (simp add: q_def)
  then have "0 \<le> x / q" using x by simp
  then have "0 \<le> round_half_even (x / q)" by (rule round_half_even_nonneg)
  then have "0 \<le> of_int (round_half_even (x / q)) * q" using q by simp
  then show ?thesis
    using False by (simp add: f64_round_def nonneg_f64_def Let_def q_def)
qed

lemma nonneg_f64_zero: "nonneg_f64 (Some 0)"
  by (simp add: nonneg_f64_def)

lemma f64_add_nonneg: "nonneg_f64 a \<Longrightarrow> nonneg_f64 b \<Longrightarrow> nonneg_f64 (f64_add a b)"
proof (cases a; cases b)
  fix x y assume "a = Some x" "b = Some y" "nonneg_f64 a" "nonneg_f64 b"
  then show ?thesis
    using f64_round_nonneg [of "x + y"] by (simp add: f64_add_def nonneg_f64_def)
qed (simp_all add: f64_add_def nonneg_f64_def)

lemma f64_div_nonneg: "nonneg_f64 a \<Longrightarrow> 0 \<le> y \<Longrightarrow> nonneg_f64 (f64_div a (Some y))"
proof (cases a)
  case None
  then show ?thesis by (simp add: f64_div_def nonneg_f64_def)
next
  case (Some x)
  assume "nonneg_f64 a" "0 \<le> y"
  with Some have "0 \<le> x / y" by (simp add: nonneg_f64_def)
  then have "nonneg_f64 (f64_round (x / y))" by (rule f64_round_nonneg)
  with Some show ?thesis by (simp add: f64_div_def nonneg_f64_def)
qed

lemma f64_sqrt_nonneg: "nonneg_f64 (f64_sqrt a)"
proof (cases a)
  case None
  then show ?thesis by (simp add: f64_sqrt_def nonneg_f64_def)
next
  case (Some x)
  show ?thesis
  proof (cases "x < 0")
    case True
    with Some show ?thesis by (simp add: f64_sqrt_def nonneg_f64_def)
  next
    case False
    then have "0 \<le> sqrt x" by simp
    then have "nonneg_f64 (f64_round (sqrt x))" by (rule f64_round_nonneg)
    with Some False show ?thesis by (simp add: f64_sqrt_def)
  qed
qed

lemma foldl_add_nonneg:
  "nonneg_f64 s \<Longrightarrow> list_all nonneg_f64 a \<Longrightarrow> nonneg_f64 (foldl f64_add s a)"
  by (induction a arbitrary: s) (simp_all add: f64_add_nonneg)

lemma map2_add_nonneg:
  "list_all nonneg_f64 r \<Longrightarrow> list_all nonneg_f64 b \<Longrightarrow> list_all nonneg_f64 (map2 f64_add r b)"
proof (induction r arbitrary: b)
  case Nil
  then show ?case by simp
next
  case (Cons x r)
  then show ?case by (cases b) (simp_all add: f64_add_nonneg)
qed

lemma list_all_take: "list_all P a \<Longrightarrow> list_all P (take n a)"
  by (auto simp: list_all_iff dest: in_set_takeD)

lemma list_all_drop: "list_all P a \<Longrightarrow> list_all P (drop n a)"
  by (auto simp: list_all_iff dest: in_set_dropD)

lemma lane_sums_nonneg:
  "list_all nonneg_f64 r \<Longrightarrow> list_all nonneg_f64 a \<Longrightarrow> list_all nonneg_f64 (lane_sums r a)"
proof (induction r a rule: lane_sums.induct)
  case (1 r a)
  show ?case
  proof (cases "length a < 8")
    case True
    then show ?thesis using "1.prems" by (subst lane_sums.simps) simp
  next
    case False
    have m: "list_all nonneg_f64 (map2 f64_add r (take 8 a))"
      using "1.prems" by (intro map2_add_nonneg list_all_take)
    have d: "list_all nonneg_f64 (drop 8 a)"
      using "1.prems"(2) by (rule list_all_drop)
    from "1.IH" [OF False m d] show ?thesis
      using False by (subst lane_sums.simps) simp
  qed
qed

lemma lane_sums_length: "length r = 8 \<Longrightarrow> length (lane_sums r a) = 8"
proof (induction r a rule: lane_sums.induct)
  case (1 r a)
  show ?case
  proof (cases "length a < 8")
    case True
    then show ?thesis using "1.prems" by (subst lane_sums.simps) simp
  next
    case False
    have "length (map2 f64_add r (take 8 a)) = 8"
      using "1.prems" False by simp
    from "1.IH" [OF False this] show ?thesis
      using False by (subst lane_sums.simps) simp
  qed
qed

lemma pairwise_sum_nonneg: "list_all nonneg_f64 a \<Longrightarrow> nonneg_f64 (pairwise_sum a)"
proof (induction a rule: pairwise_sum.induct)
  case (1 a)
  consider "length a < 8" | "\<not> length a < 8" "length a \<le> 128"
    | "\<not> length a < 8" "\<not> length a \<le> 128"
    by blast
  then show ?case
  proof cases
    case 1
    have "nonneg_f64 (foldl f64_add (Some 0) a)"
      using nonneg_f64_zero "1.prems" by (rule foldl_add_nonneg)
    then show ?thesis using 1 by (subst pairwise_sum.simps) simp
  next
    case 2
    define m where "m = length a - length a mod 8"
    define r where "r = lane_sums (take 8 a) (drop 8 (take m a))"
    have len: "length r = 8" unfolding r_def using 2 by (intro lane_sums_length) simp
    have "list_all nonneg_f64 r"
      unfolding r_def using "1.prems" by (intro lane_sums_nonneg list_all_take list_all_drop)
    then have nth: "nonneg_f64 (r ! i)" if "i < 8" for i
      using that len by (simp add: list_all_length)
    have res: "nonneg_f64 (f64_add (f64_add (f64_add (r ! 0) (r ! 1)) (f64_add (r ! 2) (r ! 3)))
                     (f64_add (f64_add (r ! 4) (r ! 5)) (f64_add (r ! 6) (r ! 7))))"
      by (intro f64_add_nonneg nth) simp_all
    have "nonneg_f64 (foldl f64_add
             (f64_add (f64_add (f64_add (r ! 0) (r ! 1)) (f64_add (r ! 2) (r ! 3)))
                     (f64_add (f64_add (r ! 4) (r ! 5)) (f64_add (r ! 6) (r ! 7))))
             (drop m a))"
      using res "1.prems" by (intro foldl_add_nonneg list_all_drop)
    then show ?thesis
      using 2 by (subst pairwise_sum.simps) (simp add: Let_def m_def r_def)
  next
    case 3
    have t: "nonneg_f64 (pairwise_sum (take (half8 (length a)) a))"
      using 3 "1.prems" by (intro "1.IH"(1) list_all_take)
    have d: "nonneg_f64 (pairwise_sum (drop (half8 (length a)) a))"
      using 3 "1.prems" by (intro "1.IH"(2) list_all_drop)
    show ?thesis
      using 3 t d by (subst pairwise_sum.simps) (simp add: f64_add_nonneg)
  qed
qed

lemma np_mean_f64_nonneg: "list_all nonneg_f64 a \<Longrightarrow> nonneg_f64 (np_mean_f64 a)"
proof (cases "a = []")
  case True
  then show ?thesis by (simp add: np_mean_f64_def nonneg_f64_def)
next
  case False
  assume "list_all nonneg_f64 a"
  then have "nonneg_f64 (pairwise_sum a)" by (rule pairwise_sum_nonneg)
  then have "nonneg_f64 (f64_add (Some 0) (pairwise_sum a))"
    by (intro f64_add_nonneg nonneg_f64_zero)
  then have "nonneg_f64 (f64_div (f64_add (Some 0) (pairwise_sum a)) (Some (real (length a))))"
    by (rule f64_div_nonneg) simp
  with False show ?thesis by (simp add: np_mean_f64_def)
qed

lemma compute_mae_f64_nonneg: "nonneg_f64 (compute_mae_f64 d)"
  unfolding compute_mae_f64_def
  by (rule np_mean_f64_nonneg) (simp add: list_all_iff nonneg_f64_def)

lemma compute_rmse_f64_nonneg: "nonneg_f64 (compute_rmse_f64 d)"
  unfolding compute_rmse_f64_def by (rule f64_sqrt_nonneg)

subsection \<open>Rounding of given numbers\<close>

lemma round_half_even_down:
  assumes "0 \<le> t" and "t < 1 / 2 \<or> (t = 1 / 2 \<and> even m)"
  shows "round_half_even (of_int m + t) = m"
proof -
  have t1: "t < 1" using assms(2) by auto
  have fl: "\<lfloor>of_int m + t\<rfloor> = m" using assms(1) t1 by (simp add: floor_eq_iff)
  show ?thesis using assms(2) by (auto simp: round_half_even_def fl)
qed

lemma round_half_even_up:
  assumes "t < 1" and "1 / 2 < t \<or> (t = 1 / 2 \<and> odd m)"
  shows "round_half_even (of_int m + t) = m + 1"
proof -
  have t0: "0 \<le> t" using assms(2) by auto
  have fl: "\<lfloor>of_int m + t\<rfloor> = m" using assms(1) t0 by (simp add: floor_eq_iff)
  show ?thesis using assms(2) by (auto simp: round_half_even_def fl)
qed

lemma f64_round_eq:
  assumes "x \<noteq> 0" and "\<lfloor>log 2 \<bar>x\<bar>\<rfloor> = l" and "max l (- 1022) = e"
    and "2 powr (of_int e - 52) = q" and "round_half_even (x / q) = n"
    and "\<bar>of_int n * q\<bar> < 2 powr 1024"
  shows "f64_round x = Some (of_int n * q)"
proof -
  have "\<not> 2 powr 1024 \<le> \<bar>of_int n * q\<bar>" using assms(6) by simp
  then show ?thesis
    unfolding f64_round_def Let_def assms(2) assms(3) assms(4) assms(5)
    using assms(1) by simp
qed

lemma pow2_powr:
  "2 powr (real i - real k) = (2::real) ^ i / 2 ^ k"
proof -
  have "2 powr (real i - real k) = 2 powr real i / 2 powr real k" by (rule powr_diff)
  also have "\<dots> = 2 ^ i / 2 ^ k" by (simp add: powr_realpow)
  finally show ?thesis .
qed

lemma floor_log2_scaled:
  fixes y :: real
  assumes "2 ^ 52 \<le> y" and "y < 2 ^ 53"
  shows "\<lfloor>log 2 (y / 2 ^ k)\<rfloor> = 52 - int k"
proof -
  have ypos: "0 < y" using assms(1) by (rule less_le_trans [rotated]) simp
  then have pos: "0 < y / 2 ^ k" by simp
  have "2 powr of_int (52 - int k) = (2::real) powr (real 52 - real k)" by simp
  also have "\<dots> = 2 ^ 52 / 2 ^ k" by (rule pow2_powr)
  finally have e1: "2 powr of_int (52 - int k) = (2::real) ^ 52 / 2 ^ k" .
  have "2 powr of_int (52 - int k + 1) = (2::real) powr (real 53 - real k)" by simp
  also have "\<dots> = 2 ^ 53 / 2 ^ k" by (rule pow2_powr)
  finally have e2: "2 powr of_int (52 - int k + 1) = (2::real) ^ 53 / 2 ^ k" .
  have lo: "2 powr of_int (52 - int k) \<le> y / 2 ^ k"
    unfolding e1 using assms(1) by (intro divide_right_mono) simp_all
  have hi: "y / 2 ^ k < 2 powr of_int (52 - int k + 1)"
    unfolding e2 using assms(2) by (intro divide_strict_right_mono) simp_all
  have "(2::real) > 1" by simp
  from floor_log_eq_powr_iff [OF pos this, of "52 - int k"] lo hi show ?thesis by blast
qed

text \<open>
  A number with a 53-bit integer part \<open>m\<close> and a fraction \<open>t\<close>, scaled by a power
  of two within the exponent range, rounds to the scaled rounding of \<open>m + t\<close>.
\<close>

lemma f64_round_normal:
  assumes "2 ^ 52 \<le> m" and "m < 2 ^ 53" and "0 \<le> t" and "t < 1" and "k \<le> 1074"
    and "round_half_even (of_int m + t) = n" and "n = m \<or> n = m + 1"
  shows "f64_round ((of_int m + t) / 2 ^ k) = Some (of_int n / 2 ^ k)"
proof -
  define y :: real where "y = of_int m + t"
  have "(of_int (2 ^ 52) :: real) \<le> of_int m" using assms(1) by (simp only: of_int_le_iff)
  then have m1: "(2::real) ^ 52 \<le> of_int m" by simp
  have "m + 1 \<le> 2 ^ 53" using assms(2) by simp
  then have "(of_int (m + 1) :: real) \<le> of_int (2 ^ 53)" by (simp only: of_int_le_iff)
  then have m2: "of_int m + 1 \<le> (2::real) ^ 53" by simp
  have y1: "2 ^ 52 \<le> y" using m1 assms(3) by (simp add: y_def)
  have y2: "y < 2 ^ 53" using m2 assms(4) by (simp add: y_def)
  have ypos: "0 < y" using y1 by (rule less_le_trans [rotated]) simp
  have mpos: "(0::real) < of_int m" using m1 by (rule less_le_trans [rotated]) simp
  have n0: "(0::real) \<le> of_int n" using assms(7) mpos by auto
  have n1: "of_int n \<le> (2::real) ^ 53" using assms(7) m2 by auto
  have ne: "y / 2 ^ k \<noteq> 0" using ypos by simp
  have "\<bar>y / 2 ^ k\<bar> = y / 2 ^ k" using ypos by simp
  then have fl: "\<lfloor>log 2 \<bar>y / 2 ^ k\<bar>\<rfloor> = 52 - int k"
    using floor_log2_scaled [OF y1 y2, of k] by simp
  have mx: "max (52 - int k) (- 1022) = 52 - int k" using assms(5) by simp
  have "2 powr (of_int (52 - int k) - 52) = (2::real) powr (real 0 - real k)" by simp
  also have "\<dots> = 2 ^ 0 / 2 ^ k" by (rule pow2_powr)
  finally have q: "2 powr (of_int (52 - int k) - 52) = 1 / (2::real) ^ k" by simp
  have "y / 2 ^ k / (1 / 2 ^ k) = y" by simp
  then have rd: "round_half_even (y / 2 ^ k / (1 / 2 ^ k)) = n"
    using assms(6) by (simp only: y_def)
  have "of_int n * (1 / (2::real) ^ k) \<le> of_int n * 1"
    using n0 by (intro mult_left_mono) (simp_all add: field_simps)
  also have "\<dots> \<le> 2 ^ 53" using n1 by simp
  also have "\<dots> < 2 powr 1024" by simp
  finally have "of_int n * (1 / (2::real) ^ k) < 2 powr 1024" .
  moreover have "0 \<le> of_int n * (1 / (2::real) ^ k)" using n0 by simp
  ultimately have fin: "\<bar>of_int n * (1 / (2::real) ^ k)\<bar> < 2 powr 1024"
    by (simp only: abs_of_nonneg)
  have "f64_round (y / 2 ^ k) = Some (of_int n * (1 / 2 ^ k))"
    by (rule f64_round_eq [OF ne fl mx q rd fin])
  then show ?thesis by (simp add: y_def)
qed

lemma f64_round_down:
  assumes "x = (of_int m + t) / 2 ^ k" and "r = of_int m / 2 ^ k"
    and "2 ^ 52 \<le> m" and "m < 2 ^ 53" and "0 \<le> t"
    and "t < 1 / 2 \<or> (t = 1 / 2 \<and> even m)" and "k \<le> 1074"
  shows "f64_round x = Some r"
proof -
  have t1: "t < 1" using assms(6) by auto
  have rd: "round_half_even (of_int m + t) = m"
    using assms(5,6) by (rule round_half_even_down)
  show ?thesis
    unfolding assms(1,2)
    by (rule f64_round_normal [OF assms(3,4,5) t1 assms(7) rd]) simp
qed

lemma f64_round_up:
  assumes "x = (of_int m + t) / 2 ^ k" and "r = of_int (m + 1) / 2 ^ k"
    and "2 ^ 52 \<le> m" and "m < 2 ^ 53" and "t < 1"
    and "1 / 2 < t \<or> (t = 1 / 2 \<and> odd m)" and "k \<le> 1074"
  shows "f64_round x = Some r"
proof -
  have t0: "0 \<le> t" using assms(6) by auto
  have rd: "round_half_even (of_int m + t) = m + 1"
    using assms(5,6) by (rule round_half_even_up)
  show ?thesis
    unfolding assms(1,2)
    by (rule f64_round_normal [OF assms(3,4) t0 assms(5) assms(7) rd]) simp
qed

text \<open>A positive number below half of the smallest positive float64 rounds to 0.\<close>

lemma f64_round_tiny:
  assumes "0 < x" and "x < 1 / 2 ^ 1075"
  shows "f64_round x = Some 0"
proof -
  have "2 powr of_int (- 1022) = (2::real) powr (real 0 - real 1022)" by simp
  also have "\<dots> = 2 ^ 0 / 2 ^ 1022" by (rule pow2_powr)
  finally have e: "2 powr of_int (- 1022) = 1 / (2::real) ^ 1022" by simp
  have "(1::real) / 2 ^ 1075 \<le> 1 / 2 ^ 1022" by (simp add: field_simps)
  then have "x < 2 powr of_int (- 1022)" unfolding e using assms(2) by simp
  then have "log 2 x < of_int (- 1022)"
    using assms(1) by (simp add: log_less_iff)
  then have "\<lfloor>log 2 x\<rfloor> < - 1022" by (simp add: floor_less_iff)
  then have mx: "max \<lfloor>log 2 x\<rfloor> (- 1022) = - 1022" by simp
  have fl: "\<lfloor>log 2 \<bar>x\<bar>\<rfloor> = \<lfloor>log 2 x\<rfloor>" using assms(1) by simp
  have "2 powr (of_int (- 1022) - 52) = (2::real) powr (real 0 - real 1074)" by simp
  also have "\<dots> = 2 ^ 0 / 2 ^ 1074" by (rule pow2_powr)
  finally have q: "2 powr (of_int (- 1022) - 52) = 1 / (2::real) ^ 1074" by simp
  have "x * 2 ^ 1074 < 1 / 2 ^ 1075 * 2 ^ 1074" using assms(2) by simp
  then have h: "x * 2 ^ 1074 < 1 / 2" by simp
  have p: "0 \<le> x * 2 ^ 1074" using assms(1) by simp
  have "round_half_even (of_int 0 + x * 2 ^ 1074) = 0"
    using p h by (intro round_half_even_down) simp_all
  then have rd: "round_half_even (x / (1 / 2 ^ 1074)) = 0" by simp
  have ne: "x \<noteq> 0" using assms(1) by simp
  have fin: "\<bar>of_int 0 * (1 / (2::real) ^ 1074)\<bar> < 2 powr 1024" by simp
  have "f64_round x = Some (of_int 0 * (1 / 2 ^ 1074))"
    by (rule f64_round_eq [OF ne fl mx q rd fin])
  then show ?thesis by simp
qed

lemma f64_round_0: "f64_round 0 = Some 0"
  by (simp add: f64_round_def)

lemma f64_round_1: "f64_round 1 = Some 1"
  by (rule f64_round_down [where m = "2 ^ 52" and t = 0 and k = 52]) simp_all

subsection \<open>Arrays of one and two entries\<close>

lemma pairwise_sum_short: "length a < 8 \<Longrightarrow> pairwise_sum a = foldl f64_add (Some 0) a"
  by (subst pairwise_sum.simps) simp

lemma np_mean_f64_one:
  "np_mean_f64 [a] = f64_div (f64_add (Some 0) (f64_add (Some 0) a)) (Some 1)"
  by (simp add: np_mean_f64_def pairwise_sum_short)

lemma np_mean_f64_two:
  "np_mean_f64 [a, b]
     = f64_div (f64_add (Some 0) (f64_add (f64_add (Some 0) a) b)) (Some 2)"
  by (simp add: np_mean_f64_def pairwise_sum_short)

lemma f64_add_Some: "f64_add (Some x) (Some y) = f64_round (x + y)"
  by (simp add: f64_add_def)

lemma f64_div_Some: "y \<noteq> 0 \<Longrightarrow> f64_div (Some x) (Some y) = f64_round (x / y)"
  by (simp add: f64_div_def)

lemma f64_sqrt_Some: "0 \<le> x \<Longrightarrow> f64_sqrt (Some x) = f64_round (sqrt x)"
  by (simp add: f64_sqrt_def)

text \<open>
  The array 1, 1 + 3 * 2^-52. The sum of the absolute values, 2 + 3 * 2^-52, lies
  halfway between two float64 values and is rounded up to 2 + 2^-50, so the mean
  absolute error is 1 + 2^-51. The square of the second entry is rounded down to
  1 + 6 * 2^-52, the mean of the squares is 1 + 3 * 2^-52, and its square root is
  rounded to 1 + 2^-52.
\<close>

lemma tie_example:
  "compute_mae_f64 [1, 1 + 3 / 2 ^ 52] = Some (1 + 1 / 2 ^ 51)
   \<and> compute_rmse_f64 [1, 1 + 3 / 2 ^ 52] = Some (1 + 1 / 2 ^ 52)"
proof -
  define a :: real where "a = 1 + 3 / 2 ^ 52"
  define b :: real where "b = 2 + 1 / 2 ^ 50"
  define c :: real where "c = 1 + 1 / 2 ^ 51"
  define v :: real where "v = 1 + 6 / 2 ^ 52"
  define w :: real where "w = 2 + 6 / 2 ^ 52"
  define u :: real where "u = 1 + 1 / 2 ^ 52"
  have apos: "0 < a" by (simp add: a_def)
  have r2: "f64_round (1 + a) = Some b"
    by (rule f64_round_up [where m = "2 ^ 52 + 1" and t = "1 / 2" and k = 51])
      (simp_all add: a_def b_def)
  have r3: "f64_round b = Some b"
    by (rule f64_round_down [where m = "2 ^ 52 + 2" and t = 0 and k = 51])
      (simp_all add: b_def)
  have r4: "f64_round (b / 2) = Some c"
    by (rule f64_round_down [where m = "2 ^ 52 + 2" and t = 0 and k = 52])
      (simp_all add: b_def c_def)
  have s2: "f64_round (a * a) = Some v"
    by (rule f64_round_down [where m = "2 ^ 52 + 6" and t = "9 / 2 ^ 52" and k = 52])
      (simp_all add: a_def v_def)
  have s3: "f64_round (1 + v) = Some w"
    by (rule f64_round_down [where m = "2 ^ 52 + 3" and t = 0 and k = 51])
      (simp_all add: v_def w_def)
  have s4: "f64_round w = Some w"
    by (rule f64_round_down [where m = "2 ^ 52 + 3" and t = 0 and k = 51])
      (simp_all add: w_def)
  have s5: "f64_round (w / 2) = Some a"
    by (rule f64_round_down [where m = "2 ^ 52 + 3" and t = 0 and k = 52])
      (simp_all add: a_def w_def)
  have "(1 + 1 / 2 ^ 52)\<^sup>2 \<le> a" by (simp add: a_def power2_eq_square)
  then have q1: "1 + 1 / 2 ^ 52 \<le> sqrt a" by (intro real_le_rsqrt)
  have "a < (1 + 3 / 2 ^ 53)\<^sup>2" by (simp add: a_def power2_eq_square)
  then have q2: "sqrt a < 1 + 3 / 2 ^ 53" by (intro real_less_lsqrt) simp_all
  have s6: "f64_round (sqrt a) = Some u"
  proof (rule f64_round_down
      [where m = "2 ^ 52 + 1" and t = "2 ^ 52 * (sqrt a - (1 + 1 / 2 ^ 52))" and k = 52])
    show "sqrt a = (of_int (2 ^ 52 + 1) + 2 ^ 52 * (sqrt a - (1 + 1 / 2 ^ 52))) / 2 ^ 52"
      by simp
    show "u = of_int (2 ^ 52 + 1) / 2 ^ 52" by (simp add: u_def)
    show "0 \<le> 2 ^ 52 * (sqrt a - (1 + 1 / 2 ^ 52))" using q1 by simp
    have "2 ^ 52 * (sqrt a - (1 + 1 / 2 ^ 52)) < 2 ^ 52 * (1 / 2 ^ 53)" using q2 by simp
    then have "2 ^ 52 * (sqrt a - (1 + 1 / 2 ^ 52)) < 1 / 2" by simp
    then show "2 ^ 52 * (sqrt a - (1 + 1 / 2 ^ 52)) < 1 / 2
        \<or> (2 ^ 52 * (sqrt a - (1 + 1 / 2 ^ 52)) = 1 / 2 \<and> even ((2::int) ^ 52 + 1))"
      by (rule disjI1)
  qed simp_all
  have "compute_mae_f64 [1, a] = Some c"
    using apos
    by (simp add: compute_mae_f64_def np_mean_f64_two f64_add_Some f64_div_Some
          f64_round_1 r2 r3 r4)
  moreover have "compute_rmse_f64 [1, a] = Some u"
    using apos
    by (simp add: compute_rmse_f64_def np_mean_f64_two f64_add_Some f64_div_Some f64_sqrt_Some
          f64_round_1 s2 s3 s4 s5 s6)
  ultimately show ?thesis unfolding a_def c_def u_def by (rule conjI)
qed

text \<open>
  The array with the one entry 2^-600. Its square 2^-1200 is below half of the
  smallest positive float64 and underflows to 0, so the root mean square is 0,
  while the mean absolute error is the entry itself.
\<close>

lemma underflow_example:
  "compute_mae_f64 [1 / 2 ^ 600] = Some (1 / 2 ^ 600) \<and> compute_rmse_f64 [1 / 2 ^ 600] = Some 0"
proof -
  define x :: real where "x = 1 / 2 ^ 600"
  have xpos: "0 < x" by (simp add: x_def)
  have r: "f64_round x = Some x"
    by (rule f64_round_down [where m = "2 ^ 52" and t = 0 and k = 652]) (simp_all add: x_def)
  have "0 < x * x" using xpos by simp
  moreover have "x * x < 1 / 2 ^ 1075" by (simp add: x_def)
  ultimately have s: "f64_round (x * x) = Some 0" by (rule f64_round_tiny)
  have "compute_mae_f64 [x] = Some x"
    using xpos by (simp add: compute_mae_f64_def np_mean_f64_one f64_add_Some f64_div_Some r)
  moreover have "compute_rmse_f64 [x] = Some 0"
    by (simp add: compute_rmse_f64_def np_mean_f64_one s f64_add_Some f64_div_Some
          f64_sqrt_Some f64_round_0)
  ultimately show ?thesis unfolding x_def by (rule conjI)
qed

text \<open>
  The array 1, 1 + 2^-52. The sum of the absolute values, 2 + 2^-52, is a tie
  and is rounded down to 2, so the mean absolute error is 1. The mean of the squares
  is 1 + 2^-52, whose square root is rounded to 1.
\<close>

lemma equality_example:
  "compute_mae_f64 [1, 1 + 1 / 2 ^ 52] = Some 1 \<and> compute_rmse_f64 [1, 1 + 1 / 2 ^ 52] = Some 1"
proof -
  define u :: real where "u = 1 + 1 / 2 ^ 52"
  define v :: real where "v = 1 + 1 / 2 ^ 51"
  define w :: real where "w = 2 + 1 / 2 ^ 51"
  have upos: "0 < u" by (simp add: u_def)
  have r2: "f64_round 2 = Some 2"
    by (rule f64_round_down [where m = "2 ^ 52" and t = 0 and k = 51]) simp_all
  have r3: "f64_round (1 + u) = Some 2"
    by (rule f64_round_down [where m = "2 ^ 52" and t = "1 / 2" and k = 51])
      (simp_all add: u_def)
  have s2: "f64_round (u * u) = Some v"
    by (rule f64_round_down [where m = "2 ^ 52 + 2" and t = "1 / 2 ^ 52" and k = 52])
      (simp_all add: u_def v_def)
  have s3: "f64_round (1 + v) = Some w"
    by (rule f64_round_down [where m = "2 ^ 52 + 1" and t = 0 and k = 51])
      (simp_all add: v_def w_def)
  have s4: "f64_round w = Some w"
    by (rule f64_round_down [where m = "2 ^ 52 + 1" and t = 0 and k = 51])
      (simp_all add: w_def)
  have s5: "f64_round (w / 2) = Some u"
    by (rule f64_round_down [where m = "2 ^ 52 + 1" and t = 0 and k = 52])
      (simp_all add: u_def w_def)
  have q1: "1 \<le> sqrt u" by (simp add: u_def)
  have "u < (1 + 1 / 2 ^ 53)\<^sup>2" by (simp add: u_def power2_eq_square)
  then have q2: "sqrt u < 1 + 1 / 2 ^ 53" by (intro real_less_lsqrt) simp_all
  have s6: "f64_round (sqrt u) = Some 1"
  proof (rule f64_round_down [where m = "2 ^ 52" and t = "2 ^ 52 * (sqrt u - 1)" and k = 52])
    show "sqrt u = (of_int (2 ^ 52) + 2 ^ 52 * (sqrt u - 1)) / 2 ^ 52" by simp
    show "0 \<le> 2 ^ 52 * (sqrt u - 1)" using q1 by simp
    have "2 ^ 52 * (sqrt u - 1) < 2 ^ 52 * (1 / 2 ^ 53)" using q2 by simp
    then have "2 ^ 52 * (sqrt u - 1) < 1 / 2" by simp
    then show "2 ^ 52 * (sqrt u - 1) < 1 / 2
        \<or> (2 ^ 52 * (sqrt u - 1) = 1 / 2 \<and> even ((2::int) ^ 52))" by (rule disjI1)
  qed simp_all
  have "compute_mae_f64 [1, u] = Some 1"
    using upos
    by (simp add: compute_mae_f64_def np_mean_f64_two f64_add_Some f64_div_Some
          f64_round_1 r2 r3)
  moreover have "compute_rmse_f64 [1, u] = Some 1"
    using upos
    by (simp add: compute_rmse_f64_def np_mean_f64_two f64_add_Some f64_div_Some f64_sqrt_Some
          f64_round_1 s2 s3 s4 s5 s6)
  ultimately show ?thesis unfolding u_def by (rule conjI)
qed

lemma mae_f64_example: "compute_mae_f64 [3, - 4] = Some (7 / 2)"
proof -
  have r3: "f64_round 3 = Some 3"
    by (rule f64_round_down [where m = "3 * 2 ^ 51" and t = 0 and k = 51]) simp_all
  have r7: "f64_round 7 = Some 7"
    by (rule f64_round_down [where m = "7 * 2 ^ 50" and t = 0 and k = 50]) simp_all
  have r72: "f64_round (7 / 2) = Some (7 / 2)"
    by (rule f64_round_down [where m = "7 * 2 ^ 50" and t = 0 and k = 51]) simp_all
  show ?thesis
    by (simp add: compute_mae_f64_def np_mean_f64_two f64_add_Some f64_div_Some r3 r7 r72)
qed

subsection \<open>Claim C8\<close>

text \<open>
  Claim C8 has \<^verbatim>\<open>compute_rmse(d) >= compute_mae(d) >= 0\<close> for every finite non-empty
  array, with equality only when all \<open>\<bar>d_i\<bar>\<close> are equal. The two functions return
  float64 values, rounded after every operation, and for these both parts fail.
  For the array 1, 1 + 3 * 2^-52 \<^verbatim>\<open>compute_mae\<close> returns 1 + 2^-51 and
  \<^verbatim>\<open>compute_rmse\<close> the smaller 1 + 2^-52. For the array with the one entry 2^-600
  \<^verbatim>\<open>compute_mae\<close> returns the entry and \<^verbatim>\<open>compute_rmse\<close> returns 0. For the array
  1, 1 + 2^-52, whose absolute values differ, both return 1.
\<close>

theorem float64_rmse_below_mae:
  "compute_mae_f64 [1, 1 + 3 / 2 ^ 52] = Some (1 + 1 / 2 ^ 51)
   \<and> compute_rmse_f64 [1, 1 + 3 / 2 ^ 52] = Some (1 + 1 / 2 ^ 52)
   \<and> (1 + 1 / 2 ^ 52 :: real) < 1 + 1 / 2 ^ 51
   \<and> compute_mae_f64 [1 / 2 ^ 600] = Some (1 / 2 ^ 600)
   \<and> compute_rmse_f64 [1 / 2 ^ 600] = Some 0
   \<and> (0 :: real) < 1 / 2 ^ 600
   \<and> compute_mae_f64 [1, 1 + 1 / 2 ^ 52] = Some 1
   \<and> compute_rmse_f64 [1, 1 + 1 / 2 ^ 52] = Some 1
   \<and> \<bar>1 :: real\<bar> \<noteq> \<bar>1 + 1 / 2 ^ 52\<bar>"
proof -
  have 1: "(1 + 1 / 2 ^ 52 :: real) < 1 + 1 / 2 ^ 51" by simp
  have 2: "(0 :: real) < 1 / 2 ^ 600" by simp
  have 3: "\<bar>1 :: real\<bar> \<noteq> \<bar>1 + 1 / 2 ^ 52\<bar>" by simp
  from tie_example underflow_example equality_example 1 2 3 show ?thesis
    by (elim conjE) (intro conjI)
qed

text \<open>
  Claim C8, amended. For every non-empty array \<open>d\<close>, the float64 values that
  \<^verbatim>\<open>compute_mae(d)\<close> and \<^verbatim>\<open>compute_rmse(d)\<close> return are non-negative whenever they are
  finite. The inequality \<open>rmse \<ge> mae\<close>, with equality only when all \<open>\<bar>d_i\<bar>\<close> are
  equal, holds of the two quantities computed in exact arithmetic (no rounding,
  overflow or underflow), to which the returned values are the float64
  approximations.
\<close>

theorem rmse_ge_mae:
  assumes "d \<noteq> []"
  shows "nonneg_f64 (compute_mae_f64 d) \<and> nonneg_f64 (compute_rmse_f64 d)
       \<and> (\<exists>a r. compute_mae d = Some a \<and> compute_rmse d = Some r
             \<and> 0 \<le> a \<and> a \<le> r
             \<and> (r = a \<longrightarrow> (\<forall>x \<in> set d. \<forall>y \<in> set d. \<bar>x\<bar> = \<bar>y\<bar>)))"
  using compute_mae_f64_nonneg [of d] compute_rmse_f64_nonneg [of d]
    mean_abs_le_root_mean_square [OF assms]
  by (intro conjI)

text \<open>
  The amended claim at the array 3, -4: in exact arithmetic the mean absolute error
  is 7/2 and the root mean square is the square root of 25/2; in float64 the mean
  absolute error is 7/2 as well.
\<close>

theorem rmse_ge_mae_witness:
  "[3, -4] \<noteq> ([]::real list) \<and> compute_mae [3, -4] = Some (7 / 2)
   \<and> compute_rmse [3, -4] = Some (sqrt (25 / 2)) \<and> (7 / 2 :: real) \<le> sqrt (25 / 2)
   \<and> compute_mae_f64 [3, -4] = Some (7 / 2) \<and> nonneg_f64 (compute_rmse_f64 [3, -4])"
proof -
  have ne: "[3, -4] \<noteq> ([]::real list)" by simp
  have a: "compute_mae [3, -4] = Some (7 / 2)"
    by (simp add: compute_mae_def np_mean_def)
  have r: "compute_rmse [3, -4] = Some (sqrt (25 / 2))"
    by (simp add: compute_rmse_def np_mean_def)
  have f: "compute_mae_f64 [3, -4] = Some (7 / 2)" by (rule mae_f64_example)
  note c = rmse_ge_mae [OF ne]
  from c a r have le: "(7 / 2 :: real) \<le> sqrt (25 / 2)" by auto
  from c have nn: "nonneg_f64 (compute_rmse_f64 [3, -4])" by (elim conjE)
  from ne a r le f nn show ?thesis by (intro conjI)
qed

lemma sum_list_abs_scale:
  "sum_list (map abs (scale_array c xs)) = \<bar>c\<bar> * sum_list (map abs xs)"
  by (induction xs) (simp_all add: scale_array_def abs_mult algebra_simps)

lemma sum_list_sq_scale:
  "sum_list (map (\<lambda>x. x\<^sup>2) (scale_array c xs)) = c\<^sup>2 * sum_list (map (\<lambda>x. x\<^sup>2) xs)"
  by (induction xs) (simp_all add: scale_array_def power_mult_distrib algebra_simps)

lemma mae_scale:
  "xs \<noteq> [] \<Longrightarrow> compute_mae xs = Some a \<Longrightarrow> compute_mae (scale_array c xs) = Some (\<bar>c\<bar> * a)"
  using sum_list_abs_scale [of c xs]
  by (auto simp: compute_mae_def np_mean_def scale_array_def)

lemma rmse_scale:
  "xs \<noteq> [] \<Longrightarrow> compute_rmse xs = Some r \<Longrightarrow> compute_rmse (scale_array c xs) = Some (\<bar>c\<bar> * r)"
proof -
  assume ne: "xs \<noteq> []" and r: "compute_rmse xs = Some r"
  have "sqrt (c\<^sup>2 * sum_list (map (\<lambda>x. x\<^sup>2) xs) / real (length xs))
          = \<bar>c\<bar> * sqrt (sum_list (map (\<lambda>x. x\<^sup>2) xs) / real (length xs))"
    using real_sqrt_mult [of "c\<^sup>2" "sum_list (map (\<lambda>x. x\<^sup>2) xs) / real (length xs)"]
    by simp
  moreover have "length (scale_array c xs) = length xs" "scale_array c xs \<noteq> []"
    using ne by (simp_all add: scale_array_def)
  ultimately show ?thesis
    using ne r sum_list_sq_scale [of c xs]
    by (simp add: compute_rmse_def np_mean_def)
qed

lemma mae_nonneg: "compute_mae xs = Some a \<Longrightarrow> 0 \<le> a"
proof -
  assume "compute_mae xs = Some a"
  then have a: "a = sum_list (map abs xs) / real (length xs)"
    by (simp add: compute_mae_def np_mean_def split: if_splits)
  have "0 \<le> sum_list (map abs xs)" by (rule sum_list_nonneg) auto
  then show ?thesis unfolding a by simp
qed

lemma rmse_nonneg: "compute_rmse xs = Some r \<Longrightarrow> 0 \<le> r"
proof -
  assume "compute_rmse xs = Some r"
  then have r: "r = sqrt (sum_list (map (\<lambda>x. x\<^sup>2) xs) / real (length xs))"
    by (auto simp: compute_rmse_def np_mean_def split: if_splits)
  have "0 \<le> sum_list (map (\<lambda>x. x\<^sup>2) xs)" by (rule sum_list_nonneg) auto
  then show ?thesis unfolding r by simp
qed

lemma rel_mae_eq:
  "compute_mae delta = Some a \<Longrightarrow> compute_mae target_val = Some t \<Longrightarrow>
     compute_rel_mae delta target_val = Some (a / (t + 1 / 10 ^ 9) * 100)"
  by (simp add: compute_rel_mae_def compute_mae_def)

lemma rel_rmse_eq:
  "compute_rmse delta = Some r \<Longrightarrow> compute_rmse target_val = Some s \<Longrightarrow>
     compute_rel_rmse delta target_val = Some (r / (s + 1 / 10 ^ 9) * 100)"
  by (auto simp: compute_rel_rmse_def compute_rmse_def)

lemma guard_rescale:
  fixes a t c e :: real
  assumes "c \<noteq> 0" "0 \<le> t" "0 < e"
  shows "\<bar>c\<bar> * a / (\<bar>c\<bar> * t + e) = a / (t + e / \<bar>c\<bar>)"
proof -
  have c: "0 < \<bar>c\<bar>" using assms by simp
  have "\<bar>c\<bar> * t + e = \<bar>c\<bar> * (t + e / \<bar>c\<bar>)" using c by (simp add: field_simps)
  then show ?thesis using c by simp
qed

text \<open>
  Claim C9, amended. Scaling \<open>delta\<close> and \<open>target_val\<close> by the same nonzero \<open>c\<close>
  gives the relative metric that the unscaled arrays have when the guard
  \<open>1e-9\<close> is replaced by \<open>1e-9 / \<bar>c\<bar>\<close>: the metric is unchanged when \<open>\<bar>c\<bar> = 1\<close>, and
  otherwise changes by an amount that depends on the size of the target norm
  relative to the guard.
\<close>

theorem rel_metrics_scaling:
  assumes "c \<noteq> 0" and "delta \<noteq> []" and "target_val \<noteq> []"
  shows "\<exists>a t r s.
           compute_mae delta = Some a \<and> compute_mae target_val = Some t
         \<and> compute_rmse delta = Some r \<and> compute_rmse target_val = Some s
         \<and> compute_rel_mae delta target_val = Some (a / (t + 1 / 10 ^ 9) * 100)
         \<and> compute_rel_mae (scale_array c delta) (scale_array c target_val)
             = Some (a / (t + (1 / 10 ^ 9) / \<bar>c\<bar>) * 100)
         \<and> compute_rel_rmse delta target_val = Some (r / (s + 1 / 10 ^ 9) * 100)
         \<and> compute_rel_rmse (scale_array c delta) (scale_array c target_val)
             = Some (r / (s + (1 / 10 ^ 9) / \<bar>c\<bar>) * 100)"
proof -
  obtain a where a: "compute_mae delta = Some a"
    using assms(2) by (simp add: compute_mae_def np_mean_def)
  obtain t where t: "compute_mae target_val = Some t"
    using assms(3) by (simp add: compute_mae_def np_mean_def)
  obtain r where r: "compute_rmse delta = Some r"
    using assms(2) by (simp add: compute_rmse_def np_mean_def)
  obtain s where s: "compute_rmse target_val = Some s"
    using assms(3) by (simp add: compute_rmse_def np_mean_def)
  have e: "(0::real) < 1 / 10 ^ 9" by simp
  have "compute_rel_mae (scale_array c delta) (scale_array c target_val)
          = Some (\<bar>c\<bar> * a / (\<bar>c\<bar> * t + 1 / 10 ^ 9) * 100)"
    by (rule rel_mae_eq [OF mae_scale [OF assms(2) a] mae_scale [OF assms(3) t]])
  then have 1: "compute_rel_mae (scale_array c delta) (scale_array c target_val)
          = Some (a / (t + (1 / 10 ^ 9) / \<bar>c\<bar>) * 100)"
    by (simp only: guard_rescale [OF assms(1) mae_nonneg [OF t] e])
  have "compute_rel_rmse (scale_array c delta) (scale_array c target_val)
          = Some (\<bar>c\<bar> * r / (\<bar>c\<bar> * s + 1 / 10 ^ 9) * 100)"
    by (rule rel_rmse_eq [OF rmse_scale [OF assms(2) r] rmse_scale [OF assms(3) s]])
  then have 2: "compute_rel_rmse (scale_array c delta) (scale_array c target_val)
          = Some (r / (s + (1 / 10 ^ 9) / \<bar>c\<bar>) * 100)"
    by (simp only: guard_rescale [OF assms(1) rmse_nonneg [OF s] e])
  show ?thesis
    using a t r s rel_mae_eq [OF a t] rel_rmse_eq [OF r s] 1 2 by blast
qed

text \<open>
  The amended claim at \<open>c = 2\<close>, \<open>delta\<close> = 3, -4 and \<open>target_val\<close> = 1, -1.
\<close>

theorem rel_metrics_scaling_witness:
  "(2::real) \<noteq> 0 \<and> [3, -4] \<noteq> ([]::real list) \<and> [1, -1] \<noteq> ([]::real list)
   \<and> compute_rel_mae (scale_array 2 [3, -4]) (scale_array 2 [1, -1])
       = Some ((7 / 2) / (1 + (1 / 10 ^ 9) / 2) * 100)
   \<and> compute_rel_rmse (scale_array 2 [3, -4]) (scale_array 2 [1, -1])
       = Some (sqrt (25 / 2) / (1 + (1 / 10 ^ 9) / 2) * 100)"
proof -
  have a: "compute_mae [3, -4] = Some (7 / 2)" by (simp add: compute_mae_def np_mean_def)
  have t: "compute_mae [1, -1] = Some 1" by (simp add: compute_mae_def np_mean_def)
  have r: "compute_rmse [3, -4] = Some (sqrt (25 / 2))"
    by (simp add: compute_rmse_def np_mean_def)
  have s: "compute_rmse [1, -1] = Some 1" by (simp add: compute_rmse_def np_mean_def)
  have h: "(2::real) \<noteq> 0" "[3, -4] \<noteq> ([]::real list)" "[1, -1] \<noteq> ([]::real list)"
    by simp_all
  from rel_metrics_scaling [OF h] a t r s show ?thesis
    by auto
qed

text \<open>
  Claim C9 says that scaling both arrays by a nonzero constant leaves
  \<^verbatim>\<open>compute_rel_mae\<close> and \<^verbatim>\<open>compute_rel_rmse\<close> unchanged up to a tolerance that the guard
  introduces. For a target array of zeros the guard is the whole denominator, and
  scaling by 2 doubles both metrics.
\<close>

theorem rel_metrics_not_scale_invariant:
  "compute_rel_mae [1] [0] = Some (10 ^ 11)
   \<and> compute_rel_mae (scale_array 2 [1]) (scale_array 2 [0]) = Some (2 * 10 ^ 11)
   \<and> compute_rel_rmse [1] [0] = Some (10 ^ 11)
   \<and> compute_rel_rmse (scale_array 2 [1]) (scale_array 2 [0]) = Some (2 * 10 ^ 11)"
  by (simp add: compute_rel_mae_def compute_rel_rmse_def np_mean_def scale_array_def)

section \<open>load_foundations: what a call leaves alone\<close>

lemma and_then_Inr: "and_then r f = Inr y \<longleftrightarrow> (\<exists>v. r = Inr v \<and> f v = Inr y)"
  by (cases r) (simp_all add: and_then_def)

lemma item_Inr: "item xs i err = Inr x \<longleftrightarrow> i < length xs \<and> xs ! i = x"
  by (auto simp: item_def)

lemma set_stmt_None:
  "set_stmt m mf rhs store h = (None, h') \<longleftrightarrow>
     (\<exists>v t. rhs (h mf) = Inr v \<and> store v (h m) = Inr t \<and> h' = h(m := t))"
  by (auto simp: set_stmt_def split: sum.splits)

lemma seq_None:
  "seq s1 s2 h = (None, h') \<longleftrightarrow> (\<exists>h1. s1 h = (None, h1) \<and> s2 h1 = (None, h'))"
  by (auto simp: seq_def split: prod.splits option.splits)

lemma for_range_append:
  "for_range (xs @ ys) body h = seq (for_range xs body) (for_range ys body) h"
  by (induction xs arbitrary: h) (auto simp: seq_def split: prod.splits option.splits)

text \<open>
  A statement keeps an observation \<open>\<psi>\<close> of the store when the store it leaves
  behind, whatever the outcome, has the same observation.
\<close>

lemma set_stmt_keeps:
  assumes "\<And>t. \<psi> (h(m := t)) = \<psi> h"
  shows "\<psi> (snd (set_stmt m mf rhs store h)) = \<psi> h"
  using assms by (simp add: set_stmt_def split: sum.splits)

lemma seq_keeps:
  assumes "\<And>h. \<psi> (snd (s1 h)) = \<psi> h" and "\<And>h. \<psi> (snd (s2 h)) = \<psi> h"
  shows "\<psi> (snd (seq s1 s2 h)) = \<psi> h"
proof (cases "s1 h")
  case (Pair e h1)
  have 1: "\<psi> h1 = \<psi> h" using assms(1) [of h] Pair by simp
  show ?thesis
  proof (cases e)
    case None
    then show ?thesis using Pair 1 assms(2) [of h1] by (simp add: seq_def)
  next
    case (Some a)
    then show ?thesis using Pair 1 by (simp add: seq_def)
  qed
qed

lemma for_range_keeps:
  assumes "\<And>i h. \<psi> (snd (body i h)) = \<psi> h"
  shows "\<psi> (snd (for_range is body h)) = \<psi> h"
proof (induction "is" arbitrary: h)
  case Nil
  then show ?case by simp
next
  case (Cons i "is")
  show ?case
    unfolding for_range.simps
    by (rule seq_keeps) (simp_all add: assms Cons.IH)
qed

lemma set_stmt_frame: "r \<noteq> m \<Longrightarrow> snd (set_stmt m mf rhs store h) r = h r"
  by (simp add: set_stmt_def split: sum.splits)

lemma seq_frame:
  assumes "\<And>h. snd (s1 h) r = h r" and "\<And>h. snd (s2 h) r = h r"
  shows "snd (seq s1 s2 h) r = h r"
  by (rule seq_keeps [where \<psi> = "\<lambda>h. h r"]) (simp_all add: assms)

lemma for_range_frame:
  assumes "\<And>i h. snd (body i h) r = h r"
  shows "snd (for_range is body h) r = h r"
  by (rule for_range_keeps [where \<psi> = "\<lambda>h. h r"]) (simp add: assms)

lemma skip_frame: "snd (skip h) r = h r"
  by (simp add: skip_def)

lemma bessel_stmt_frame: "r \<noteq> m \<Longrightarrow> snd (bessel_stmt m mf h) r = h r"
  by (simp add: bessel_stmt_def set_stmt_frame)

lemma skip_tp_stmt_frame: "r \<noteq> m \<Longrightarrow> snd (skip_tp_stmt L m mf i h) r = h r"
  by (simp add: skip_tp_stmt_def set_stmt_frame split: sum.splits)

lemma interaction_body_frame: "r \<noteq> m \<Longrightarrow> snd (interaction_body L m mf i h) r = h r"
  unfolding interaction_body_def
  by (intro seq_frame for_range_frame set_stmt_frame skip_tp_stmt_frame)

lemma contraction_body_frame: "r \<noteq> m \<Longrightarrow> snd (contraction_body L m mf i j h) r = h r"
  unfolding contraction_body_def
  by (intro seq_frame for_range_frame set_stmt_frame)

lemma product_body_frame: "r \<noteq> m \<Longrightarrow> snd (product_body L m mf max_L i h) r = h r"
  unfolding product_body_def Let_def
  by (intro seq_frame for_range_frame set_stmt_frame contraction_body_frame)

lemma readout_stmts_frame: "r \<noteq> m \<Longrightarrow> snd (readout_stmts m mf load_readout h) r = h r"
  unfolding readout_stmts_def
  by (cases load_readout) (simp_all add: seq_frame set_stmt_frame skip_frame)

lemma scale_shift_stmts_frame:
  "r \<noteq> m \<Longrightarrow> snd (scale_shift_stmts m mf use_scale use_shift h) r = h r"
  unfolding scale_shift_stmts_def
  by (cases "scale_shift (h mf)"; cases use_scale; cases use_shift)
     (simp_all add: seq_frame set_stmt_frame skip_frame)

lemma lf_body_frame:
  "r \<noteq> m \<Longrightarrow> snd (lf_body L m mf n load_readout use_shift use_scale max_L h) r = h r"
  unfolding lf_body_def node_embedding_stmt_def
  by (intro seq_frame for_range_frame set_stmt_frame bessel_stmt_frame interaction_body_frame
      product_body_frame readout_stmts_frame scale_shift_stmts_frame)

lemma load_foundations_frame:
  "r \<noteq> m \<Longrightarrow>
     snd (load_foundations h m mf table load_readout use_shift use_scale max_L) r = h r"
proof -
  assume r: "r \<noteq> m"
  show ?thesis
  proof (cases "compute_locals (h m) (h mf) table")
    case (Inl e)
    then show ?thesis by (simp add: load_foundations_def)
  next
    case (Inr L)
    obtain e h' where b: "lf_body L m mf (num_interactions (h m)) load_readout use_shift
                             use_scale max_L h = (e, h')"
      by (cases "lf_body L m mf (num_interactions (h m)) load_readout use_shift
                   use_scale max_L h") auto
    have "h' r = h r"
      using lf_body_frame [OF r, of L mf "num_interactions (h m)" load_readout use_shift
          use_scale max_L h] b by simp
    then show ?thesis
      using Inr b by (cases e) (simp_all add: load_foundations_def)
  qed
qed

lemma load_foundations_returns:
  "fst (load_foundations h m mf table load_readout use_shift use_scale max_L) = Inr x \<Longrightarrow> x = m"
  by (auto simp: load_foundations_def split: sum.splits prod.splits option.splits if_splits)


section \<open>Evaluation on the concrete pair\<close>

lemma upt_0_4: "[0..<4] = [0, 1, 2, 3]" by code_simp
lemma upt_0_2: "[0..<2] = [0, 1]" by code_simp
lemma upt_0_1: "[0..<1] = [0]" by code_simp

lemmas lf_defs =
  load_foundations_def compute_locals_def lf_body_def node_embedding_stmt_def bessel_stmt_def
  skip_tp_stmt_def interaction_body_def contraction_body_def product_body_def readout_stmts_def
  scale_shift_stmts_def set_stmt_def seq_def skip_def
  node_embedding_rhs_def bessel_rhs_def linear_up_rhs_def avg_num_neighbors_rhs_def
  conv_tp_rhs_def linear_rhs_def skip_tp_residual_rhs_def skip_tp_else_rhs_def
  weights_max_rhs_def weights_rhs_def product_linear_rhs_def readout_linear_rhs_def
  readout_linear_1_rhs_def readout_linear_2_rhs_def scale_rhs_def shift_rhs_def
  store_node_embedding_def store_bessel_def store_interaction_def put_linear_up_def
  put_avg_num_neighbors_def put_conv_tp_def put_linear_def put_skip_tp_def store_product_def
  put_contraction_def put_weights_max_def put_weights_def put_product_linear_def
  store_readout_linear_def store_readout_linear_1_def store_readout_linear_2_def
  store_scale_def store_shift_def
  and_then_def item_def clone_def flatten_def div_scalar_def view_rows_def reshape_def
  select_blocks_def index_dim_def slice_rows_def rescale_factor_def numel_def
  AtomicNumberTable_def z_to_index_def
  example_heap_def example_target_def example_foundation_def fresh_block_def
  fresh_product_def vec_def upt_0_4 upt_0_2 upt_0_1 Let_def

lemma example_run_returns:
  "fst (load_foundations
          (example_heap (example_target ''BesselBasis'' ''RealAgnosticResidualInteractionBlock'')
             example_foundation)
          0 1 (AtomicNumberTable [8, 1]) True True True 0) = Inr 0"
  by (simp add: lf_defs)


section \<open>load_foundations: frame and lookup failure\<close>

text \<open>
  Claim C5. A call of \<^verbatim>\<open>load_foundations\<close> writes to the target model object only:
  every other object of the store is as before the call, whatever the outcome; in
  particular the foundation model, when it is an object other than the target, is
  unchanged. A call that returns, returns the reference of the target object, whose
  value in the store is the mutated model.
\<close>

theorem load_foundations_mutates_only_target:
  "(\<forall>r. r \<noteq> model \<longrightarrow>
       snd (load_foundations h model model_foundations table load_readout use_shift use_scale
              max_L) r = h r)
   \<and> (model_foundations \<noteq> model \<longrightarrow>
       snd (load_foundations h model model_foundations table load_readout use_shift use_scale
              max_L) model_foundations = h model_foundations)
   \<and> (\<forall>x. fst (load_foundations h model model_foundations table load_readout use_shift
                    use_scale max_L) = Inr x \<longrightarrow> x = model)"
  using load_foundations_frame load_foundations_returns by blast

text \<open>
  The claim on the concrete pair: the call returns the target reference 0 and leaves
  the foundation, the object 1, as it was.
\<close>

theorem load_foundations_mutates_only_target_witness:
  "(1::nat) \<noteq> 0
   \<and> fst (load_foundations
          (example_heap (example_target ''BesselBasis'' ''RealAgnosticResidualInteractionBlock'')
             example_foundation)
          0 1 (AtomicNumberTable [8, 1]) True True True 0) = Inr 0
   \<and> snd (load_foundations
          (example_heap (example_target ''BesselBasis'' ''RealAgnosticResidualInteractionBlock'')
             example_foundation)
          0 1 (AtomicNumberTable [8, 1]) True True True 0) 1 = example_foundation"
proof -
  have "snd (load_foundations
          (example_heap (example_target ''BesselBasis'' ''RealAgnosticResidualInteractionBlock'')
             example_foundation)
          0 1 (AtomicNumberTable [8, 1]) True True True 0) 1
        = example_heap (example_target ''BesselBasis'' ''RealAgnosticResidualInteractionBlock'')
             example_foundation 1"
    using load_foundations_mutates_only_target
      [of 0 "example_heap (example_target ''BesselBasis''
               ''RealAgnosticResidualInteractionBlock'') example_foundation"
          1 "AtomicNumberTable [8, 1]" True True True 0]
    by simp
  then show ?thesis
    using example_run_returns by (simp add: example_heap_def)
qed


lemma z_to_index_Inl: "z_to_index t z = Inl e \<longleftrightarrow> e = ValueError \<and> z \<notin> set (zs t)"
proof (cases "list_index (zs t) z")
  case None
  then have "z \<notin> set (zs t)" by (simp add: list_index_None)
  then show ?thesis using None by (auto simp: z_to_index_def)
next
  case (Some i)
  from list_index_Some [OF Some] have "z \<in> set (zs t)" by auto
  then show ?thesis using Some by (simp add: z_to_index_def)
qed

lemma collect_Inl:
  "collect f xs = Inl e \<Longrightarrow> \<exists>x \<in> set xs. f x = Inl e"
  by (induction xs arbitrary: e) (auto simp: and_then_def split: sum.splits)

lemma collect_raises:
  "x \<in> set xs \<Longrightarrow> f x = Inl e \<Longrightarrow> \<exists>e'. collect f xs = Inl e'"
  by (induction xs) (auto simp: and_then_def split: sum.splits)

lemma collect_z_to_index_miss:
  assumes "z \<in> set xs" and "z \<notin> set (zs t)"
  shows "collect (z_to_index t) xs = Inl ValueError"
proof -
  have "z_to_index t z = Inl ValueError" using assms(2) by (simp add: z_to_index_Inl)
  from collect_raises [where f = "z_to_index t", OF assms(1) this] obtain e where e: "collect (z_to_index t) xs = Inl e"
    by blast
  from collect_Inl [OF e] have "e = ValueError" by (auto simp: z_to_index_Inl)
  with e show ?thesis by simp
qed

lemma compute_locals_miss:
  assumes "z \<in> set (zs table)" and "z \<notin> set (atomic_numbers f)"
  shows "\<exists>e. compute_locals t f table = Inl e"
    and "atomic_numbers f \<noteq> [] \<Longrightarrow> shape (node_embedding_weight f) \<noteq> [] \<Longrightarrow>
           compute_locals t f table = Inl ValueError"
  using collect_z_to_index_miss [OF assms(1), of "AtomicNumberTable (atomic_numbers f)"] assms(2)
  by (auto simp: compute_locals_def Let_def and_then_def AtomicNumberTable_def
      split: list.splits sum.splits)

text \<open>
  Claim C3. \<^verbatim>\<open>z_to_index\<close> raises exactly when the atomic number is not in the table
  (the exception is the ValueError of \<^verbatim>\<open>list.index\<close>). Consequently a call of
  \<^verbatim>\<open>load_foundations\<close> with a target element that the foundation table lacks always
  raises; when the statements before the index mapping pass (equal cutoff radius,
  a non-empty foundation table, a node embedding weight with a first dimension),
  the exception is the ValueError of the index-mapping step, raised before
  anything is assigned.
\<close>

theorem missing_element_raises:
  "((\<exists>e. z_to_index t z = Inl e) \<longleftrightarrow> z \<notin> set (zs t))
   \<and> (z \<notin> set (zs t) \<longrightarrow> z_to_index t z = Inl ValueError)
   \<and> ((\<exists>a \<in> set (zs table). a \<notin> set (atomic_numbers (h model_foundations))) \<longrightarrow>
        (\<exists>e. fst (load_foundations h model model_foundations table load_readout use_shift
                     use_scale max_L) = Inl e))
   \<and> ((\<exists>a \<in> set (zs table). a \<notin> set (atomic_numbers (h model_foundations)))
        \<and> r_max (h model_foundations) = r_max (h model)
        \<and> atomic_numbers (h model_foundations) \<noteq> []
        \<and> shape (node_embedding_weight (h model_foundations)) \<noteq> [] \<longrightarrow>
        load_foundations h model model_foundations table load_readout use_shift use_scale max_L
          = (Inl ValueError, h))"
proof (intro conjI impI)
  show "(\<exists>e. z_to_index t z = Inl e) \<longleftrightarrow> z \<notin> set (zs t)"
    by (auto simp: z_to_index_Inl)
  show "z_to_index t z = Inl ValueError" if "z \<notin> set (zs t)"
    using that by (simp add: z_to_index_Inl)
  show "\<exists>e. fst (load_foundations h model model_foundations table load_readout use_shift
                     use_scale max_L) = Inl e"
    if "\<exists>a \<in> set (zs table). a \<notin> set (atomic_numbers (h model_foundations))"
  proof -
    from that obtain a where a: "a \<in> set (zs table)"
      "a \<notin> set (atomic_numbers (h model_foundations))" by blast
    from compute_locals_miss(1) [OF a] obtain e
      where "compute_locals (h model) (h model_foundations) table = Inl e" by blast
    then show ?thesis by (simp add: load_foundations_def)
  qed
  show "load_foundations h model model_foundations table load_readout use_shift use_scale max_L
          = (Inl ValueError, h)"
    if "(\<exists>a \<in> set (zs table). a \<notin> set (atomic_numbers (h model_foundations)))
        \<and> r_max (h model_foundations) = r_max (h model)
        \<and> atomic_numbers (h model_foundations) \<noteq> []
        \<and> shape (node_embedding_weight (h model_foundations)) \<noteq> []"
  proof -
    from that obtain a where a: "a \<in> set (zs table)"
      "a \<notin> set (atomic_numbers (h model_foundations))" by blast
    from compute_locals_miss(2) [OF a] that
    have "compute_locals (h model) (h model_foundations) table = Inl ValueError" by blast
    with that show ?thesis by (simp add: load_foundations_def)
  qed
qed

text \<open>
  The claim on the concrete pair with the target table 8, 2: element 2 is not among
  the foundation's elements 1, 6, 8.
\<close>

theorem missing_element_raises_witness:
  "(2::int) \<notin> set (zs (AtomicNumberTable [1, 6, 8]))
   \<and> z_to_index (AtomicNumberTable [1, 6, 8]) 2 = Inl ValueError
   \<and> load_foundations
        (example_heap (example_target ''BesselBasis'' ''RealAgnosticResidualInteractionBlock'')
           example_foundation)
        0 1 (AtomicNumberTable [8, 2]) False False True 2
      = (Inl ValueError,
         example_heap (example_target ''BesselBasis'' ''RealAgnosticResidualInteractionBlock'')
           example_foundation)"
proof -
  have z: "(2::int) \<notin> set (zs (AtomicNumberTable [1, 6, 8]))"
    by (simp add: AtomicNumberTable_def)
  have pre: "(\<exists>a \<in> set (zs (AtomicNumberTable [8, 2])).
                a \<notin> set (atomic_numbers (example_heap (example_target ''BesselBasis''
                   ''RealAgnosticResidualInteractionBlock'') example_foundation 1)))
        \<and> r_max (example_heap (example_target ''BesselBasis''
                   ''RealAgnosticResidualInteractionBlock'') example_foundation 1)
            = r_max (example_heap (example_target ''BesselBasis''
                   ''RealAgnosticResidualInteractionBlock'') example_foundation 0)
        \<and> atomic_numbers (example_heap (example_target ''BesselBasis''
                   ''RealAgnosticResidualInteractionBlock'') example_foundation 1) \<noteq> []
        \<and> shape (node_embedding_weight (example_heap (example_target ''BesselBasis''
                   ''RealAgnosticResidualInteractionBlock'') example_foundation 1)) \<noteq> []"
    by (simp add: AtomicNumberTable_def example_heap_def example_target_def
        example_foundation_def vec_def)
  from missing_element_raises
      [of "AtomicNumberTable [1, 6, 8]" 2 "AtomicNumberTable [8, 2]"
          "example_heap (example_target ''BesselBasis''
             ''RealAgnosticResidualInteractionBlock'') example_foundation"
          1 0 False False True 2] z pre
  show ?thesis by blast
qed

section \<open>load_foundations: what a successful call has assigned\<close>

lemma store_interaction_Inr:
  "store_interaction i g v t = Inr t' \<longleftrightarrow>
     (\<exists>b'. i < length (interactions t) \<and> g v (interactions t ! i) = Inr b'
           \<and> t' = t\<lparr> interactions := (interactions t)[i := b'] \<rparr>)"
  by (auto simp: store_interaction_def and_then_Inr item_Inr)

lemma store_product_Inr:
  "store_product i g v t = Inr t' \<longleftrightarrow>
     (\<exists>p'. i < length (products t) \<and> g v (products t ! i) = Inr p'
           \<and> t' = t\<lparr> products := (products t)[i := p'] \<rparr>)"
  by (auto simp: store_product_def and_then_Inr item_Inr)

lemma put_contraction_Inr:
  "put_contraction j g v p = Inr p' \<longleftrightarrow>
     (\<exists>c'. j < length (contractions p) \<and> g v (contractions p ! j) = Inr c'
           \<and> p' = p\<lparr> contractions := (contractions p)[j := c'] \<rparr>)"
  by (auto simp: put_contraction_def and_then_Inr item_Inr)

lemma for_range_single: "for_range [i] body h = body i h"
  by (cases "body i h") (auto simp: seq_def split: option.splits)

lemma interaction_body_step:
  assumes "m \<noteq> mf" and "interaction_body L m mf i h = (None, h')"
  shows "i < length (interactions (h m))
       \<and> h' = h(m := (h m)\<lparr> interactions :=
                          (interactions (h m))[i := interactions (h' m) ! i] \<rparr>)
       \<and> interaction_copied L (h mf) i (interactions (h m) ! i) (interactions (h' m) ! i)"
  using assms
  apply (simp add: interaction_body_def skip_tp_stmt_def seq_None set_stmt_None upt_0_4
      store_interaction_Inr put_linear_up_def put_avg_num_neighbors_def put_conv_tp_def
      put_linear_def put_skip_tp_def item_def split: if_splits sum.splits)
   apply clarsimp
   apply (simp add: interaction_copied_def)
  apply clarsimp
  apply (simp add: interaction_copied_def)
  done

lemma interaction_body_None:
  assumes "m \<noteq> mf" and "interaction_body L m mf i h = (None, h')"
  shows "\<exists>b'. i < length (interactions (h m))
           \<and> h' = h(m := (h m)\<lparr> interactions := (interactions (h m))[i := b'] \<rparr>)
           \<and> interaction_copied L (h mf) i (interactions (h m) ! i) b'"
  using interaction_body_step [OF assms] by blast

lemma interaction_loop_None:
  assumes "m \<noteq> mf"
  shows "for_range [0..<n] (interaction_body L m mf) h = (None, h') \<Longrightarrow>
         \<exists>bs. h' = h(m := (h m)\<lparr> interactions := bs \<rparr>)
            \<and> length bs = length (interactions (h m))
            \<and> n \<le> length bs
            \<and> (\<forall>i<n. interaction_copied L (h mf) i (interactions (h m) ! i) (bs ! i))
            \<and> (\<forall>i. n \<le> i \<longrightarrow> bs ! i = interactions (h m) ! i)"
proof (induction n arbitrary: h')
  case 0
  then have "h' = h" by simp
  then have "h' = h(m := (h m)\<lparr> interactions := interactions (h m) \<rparr>)" by simp
  then show ?case by blast
next
  case (Suc n)
  from Suc.prems obtain h1 where
    h1: "for_range [0..<n] (interaction_body L m mf) h = (None, h1)"
    and step: "interaction_body L m mf n h1 = (None, h')"
    by (auto simp: for_range_append seq_None for_range_single)
  from Suc.IH [OF h1] obtain bs where
    bs: "h1 = h(m := (h m)\<lparr> interactions := bs \<rparr>)"
    "length bs = length (interactions (h m))" "n \<le> length bs"
    "\<forall>i<n. interaction_copied L (h mf) i (interactions (h m) ! i) (bs ! i)"
    "\<forall>i. n \<le> i \<longrightarrow> bs ! i = interactions (h m) ! i"
    by (elim exE conjE) (rule that)
  have f: "h1 mf = h mf" and t: "interactions (h1 m) = bs"
    using bs(1) assms by simp_all
  from interaction_body_None [OF assms step] obtain b' where
    b': "n < length bs"
    "h' = h1(m := (h1 m)\<lparr> interactions := bs[n := b'] \<rparr>)"
    "interaction_copied L (h mf) n (bs ! n) b'"
    unfolding f t by blast
  have 1: "h' = h(m := (h m)\<lparr> interactions := bs[n := b'] \<rparr>)"
    using b'(2) bs(1) by simp
  have 2: "\<forall>i<Suc n. interaction_copied L (h mf) i (interactions (h m) ! i) (bs[n := b'] ! i)"
  proof (intro allI impI)
    fix i assume "i < Suc n"
    then consider "i < n" | "i = n" by linarith
    then show "interaction_copied L (h mf) i (interactions (h m) ! i) (bs[n := b'] ! i)"
    proof cases
      case 1
      then show ?thesis using bs(4) by simp
    next
      case 2
      then show ?thesis using b'(1,3) bs(5) by simp
    qed
  qed
  have 3: "\<forall>i. Suc n \<le> i \<longrightarrow> bs[n := b'] ! i = interactions (h m) ! i"
    using bs(5) by simp
  show ?case
    using 1 2 3 b'(1) bs(2) by (intro exI [of _ "bs[n := b']"]) simp
qed

lemma contraction_body_step:
  assumes "m \<noteq> mf" and "contraction_body L m mf i j h = (None, h')"
  shows "i < length (products (h m))
       \<and> j < length (contractions (products (h m) ! i))
       \<and> h' = h(m := (h m)\<lparr> products := (products (h m))[i := (products (h m) ! i)
                 \<lparr> contractions := (contractions (products (h m) ! i))
                      [j := contractions (products (h' m) ! i) ! j] \<rparr>] \<rparr>)
       \<and> contraction_copied L (h mf) i j (contractions (products (h m) ! i) ! j)
            (contractions (products (h' m) ! i) ! j)"
  using assms
  apply (simp add: contraction_body_def seq_None set_stmt_None upt_0_2
      store_product_Inr put_contraction_Inr put_weights_max_def put_weights_def
      split: if_splits)
  apply clarsimp
  apply (simp add: contraction_copied_def)
  done

lemma contraction_body_None:
  assumes "m \<noteq> mf" and "contraction_body L m mf i j h = (None, h')"
  shows "\<exists>c'. i < length (products (h m))
           \<and> j < length (contractions (products (h m) ! i))
           \<and> h' = h(m := (h m)\<lparr> products := (products (h m))[i := (products (h m) ! i)
                     \<lparr> contractions := (contractions (products (h m) ! i))[j := c'] \<rparr>] \<rparr>)
           \<and> contraction_copied L (h mf) i j (contractions (products (h m) ! i) ! j) c'"
  using contraction_body_step [OF assms] by blast

lemma contraction_loop_None:
  assumes "m \<noteq> mf"
  shows "for_range [0..<n] (contraction_body L m mf i) h = (None, h') \<Longrightarrow>
         \<exists>cs. h' = h(m := (h m)\<lparr> products := (products (h m))[i := (products (h m) ! i)
                       \<lparr> contractions := cs \<rparr>] \<rparr>)
            \<and> length cs = length (contractions (products (h m) ! i))
            \<and> (0 < n \<longrightarrow> i < length (products (h m)) \<and> n \<le> length cs)
            \<and> (\<forall>j<n. contraction_copied L (h mf) i j
                         (contractions (products (h m) ! i) ! j) (cs ! j))
            \<and> (\<forall>j. n \<le> j \<longrightarrow> cs ! j = contractions (products (h m) ! i) ! j)"
proof (induction n arbitrary: h')
  case 0
  then have "h' = h" by simp
  then have "h' = h(m := (h m)\<lparr> products := (products (h m))[i := (products (h m) ! i)
                       \<lparr> contractions := contractions (products (h m) ! i) \<rparr>] \<rparr>)"
    by simp
  then show ?case by blast
next
  case (Suc n)
  from Suc.prems obtain h1 where
    h1: "for_range [0..<n] (contraction_body L m mf i) h = (None, h1)"
    and step: "contraction_body L m mf i n h1 = (None, h')"
    by (auto simp: for_range_append seq_None for_range_single)
  from Suc.IH [OF h1] obtain cs where
    cs: "h1 = h(m := (h m)\<lparr> products := (products (h m))[i := (products (h m) ! i)
                       \<lparr> contractions := cs \<rparr>] \<rparr>)"
    "length cs = length (contractions (products (h m) ! i))"
    "\<forall>j<n. contraction_copied L (h mf) i j (contractions (products (h m) ! i) ! j) (cs ! j)"
    "\<forall>j. n \<le> j \<longrightarrow> cs ! j = contractions (products (h m) ! i) ! j"
    by (elim exE conjE) (rule that)
  have f: "h1 mf = h mf" using cs(1) assms by simp
  from contraction_body_None [OF assms step] obtain c' where
    c': "i < length (products (h1 m))" "n < length (contractions (products (h1 m) ! i))"
    "h' = h1(m := (h1 m)\<lparr> products := (products (h1 m))[i := (products (h1 m) ! i)
                     \<lparr> contractions := (contractions (products (h1 m) ! i))[n := c'] \<rparr>] \<rparr>)"
    "contraction_copied L (h mf) i n (contractions (products (h1 m) ! i) ! n) c'"
    unfolding f by (elim exE conjE) (rule that)
  have i: "i < length (products (h m))" using c'(1) cs(1) by simp
  have p: "contractions (products (h1 m) ! i) = cs" using cs(1) i by simp
  have n: "n < length cs" using c'(2) p by simp
  have 1: "h' = h(m := (h m)\<lparr> products := (products (h m))[i := (products (h m) ! i)
                       \<lparr> contractions := cs[n := c'] \<rparr>] \<rparr>)"
    using c'(3) cs(1) i by simp
  have 2: "\<forall>j<Suc n. contraction_copied L (h mf) i j
             (contractions (products (h m) ! i) ! j) (cs[n := c'] ! j)"
  proof (intro allI impI)
    fix j assume "j < Suc n"
    then consider "j < n" | "j = n" by linarith
    then show "contraction_copied L (h mf) i j
             (contractions (products (h m) ! i) ! j) (cs[n := c'] ! j)"
    proof cases
      case 1
      then show ?thesis using cs(3) by simp
    next
      case 2
      then show ?thesis using c'(4) n cs(4) p by simp
    qed
  qed
  have 3: "\<forall>j. Suc n \<le> j \<longrightarrow> cs[n := c'] ! j = contractions (products (h m) ! i) ! j"
    using cs(4) by simp
  show ?case
    using 1 2 3 n i cs(2) by (intro exI [of _ "cs[n := c']"]) simp
qed

lemma product_body_None:
  assumes "m \<noteq> mf" and "product_body L m mf max_L i h = (None, h')"
  shows "\<exists>p'. i < length (products (h m))
           \<and> h' = h(m := (h m)\<lparr> products := (products (h m))[i := p'] \<rparr>)
           \<and> product_copied L (h mf) i (if i = 0 then nat (max_L + 1) else 1)
                (products (h m) ! i) p'"
proof -
  define n where "n = (if i = 0 then nat (max_L + 1) else 1)"
  from assms(2) obtain h1 where
    h1: "for_range [0..<n] (contraction_body L m mf i) h = (None, h1)"
    and lin: "set_stmt m mf (product_linear_rhs i) (store_product i put_product_linear) h1
                = (None, h')"
    by (auto simp: product_body_def Let_def seq_None n_def)
  from contraction_loop_None [OF assms(1) h1] obtain cs where
    cs: "h1 = h(m := (h m)\<lparr> products := (products (h m))[i := (products (h m) ! i)
                       \<lparr> contractions := cs \<rparr>] \<rparr>)"
    "length cs = length (contractions (products (h m) ! i))"
    "0 < n \<longrightarrow> i < length (products (h m)) \<and> n \<le> length cs"
    "\<forall>j<n. contraction_copied L (h mf) i j (contractions (products (h m) ! i) ! j) (cs ! j)"
    by (elim exE conjE) (rule that)
  have f: "h1 mf = h mf" using cs(1) assms(1) by simp
  from lin obtain v where
    v: "product_linear_rhs i (h mf) = Inr v" "i < length (products (h1 m))"
    "h' = h1(m := (h1 m)\<lparr> products := (products (h1 m))[i := (products (h1 m) ! i)
                 \<lparr> product_linear_weight := v \<rparr>] \<rparr>)"
    by (auto simp: set_stmt_None store_product_Inr put_product_linear_def f)
  have i: "i < length (products (h m))" using v(2) cs(1) by simp
  define p' where "p' = (products (h m) ! i)\<lparr> contractions := cs, product_linear_weight := v \<rparr>"
  have 1: "h' = h(m := (h m)\<lparr> products := (products (h m))[i := p'] \<rparr>)"
    using v(3) cs(1) i by (simp add: p'_def)
  have 2: "product_copied L (h mf) i n (products (h m) ! i) p'"
    using cs(2,3,4) v(1) by (cases "n = 0") (simp_all add: product_copied_def p'_def list_all_iff)
  show ?thesis using i 1 2 unfolding n_def by (intro exI [of _ p']) simp
qed

lemma product_loop_None:
  assumes "m \<noteq> mf" and "for_range [0..<2] (product_body L m mf max_L) h = (None, h')"
  shows "\<exists>ps. h' = h(m := (h m)\<lparr> products := ps \<rparr>)
            \<and> length ps = length (products (h m))
            \<and> 2 \<le> length ps
            \<and> product_copied L (h mf) 0 (nat (max_L + 1)) (products (h m) ! 0) (ps ! 0)
            \<and> product_copied L (h mf) 1 1 (products (h m) ! 1) (ps ! 1)"
proof -
  from assms(2) obtain h1 where
    h1: "product_body L m mf max_L 0 h = (None, h1)"
    and h2: "product_body L m mf max_L 1 h1 = (None, h')"
    by (auto simp: upt_0_2 seq_None)
  from product_body_None [OF assms(1) h1] obtain p0 where
    p0: "0 < length (products (h m))"
    "h1 = h(m := (h m)\<lparr> products := (products (h m))[0 := p0] \<rparr>)"
    "product_copied L (h mf) 0 (nat (max_L + 1)) (products (h m) ! 0) p0"
    by auto
  have f: "h1 mf = h mf" using p0(2) assms(1) by simp
  from product_body_None [OF assms(1) h2] obtain p1 where
    p1: "1 < length (products (h1 m))"
    "h' = h1(m := (h1 m)\<lparr> products := (products (h1 m))[1 := p1] \<rparr>)"
    "product_copied L (h mf) 1 1 (products (h1 m) ! 1) p1"
    unfolding f by auto
  have l: "1 < length (products (h m))" using p1(1) p0(2) by simp
  have 1: "h' = h(m := (h m)\<lparr> products := (products (h m))[0 := p0, 1 := p1] \<rparr>)"
    using p1(2) p0(2) by simp
  have 2: "product_copied L (h mf) 1 1 (products (h m) ! 1) p1"
    using p1(3) p0(2) by simp
  show ?thesis
    using 1 2 p0(1,3) l by (intro exI [of _ "(products (h m))[0 := p0, 1 := p1]"]) simp
qed

lemma store_readout_linear_Inr:
  "store_readout_linear w t = Inr t' \<longleftrightarrow>
     (0 < length (readouts t) \<and> (\<exists>w0. readouts t ! 0 = LinearReadoutBlock w0)
      \<and> t' = t\<lparr> readouts := (readouts t)[0 := LinearReadoutBlock w] \<rparr>)"
  by (cases "readouts t ! 0") (auto simp: store_readout_linear_def and_then_Inr item_Inr)

lemma store_readout_linear_1_Inr:
  "store_readout_linear_1 w t = Inr t' \<longleftrightarrow>
     (1 < length (readouts t)
      \<and> (\<exists>a b. readouts t ! 1 = NonLinearReadoutBlock a b
              \<and> t' = t\<lparr> readouts := (readouts t)[1 := NonLinearReadoutBlock w b] \<rparr>))"
  by (cases "readouts t ! 1") (auto simp: store_readout_linear_1_def and_then_Inr item_Inr)

lemma store_readout_linear_2_Inr:
  "store_readout_linear_2 w t = Inr t' \<longleftrightarrow>
     (1 < length (readouts t)
      \<and> (\<exists>a b. readouts t ! 1 = NonLinearReadoutBlock a b
              \<and> t' = t\<lparr> readouts := (readouts t)[1 := NonLinearReadoutBlock a w] \<rparr>))"
  by (cases "readouts t ! 1") (auto simp: store_readout_linear_2_def and_then_Inr item_Inr)

lemma readout_stmts_None:
  assumes "m \<noteq> mf" and "readout_stmts m mf load_readout h = (None, h')"
  shows "\<exists>rs. h' = h(m := (h m)\<lparr> readouts := rs \<rparr>)
           \<and> (if load_readout
               then \<exists>w0 w1 w2. readout_linear_rhs (h mf) = Inr w0
                      \<and> readout_linear_1_rhs (h mf) = Inr w1
                      \<and> readout_linear_2_rhs (h mf) = Inr w2
                      \<and> rs ! 0 = LinearReadoutBlock w0
                      \<and> rs ! 1 = NonLinearReadoutBlock w1 w2
               else rs = readouts (h m))"
proof (cases load_readout)
  case False
  with assms(2) have "h' = h" by (simp add: readout_stmts_def skip_def)
  then have "h' = h(m := (h m)\<lparr> readouts := readouts (h m) \<rparr>)" by simp
  then show ?thesis using False by auto
next
  case True
  from assms(2) True obtain h1 h2 where
    s0: "set_stmt m mf readout_linear_rhs store_readout_linear h = (None, h1)"
    and s1: "set_stmt m mf readout_linear_1_rhs store_readout_linear_1 h1 = (None, h2)"
    and s2: "set_stmt m mf readout_linear_2_rhs store_readout_linear_2 h2 = (None, h')"
    by (auto simp: readout_stmts_def seq_None)
  from s0 obtain w0 where
    w0: "readout_linear_rhs (h mf) = Inr w0" "0 < length (readouts (h m))"
    "h1 = h(m := (h m)\<lparr> readouts := (readouts (h m))[0 := LinearReadoutBlock w0] \<rparr>)"
    by (auto simp: set_stmt_None store_readout_linear_Inr)
  have f1: "h1 mf = h mf" using w0(3) assms(1) by simp
  from s1 obtain w1 u2 where
    w1: "readout_linear_1_rhs (h mf) = Inr w1" "1 < length (readouts (h1 m))"
    "h2 = h1(m := (h1 m)\<lparr> readouts := (readouts (h1 m))[1 := NonLinearReadoutBlock w1 u2] \<rparr>)"
    by (auto simp: set_stmt_None store_readout_linear_1_Inr f1)
  have f2: "h2 mf = h mf" using w1(3) f1 assms(1) by simp
  have l: "1 < length (readouts (h m))" using w1(2) w0(3) by simp
  have r2: "readouts (h2 m) = (readouts (h m))[0 := LinearReadoutBlock w0,
                                 1 := NonLinearReadoutBlock w1 u2]"
    using w1(3) w0(3) by simp
  from s2 obtain w2 where
    w2: "readout_linear_2_rhs (h mf) = Inr w2"
    "h' = h2(m := (h2 m)\<lparr> readouts := (readouts (h2 m))[1 := NonLinearReadoutBlock w1 w2] \<rparr>)"
    using l by (auto simp: set_stmt_None store_readout_linear_2_Inr f2 r2)
  have "h' = h(m := (h m)\<lparr> readouts := (readouts (h m))[0 := LinearReadoutBlock w0,
                                 1 := NonLinearReadoutBlock w1 w2] \<rparr>)"
    using w2(2) w1(3) w0(3) by simp
  then show ?thesis
    using True w0(1,2) w1(1) w2(1) l
    by (intro exI [of _ "(readouts (h m))[0 := LinearReadoutBlock w0,
                                 1 := NonLinearReadoutBlock w1 w2]"]) simp
qed

lemma scale_shift_stmts_None:
  assumes "m \<noteq> mf" and "scale_shift_stmts m mf use_scale use_shift h = (None, h')"
  shows "\<exists>ss. h' = h(m := (h m)\<lparr> scale_shift := ss \<rparr>)
           \<and> (scale_shift (h mf) = None \<longrightarrow> ss = scale_shift (h m))
           \<and> (scale_shift (h mf) \<noteq> None \<and> use_scale \<longrightarrow>
                (\<exists>s. ss = Some s \<and> scale_rhs (h mf) = Inr (scale s)))
           \<and> (scale_shift (h mf) \<noteq> None \<and> use_shift \<longrightarrow>
                (\<exists>s. ss = Some s \<and> shift_rhs (h mf) = Inr (shift s)))
           \<and> (\<not> use_scale \<longrightarrow> map_option scale ss = map_option scale (scale_shift (h m)))
           \<and> (\<not> use_shift \<longrightarrow> map_option shift ss = map_option shift (scale_shift (h m)))"
proof (cases "scale_shift (h mf)")
  case None
  with assms(2) have "h' = h" by (simp add: scale_shift_stmts_def)
  then have "h' = h(m := (h m)\<lparr> scale_shift := scale_shift (h m) \<rparr>)" by simp
  then show ?thesis using None by auto
next
  case (Some fs)
  show ?thesis
  proof (cases use_scale; cases use_shift)
    assume "\<not> use_scale" "\<not> use_shift"
    with assms(2) Some have "h' = h" by (simp add: scale_shift_stmts_def skip_def seq_def)
    then have "h' = h(m := (h m)\<lparr> scale_shift := scale_shift (h m) \<rparr>)" by simp
    then show ?thesis using Some \<open>\<not> use_scale\<close> \<open>\<not> use_shift\<close>
      by (intro exI [of _ "scale_shift (h m)"]) simp
  next
    assume u: "use_scale" "\<not> use_shift"
    with assms Some obtain s where
      "scale_shift (h m) = Some s"
      "h' = h(m := (h m)\<lparr> scale_shift := Some (s\<lparr> scale := clone (scale fs) \<rparr>) \<rparr>)"
      by (auto simp: scale_shift_stmts_def skip_def seq_None set_stmt_None store_scale_def
          scale_rhs_def split: option.splits)
    then show ?thesis using Some u
      by (intro exI [of _ "Some (s\<lparr> scale := clone (scale fs) \<rparr>)"]) (simp add: scale_rhs_def)
  next
    assume u: "\<not> use_scale" "use_shift"
    with assms Some obtain s where
      "scale_shift (h m) = Some s"
      "h' = h(m := (h m)\<lparr> scale_shift := Some (s\<lparr> shift := clone (shift fs) \<rparr>) \<rparr>)"
      by (auto simp: scale_shift_stmts_def skip_def seq_None set_stmt_None store_shift_def
          shift_rhs_def split: option.splits)
    then show ?thesis using Some u
      by (intro exI [of _ "Some (s\<lparr> shift := clone (shift fs) \<rparr>)"]) (simp add: shift_rhs_def)
  next
    assume u: "use_scale" "use_shift"
    with assms Some obtain s where
      "scale_shift (h m) = Some s"
      "h' = h(m := (h m)\<lparr> scale_shift :=
                  Some (s\<lparr> scale := clone (scale fs), shift := clone (shift fs) \<rparr>) \<rparr>)"
      by (auto simp: scale_shift_stmts_def skip_def seq_None set_stmt_None store_scale_def
          store_shift_def scale_rhs_def shift_rhs_def split: option.splits)
    then show ?thesis using Some u
      by (intro exI [of _ "Some (s\<lparr> scale := clone (scale fs), shift := clone (shift fs) \<rparr>)"])
         (simp add: scale_rhs_def shift_rhs_def)
  qed
qed

lemma bessel_stmt_None:
  assumes "bessel_stmt m mf h = (None, h')"
  shows "\<exists>bw. h' = h(m := (h m)\<lparr> bessel_weights := bw \<rparr>)
           \<and> (if bessel_fn_class (h m) = ''BesselBasis''
               then \<exists>w. bessel_rhs (h mf) = Inr w \<and> bw = Some w
               else bw = bessel_weights (h m))"
proof (cases "bessel_fn_class (h m) = ''BesselBasis''")
  case True
  with assms show ?thesis
    by (auto simp: bessel_stmt_def set_stmt_None store_bessel_def)
next
  case False
  with assms have "h' = h" by (simp add: bessel_stmt_def)
  then have "h' = h(m := (h m)\<lparr> bessel_weights := bessel_weights (h m) \<rparr>)" by simp
  then show ?thesis using False by auto
qed

lemma lf_body_None:
  assumes ne: "m \<noteq> mf"
    and run: "lf_body L m mf n load_readout use_shift use_scale max_L h = (None, h')"
  shows "\<exists>w bw bs ps rs ss.
           h' = h(m := (h m)\<lparr> node_embedding_weight := w, bessel_weights := bw,
                     interactions := bs, products := ps, readouts := rs, scale_shift := ss \<rparr>)
         \<and> node_embedding_rhs L (h mf) = Inr w
         \<and> (if bessel_fn_class (h m) = ''BesselBasis''
             then \<exists>x. bessel_rhs (h mf) = Inr x \<and> bw = Some x
             else bw = bessel_weights (h m))
         \<and> length bs = length (interactions (h m)) \<and> n \<le> length bs
         \<and> (\<forall>i<n. interaction_copied L (h mf) i (interactions (h m) ! i) (bs ! i))
         \<and> (\<forall>i. n \<le> i \<longrightarrow> bs ! i = interactions (h m) ! i)
         \<and> length ps = length (products (h m)) \<and> 2 \<le> length ps
         \<and> product_copied L (h mf) 0 (nat (max_L + 1)) (products (h m) ! 0) (ps ! 0)
         \<and> product_copied L (h mf) 1 1 (products (h m) ! 1) (ps ! 1)
         \<and> (if load_readout
             then \<exists>w0 w1 w2. readout_linear_rhs (h mf) = Inr w0
                    \<and> readout_linear_1_rhs (h mf) = Inr w1
                    \<and> readout_linear_2_rhs (h mf) = Inr w2
                    \<and> rs ! 0 = LinearReadoutBlock w0
                    \<and> rs ! 1 = NonLinearReadoutBlock w1 w2
             else rs = readouts (h m))
         \<and> (scale_shift (h mf) = None \<longrightarrow> ss = scale_shift (h m))
         \<and> (scale_shift (h mf) \<noteq> None \<and> use_scale \<longrightarrow>
              (\<exists>s. ss = Some s \<and> scale_rhs (h mf) = Inr (scale s)))
         \<and> (scale_shift (h mf) \<noteq> None \<and> use_shift \<longrightarrow>
              (\<exists>s. ss = Some s \<and> shift_rhs (h mf) = Inr (shift s)))
         \<and> (\<not> use_scale \<longrightarrow> map_option scale ss = map_option scale (scale_shift (h m)))
         \<and> (\<not> use_shift \<longrightarrow> map_option shift ss = map_option shift (scale_shift (h m)))"
proof -
  from run obtain h1 h2 h3 h4 h5 where
    s1: "node_embedding_stmt L m mf h = (None, h1)"
    and s2: "bessel_stmt m mf h1 = (None, h2)"
    and s3: "for_range [0..<n] (interaction_body L m mf) h2 = (None, h3)"
    and s4: "for_range [0..<2] (product_body L m mf max_L) h3 = (None, h4)"
    and s5: "readout_stmts m mf load_readout h4 = (None, h5)"
    and s6: "scale_shift_stmts m mf use_scale use_shift h5 = (None, h')"
    unfolding lf_body_def seq_None by (elim exE conjE) (rule that)
  from s1 obtain w where
    w: "node_embedding_rhs L (h mf) = Inr w"
    "h1 = h(m := (h m)\<lparr> node_embedding_weight := w \<rparr>)"
    by (auto simp: node_embedding_stmt_def set_stmt_None store_node_embedding_def)
  have f1: "h1 mf = h mf" using w(2) ne by simp
  from bessel_stmt_None [OF s2] obtain bw where
    bw: "h2 = h1(m := (h1 m)\<lparr> bessel_weights := bw \<rparr>)"
    "if bessel_fn_class (h1 m) = ''BesselBasis''
     then \<exists>x. bessel_rhs (h1 mf) = Inr x \<and> bw = Some x
     else bw = bessel_weights (h1 m)"
    by (elim exE conjE) (rule that)
  have f2: "h2 mf = h mf" using bw(1) f1 ne by simp
  from interaction_loop_None [OF ne s3] obtain bs where
    bs: "h3 = h2(m := (h2 m)\<lparr> interactions := bs \<rparr>)"
    "length bs = length (interactions (h2 m))" "n \<le> length bs"
    "\<forall>i<n. interaction_copied L (h2 mf) i (interactions (h2 m) ! i) (bs ! i)"
    "\<forall>i. n \<le> i \<longrightarrow> bs ! i = interactions (h2 m) ! i"
    by (elim exE conjE) (rule that)
  have f3: "h3 mf = h mf" using bs(1) f2 ne by simp
  from product_loop_None [OF ne s4] obtain ps where
    ps: "h4 = h3(m := (h3 m)\<lparr> products := ps \<rparr>)"
    "length ps = length (products (h3 m))" "2 \<le> length ps"
    "product_copied L (h3 mf) 0 (nat (max_L + 1)) (products (h3 m) ! 0) (ps ! 0)"
    "product_copied L (h3 mf) 1 1 (products (h3 m) ! 1) (ps ! 1)"
    by (elim exE conjE) (rule that)
  have f4: "h4 mf = h mf" using ps(1) f3 ne by simp
  from readout_stmts_None [OF ne s5] obtain rs where
    rs: "h5 = h4(m := (h4 m)\<lparr> readouts := rs \<rparr>)"
    "if load_readout
     then \<exists>w0 w1 w2. readout_linear_rhs (h4 mf) = Inr w0
            \<and> readout_linear_1_rhs (h4 mf) = Inr w1
            \<and> readout_linear_2_rhs (h4 mf) = Inr w2
            \<and> rs ! 0 = LinearReadoutBlock w0
            \<and> rs ! 1 = NonLinearReadoutBlock w1 w2
     else rs = readouts (h4 m)"
    by (elim exE conjE) (rule that)
  have f5: "h5 mf = h mf" using rs(1) f4 ne by simp
  from scale_shift_stmts_None [OF ne s6] obtain ss where
    ss: "h' = h5(m := (h5 m)\<lparr> scale_shift := ss \<rparr>)"
    "scale_shift (h5 mf) = None \<longrightarrow> ss = scale_shift (h5 m)"
    "scale_shift (h5 mf) \<noteq> None \<and> use_scale \<longrightarrow>
       (\<exists>s. ss = Some s \<and> scale_rhs (h5 mf) = Inr (scale s))"
    "scale_shift (h5 mf) \<noteq> None \<and> use_shift \<longrightarrow>
       (\<exists>s. ss = Some s \<and> shift_rhs (h5 mf) = Inr (shift s))"
    "\<not> use_scale \<longrightarrow> map_option scale ss = map_option scale (scale_shift (h5 m))"
    "\<not> use_shift \<longrightarrow> map_option shift ss = map_option shift (scale_shift (h5 m))"
    by (elim exE conjE) (rule that)
  have t1: "h1 m = (h m)\<lparr> node_embedding_weight := w \<rparr>" using w(2) by simp
  have t2: "h2 m = (h m)\<lparr> node_embedding_weight := w, bessel_weights := bw \<rparr>"
    using bw(1) t1 by simp
  have t3: "h3 m = (h m)\<lparr> node_embedding_weight := w, bessel_weights := bw,
                     interactions := bs \<rparr>"
    using bs(1) t2 by simp
  have t4: "h4 m = (h m)\<lparr> node_embedding_weight := w, bessel_weights := bw,
                     interactions := bs, products := ps \<rparr>"
    using ps(1) t3 by simp
  have t5: "h5 m = (h m)\<lparr> node_embedding_weight := w, bessel_weights := bw,
                     interactions := bs, products := ps, readouts := rs \<rparr>"
    using rs(1) t4 by simp
  have final: "h' = h(m := (h m)\<lparr> node_embedding_weight := w, bessel_weights := bw,
                     interactions := bs, products := ps, readouts := rs, scale_shift := ss \<rparr>)"
    using ss(1) rs(1) ps(1) bs(1) bw(1) w(2) by simp
  have c2: "if bessel_fn_class (h m) = ''BesselBasis''
             then \<exists>x. bessel_rhs (h mf) = Inr x \<and> bw = Some x
             else bw = bessel_weights (h m)"
    using bw(2) unfolding f1 t1 by (cases "bessel_fn_class (h m) = ''BesselBasis''") auto
  have c3: "length bs = length (interactions (h m))"
    "\<forall>i<n. interaction_copied L (h mf) i (interactions (h m) ! i) (bs ! i)"
    "\<forall>i. n \<le> i \<longrightarrow> bs ! i = interactions (h m) ! i"
    using bs(2,4,5) unfolding f2 t2 by simp_all
  have c4: "length ps = length (products (h m))"
    "product_copied L (h mf) 0 (nat (max_L + 1)) (products (h m) ! 0) (ps ! 0)"
    "product_copied L (h mf) 1 1 (products (h m) ! 1) (ps ! 1)"
    using ps(2,4,5) unfolding f3 t3 by simp_all
  have c5: "if load_readout
     then \<exists>w0 w1 w2. readout_linear_rhs (h mf) = Inr w0
            \<and> readout_linear_1_rhs (h mf) = Inr w1
            \<and> readout_linear_2_rhs (h mf) = Inr w2
            \<and> rs ! 0 = LinearReadoutBlock w0
            \<and> rs ! 1 = NonLinearReadoutBlock w1 w2
     else rs = readouts (h m)"
    using rs(2) unfolding f4 t4 by (cases load_readout) auto
  have c6: "scale_shift (h mf) = None \<longrightarrow> ss = scale_shift (h m)"
    "scale_shift (h mf) \<noteq> None \<and> use_scale \<longrightarrow>
       (\<exists>s. ss = Some s \<and> scale_rhs (h mf) = Inr (scale s))"
    "scale_shift (h mf) \<noteq> None \<and> use_shift \<longrightarrow>
       (\<exists>s. ss = Some s \<and> shift_rhs (h mf) = Inr (shift s))"
    "\<not> use_scale \<longrightarrow> map_option scale ss = map_option scale (scale_shift (h m))"
    "\<not> use_shift \<longrightarrow> map_option shift ss = map_option shift (scale_shift (h m))"
    using ss(2-6) unfolding f5 t5 by simp_all
  show ?thesis
    apply (rule exI [of _ w], rule exI [of _ bw], rule exI [of _ bs], rule exI [of _ ps],
        rule exI [of _ rs], rule exI [of _ ss])
    apply (intro conjI)
    apply (rule final w(1) c2 c3 bs(3) c4 ps(3) c5 c6)+
    done
qed

section \<open>load_foundations: the node embedding\<close>

lemma load_foundations_Inr:
  assumes "load_foundations h m mf table load_readout use_shift use_scale max_L = (Inr r, h')"
  shows "r = m \<and> r_max (h mf) = r_max (h m)
       \<and> (\<exists>L. compute_locals (h m) (h mf) table = Inr L
              \<and> lf_body L m mf (num_interactions (h m)) load_readout use_shift use_scale
                   max_L h = (None, h'))"
  using assms
  by (auto simp: load_foundations_def split: if_splits sum.splits prod.splits option.splits)

lemma collect_Inr:
  "collect f xs = Inr ys \<Longrightarrow>
     length ys = length xs \<and> (\<forall>i<length xs. f (xs ! i) = Inr (ys ! i))"
proof (induction xs arbitrary: ys)
  case Nil
  then show ?case by simp
next
  case (Cons x xs)
  from Cons.prems obtain y ys' where
    y: "f x = Inr y" "collect f xs = Inr ys'" "ys = y # ys'"
    by (auto simp: and_then_Inr)
  from Cons.IH [OF y(2)] have ih: "length ys' = length xs"
    "\<forall>i<length xs. f (xs ! i) = Inr (ys' ! i)" by auto
  show ?case
  proof (intro conjI allI impI)
    show "length ys = length (x # xs)" using ih(1) y(3) by simp
    fix i assume "i < length (x # xs)"
    then show "f ((x # xs) ! i) = Inr (ys ! i)"
      using y(1,3) ih(2) by (cases i) auto
  qed
qed

lemma compute_locals_Inr:
  assumes "compute_locals t f table = Inr L"
  shows "num_species_foundations L = length (atomic_numbers f)"
    and "0 < length (atomic_numbers f)"
    and "collect (z_to_index (AtomicNumberTable (atomic_numbers f))) (zs table)
           = Inr (indices_weights L)"
    and "num_species L = length (zs table)"
    and "length (indices_weights L) = length (zs table)"
    and "num_radial L = radial_out_dim t"
    and "max_ell L = lmax t"
    and "shape (node_embedding_weight f) \<noteq> []"
    and "num_channels_foundation L
           = hd (shape (node_embedding_weight f)) div length (atomic_numbers f)"
proof -
  from assms obtain s0 rest idx where
    sh: "shape (node_embedding_weight f) = s0 # rest"
    and nz: "length (atomic_numbers f) \<noteq> 0"
    and c: "collect (z_to_index (AtomicNumberTable (atomic_numbers f))) (zs table) = Inr idx"
    and L: "L = \<lparr> num_species_foundations = length (atomic_numbers f),
           num_channels_foundation = s0 div length (atomic_numbers f), indices_weights = idx,
           num_radial = radial_out_dim t, num_species = length idx, max_ell = lmax t \<rparr>"
    by (cases "shape (node_embedding_weight f)")
       (auto simp: compute_locals_def Let_def and_then_Inr AtomicNumberTable_def
        split: if_splits)
  from collect_Inr [OF c] have l: "length idx = length (zs table)" by simp
  show "num_species_foundations L = length (atomic_numbers f)" using L by simp
  show "0 < length (atomic_numbers f)" using nz by simp
  show "collect (z_to_index (AtomicNumberTable (atomic_numbers f))) (zs table)
           = Inr (indices_weights L)" using c L by simp
  show "num_species L = length (zs table)" using L l by simp
  show "length (indices_weights L) = length (zs table)" using L l by simp
  show "num_radial L = radial_out_dim t" using L by simp
  show "max_ell L = lmax t" using L by simp
  show "shape (node_embedding_weight f) \<noteq> []" using sh by simp
  show "num_channels_foundation L
           = hd (shape (node_embedding_weight f)) div length (atomic_numbers f)"
    using L sh by simp
qed

lemma select_blocks_rows:
  "select_blocks 1 n c idx xs = concat (map (\<lambda>i. take c (drop (i * c) xs)) idx)"
  by (simp add: select_blocks_def)

lemma per_species_blocks_nth:
  "i < n \<Longrightarrow> per_species_blocks n xs ! i
     = take (length xs div n) (drop (i * (length xs div n)) xs)"
  by (simp add: per_species_blocks_def)

lemma node_embedding_rhs_Inr:
  assumes "node_embedding_rhs L f = Inr w"
  shows "num_species_foundations L \<noteq> 0"
    and "numel (node_embedding_weight f) mod num_species_foundations L = 0"
    and "num_species L \<noteq> 0"
    and "\<forall>i \<in> set (indices_weights L). i < num_species_foundations L"
    and "w = \<lparr> shape = [length (indices_weights L)
                         * (numel (node_embedding_weight f) div num_species_foundations L)],
              data = map (\<lambda>x. x / sqrt (real (num_species_foundations L)
                                         / real (num_species L)))
                       (select_blocks 1 (num_species_foundations L)
                          (numel (node_embedding_weight f) div num_species_foundations L)
                          (indices_weights L) (data (node_embedding_weight f))) \<rparr>"
  using assms
  by (auto simp: node_embedding_rhs_def and_then_Inr view_rows_def index_dim_def
      rescale_factor_def div_scalar_def clone_def flatten_def numel_def list_ex_iff
      split: if_splits)

lemma spec_blocks_select:
  assumes "\<forall>i \<in> set idx. i < n" and "c = length xs div n"
  shows "concat (map (\<lambda>i. per_species_blocks n xs ! i) idx) = select_blocks 1 n c idx xs"
proof -
  have "map (\<lambda>i. per_species_blocks n xs ! i) idx = map (\<lambda>i. take c (drop (i * c) xs)) idx"
    using assms by (intro map_cong) (simp_all add: per_species_blocks_nth)
  then show ?thesis unfolding select_blocks_rows by (rule arg_cong [where f = concat])
qed

text \<open>
  Claim C1 has the re-indexed blocks "rescaled by"
  \<open>sqrt (foundation_species_count / target_species_count)\<close>. The function divides
  by that factor: on the concrete pair with the target table 8, 1 (three foundation
  species, two target species) the call returns, the entries of the target's weight
  are the block entries divided by the square root of 3/2, and they are not the
  entries scaled by the square root of 3/2.
\<close>

theorem node_embedding_not_scaled_up:
  "fst (load_foundations
          (example_heap (example_target ''BesselBasis'' ''RealAgnosticResidualInteractionBlock'')
             example_foundation)
          0 1 (AtomicNumberTable [8, 1]) True True True 0) = Inr 0
   \<and> data (node_embedding_weight
        (snd (load_foundations
          (example_heap (example_target ''BesselBasis'' ''RealAgnosticResidualInteractionBlock'')
             example_foundation)
          0 1 (AtomicNumberTable [8, 1]) True True True 0) 0))
      = [5 / sqrt (3 / 2), 6 / sqrt (3 / 2), 1 / sqrt (3 / 2), 2 / sqrt (3 / 2)]
   \<and> spec_node_embedding 3 2 [2, 0] [1, 2, 3, 4, 5, 6]
      = [5 * sqrt (3 / 2), 6 * sqrt (3 / 2), 1 * sqrt (3 / 2), 2 * sqrt (3 / 2)]
   \<and> data (node_embedding_weight
        (snd (load_foundations
          (example_heap (example_target ''BesselBasis'' ''RealAgnosticResidualInteractionBlock'')
             example_foundation)
          0 1 (AtomicNumberTable [8, 1]) True True True 0) 0))
      \<noteq> spec_node_embedding 3 2 [2, 0] [1, 2, 3, 4, 5, 6]"
proof -
  have ret: "fst (load_foundations
          (example_heap (example_target ''BesselBasis'' ''RealAgnosticResidualInteractionBlock'')
             example_foundation)
          0 1 (AtomicNumberTable [8, 1]) True True True 0) = Inr 0"
    by (rule example_run_returns)
  have val: "data (node_embedding_weight
        (snd (load_foundations
          (example_heap (example_target ''BesselBasis'' ''RealAgnosticResidualInteractionBlock'')
             example_foundation)
          0 1 (AtomicNumberTable [8, 1]) True True True 0) 0))
      = [5 / sqrt (3 / 2), 6 / sqrt (3 / 2), 1 / sqrt (3 / 2), 2 / sqrt (3 / 2)]"
    by (simp add: lf_defs)
  have spec: "spec_node_embedding 3 2 [2, 0] [1, 2, 3, 4, 5, 6]
      = [5 * sqrt (3 / 2), 6 * sqrt (3 / 2), 1 * sqrt (3 / 2), 2 * sqrt (3 / 2)]"
    by (simp add: spec_node_embedding_def reindex_blocks_def per_species_blocks_def
        upt_rec [of 0 3] upt_rec [of 1 3] upt_rec [of 2 3])
  have sq: "sqrt (3 / 2) * sqrt (3 / 2) = (3 / 2 :: real)" by simp
  have pos: "0 < sqrt (3 / 2 :: real)" by simp
  have "5 / sqrt (3 / 2) \<noteq> 5 * sqrt (3 / 2 :: real)"
  proof
    assume "5 / sqrt (3 / 2) = 5 * sqrt (3 / 2 :: real)"
    then have "5 = 5 * (sqrt (3 / 2) * sqrt (3 / 2 :: real))"
      using pos by (simp add: field_simps)
    then show False unfolding sq by simp
  qed
  then have "[5 / sqrt (3 / 2), 6 / sqrt (3 / 2), 1 / sqrt (3 / 2), 2 / sqrt (3 / 2)]
        \<noteq> [5 * sqrt (3 / 2), 6 * sqrt (3 / 2), 1 * sqrt (3 / 2), 2 * sqrt (3 / 2 :: real)]"
    by simp
  then have ne: "data (node_embedding_weight
        (snd (load_foundations
          (example_heap (example_target ''BesselBasis'' ''RealAgnosticResidualInteractionBlock'')
             example_foundation)
          0 1 (AtomicNumberTable [8, 1]) True True True 0) 0))
      \<noteq> spec_node_embedding 3 2 [2, 0] [1, 2, 3, 4, 5, 6]"
    unfolding val spec .
  show ?thesis using ret val spec ne by (intro conjI)
qed

text \<open>
  Claim C1, amended. When \<^verbatim>\<open>load_foundations\<close> returns, the node embedding weight of
  the target is the foundation's flat tensor cut into per-species blocks, the blocks
  listed in the order of the target table through the target-to-foundation index
  mapping, flattened, with every entry divided by
  \<open>sqrt (foundation_species_count / target_species_count)\<close>.
\<close>

theorem node_embedding_transplanted:
  assumes "model \<noteq> model_foundations"
    and "load_foundations h model model_foundations table load_readout use_shift use_scale max_L
           = (Inr r, h')"
    and "wf_tensor (node_embedding_weight (h model_foundations))"
  shows "\<exists>idx. collect (z_to_index (AtomicNumberTable (atomic_numbers (h model_foundations))))
                 (zs table) = Inr idx
           \<and> node_embedding_weight (h' model)
               = \<lparr> shape = [length (zs table)
                             * (numel (node_embedding_weight (h model_foundations))
                                div length (atomic_numbers (h model_foundations)))],
                   data = map (\<lambda>x. x / sqrt (real (length (atomic_numbers (h model_foundations)))
                                            / real (length (zs table))))
                            (reindex_blocks (length (atomic_numbers (h model_foundations))) idx
                               (data (node_embedding_weight (h model_foundations)))) \<rparr>"
proof -
  from load_foundations_Inr [OF assms(2)] obtain L where
    L: "compute_locals (h model) (h model_foundations) table = Inr L"
    and run: "lf_body L model model_foundations (num_interactions (h model)) load_readout
                use_shift use_scale max_L h = (None, h')"
    by blast
  note loc = compute_locals_Inr [OF L]
  from lf_body_None [OF assms(1) run] obtain w where
    w: "node_embedding_rhs L (h model_foundations) = Inr w"
    and "node_embedding_weight (h' model) = w"
    by auto
  note rhs = node_embedding_rhs_Inr [OF w]
  have len: "length (data (node_embedding_weight (h model_foundations)))
               = numel (node_embedding_weight (h model_foundations))"
    using assms(3) by (simp add: wf_tensor_def)
  have "concat (map (\<lambda>i. per_species_blocks (num_species_foundations L)
                           (data (node_embedding_weight (h model_foundations))) ! i)
                 (indices_weights L))
          = select_blocks 1 (num_species_foundations L)
              (numel (node_embedding_weight (h model_foundations))
                 div num_species_foundations L)
              (indices_weights L) (data (node_embedding_weight (h model_foundations)))"
    by (rule spec_blocks_select) (use rhs(4) len in simp_all)
  then have "w = \<lparr> shape = [length (zs table)
                             * (numel (node_embedding_weight (h model_foundations))
                                div length (atomic_numbers (h model_foundations)))],
                   data = map (\<lambda>x. x / sqrt (real (length (atomic_numbers (h model_foundations)))
                                            / real (length (zs table))))
                            (reindex_blocks (length (atomic_numbers (h model_foundations)))
                               (indices_weights L)
                               (data (node_embedding_weight (h model_foundations)))) \<rparr>"
    using rhs(5) loc(1,4,5) by (simp add: reindex_blocks_def)
  with loc(3) \<open>node_embedding_weight (h' model) = w\<close> show ?thesis by blast
qed

text \<open>
  The amended claim on the concrete pair with the target table 8, 1: the index
  mapping is 2, 0, and the blocks 5, 6 and 1, 2 are divided by the square root of
  3/2.
\<close>

theorem node_embedding_transplanted_witness:
  "(0::nat) \<noteq> 1
   \<and> fst (load_foundations
          (example_heap (example_target ''BesselBasis'' ''RealAgnosticResidualInteractionBlock'')
             example_foundation)
          0 1 (AtomicNumberTable [8, 1]) True True True 0) = Inr 0
   \<and> wf_tensor (node_embedding_weight example_foundation)
   \<and> node_embedding_weight
        (snd (load_foundations
          (example_heap (example_target ''BesselBasis'' ''RealAgnosticResidualInteractionBlock'')
             example_foundation)
          0 1 (AtomicNumberTable [8, 1]) True True True 0) 0)
      = \<lparr> shape = [4],
          data = map (\<lambda>x. x / sqrt (3 / 2)) (reindex_blocks 3 [2, 0] [1, 2, 3, 4, 5, 6]) \<rparr>
   \<and> reindex_blocks 3 [2, 0] [1, 2, 3, 4, 5, 6] = [5, 6, 1, 2 :: real]"
proof -
  define H where "H = example_heap (example_target ''BesselBasis''
                        ''RealAgnosticResidualInteractionBlock'') example_foundation"
  define R where "R = load_foundations H 0 1 (AtomicNumberTable [8, 1]) True True True 0"
  have ret: "fst R = Inr 0" unfolding R_def H_def by (rule example_run_returns)
  then have run: "load_foundations H 0 1 (AtomicNumberTable [8, 1]) True True True 0
                    = (Inr 0, snd R)"
    unfolding R_def by (metis prod.collapse)
  have f: "H 1 = example_foundation" by (simp add: H_def example_heap_def)
  have wf: "wf_tensor (node_embedding_weight (H 1))"
    unfolding f by (simp add: wf_tensor_def numel_def example_foundation_def vec_def)
  have idx: "collect (z_to_index (AtomicNumberTable (atomic_numbers (H 1))))
               (zs (AtomicNumberTable [8, 1])) = Inr [2, 0]"
    unfolding f
    by (simp add: example_foundation_def AtomicNumberTable_def z_to_index_def and_then_def)
  have ne: "(0::nat) \<noteq> 1" by simp
  from node_embedding_transplanted [OF ne run wf] idx
  have "node_embedding_weight (snd R 0)
          = \<lparr> shape = [length (zs (AtomicNumberTable [8, 1]))
                        * (numel (node_embedding_weight (H 1))
                           div length (atomic_numbers (H 1)))],
              data = map (\<lambda>x. x / sqrt (real (length (atomic_numbers (H 1)))
                                       / real (length (zs (AtomicNumberTable [8, 1])))))
                       (reindex_blocks (length (atomic_numbers (H 1))) [2, 0]
                          (data (node_embedding_weight (H 1)))) \<rparr>"
    by auto
  moreover have "length (zs (AtomicNumberTable [8, 1])) = 2"
    "length (atomic_numbers (H 1)) = 3"
    "numel (node_embedding_weight (H 1)) = 6"
    "data (node_embedding_weight (H 1)) = [1, 2, 3, 4, 5, 6]"
    unfolding f
    by (simp_all add: example_foundation_def AtomicNumberTable_def vec_def numel_def)
  ultimately have w: "node_embedding_weight (snd R 0)
          = \<lparr> shape = [4],
              data = map (\<lambda>x. x / sqrt (3 / 2)) (reindex_blocks 3 [2, 0] [1, 2, 3, 4, 5, 6]) \<rparr>"
    by simp
  have v: "reindex_blocks 3 [2, 0] [1, 2, 3, 4, 5, 6] = [5, 6, 1, 2 :: real]"
    by (simp add: reindex_blocks_def per_species_blocks_def upt_rec [of 0 3]
        upt_rec [of 1 3] upt_rec [of 2 3])
  have wf': "wf_tensor (node_embedding_weight example_foundation)"
    using wf unfolding f .
  show ?thesis
    using ne ret wf' w v unfolding R_def H_def by (intro conjI)
qed

section \<open>load_foundations: the class-name branches\<close>

lemma set_stmt_keeps_field:
  assumes "\<And>v t'. store v (h m) = Inr t' \<Longrightarrow> \<phi> t' = \<phi> (h m)"
  shows "\<phi> (snd (set_stmt m mf rhs store h) m) = \<phi> (h m)"
  using assms by (auto simp: set_stmt_def split: sum.splits)

text \<open>
  An observation \<open>\<phi>\<close> of the target that no assignment to the listed attributes
  changes is kept by every statement but the one on the radial basis, whatever the
  outcome.
\<close>

lemma interaction_body_keeps:
  assumes "\<And>t x. \<phi> (t\<lparr> interactions := x \<rparr>) = \<phi> t"
  shows "\<phi> (snd (interaction_body L m mf i h) m) = \<phi> (h m)"
proof -
  have st: "\<phi> (snd (set_stmt m mf rhs (store_interaction i g) h) m) = \<phi> (h m)"
    for rhs :: "mace_model \<Rightarrow> py_error + 'v" and g h
    by (rule set_stmt_keeps_field) (auto simp: store_interaction_Inr assms)
  have sk: "\<phi> (snd (skip_tp_stmt L m mf i h) m) = \<phi> (h m)" for h
    by (simp add: skip_tp_stmt_def st split: sum.splits)
  show ?thesis
    unfolding interaction_body_def
    by (intro seq_keeps [where \<psi> = "\<lambda>h. \<phi> (h m)"]
        for_range_keeps [where \<psi> = "\<lambda>h. \<phi> (h m)"] st sk)
qed

lemma product_body_keeps:
  assumes "\<And>t x. \<phi> (t\<lparr> products := x \<rparr>) = \<phi> t"
  shows "\<phi> (snd (product_body L m mf max_L i h) m) = \<phi> (h m)"
proof -
  have st: "\<phi> (snd (set_stmt m mf rhs (store_product i g) h) m) = \<phi> (h m)"
    for rhs :: "mace_model \<Rightarrow> py_error + 'v" and g h
    by (rule set_stmt_keeps_field) (auto simp: store_product_Inr assms)
  show ?thesis
    unfolding product_body_def contraction_body_def Let_def
    by (intro seq_keeps [where \<psi> = "\<lambda>h. \<phi> (h m)"]
        for_range_keeps [where \<psi> = "\<lambda>h. \<phi> (h m)"] st)
qed

lemma readout_stmts_keeps:
  assumes "\<And>t x. \<phi> (t\<lparr> readouts := x \<rparr>) = \<phi> t"
  shows "\<phi> (snd (readout_stmts m mf load_readout h) m) = \<phi> (h m)"
proof (cases load_readout)
  case False
  then show ?thesis by (simp add: readout_stmts_def skip_def)
next
  case True
  have 0: "\<phi> (snd (set_stmt m mf rhs store_readout_linear h) m) = \<phi> (h m)" for rhs h
    by (rule set_stmt_keeps_field) (auto simp: store_readout_linear_Inr assms)
  have 1: "\<phi> (snd (set_stmt m mf rhs store_readout_linear_1 h) m) = \<phi> (h m)" for rhs h
    by (rule set_stmt_keeps_field) (auto simp: store_readout_linear_1_Inr assms)
  have 2: "\<phi> (snd (set_stmt m mf rhs store_readout_linear_2 h) m) = \<phi> (h m)" for rhs h
    by (rule set_stmt_keeps_field) (auto simp: store_readout_linear_2_Inr assms)
  show ?thesis
    unfolding readout_stmts_def using True
    by (simp only: if_True) (intro seq_keeps [where \<psi> = "\<lambda>h. \<phi> (h m)"] 0 1 2)
qed

lemma scale_shift_stmts_keeps:
  assumes "\<And>t x. \<phi> (t\<lparr> scale_shift := x \<rparr>) = \<phi> t"
  shows "\<phi> (snd (scale_shift_stmts m mf use_scale use_shift h) m) = \<phi> (h m)"
proof -
  have 0: "\<phi> (snd (set_stmt m mf rhs store_scale h) m) = \<phi> (h m)" for rhs h
    by (rule set_stmt_keeps_field) (auto simp: store_scale_def assms split: option.splits)
  have 1: "\<phi> (snd (set_stmt m mf rhs store_shift h) m) = \<phi> (h m)" for rhs h
    by (rule set_stmt_keeps_field) (auto simp: store_shift_def assms split: option.splits)
  have sk: "\<phi> (snd (skip h) m) = \<phi> (h m)" for h by (simp add: skip_def)
  have a: "\<phi> (snd ((if use_scale then set_stmt m mf scale_rhs store_scale else skip) h) m)
             = \<phi> (h m)" for h
    by (cases use_scale) (simp_all add: 0 sk)
  have b: "\<phi> (snd ((if use_shift then set_stmt m mf shift_rhs store_shift else skip) h) m)
             = \<phi> (h m)" for h
    by (cases use_shift) (simp_all add: 1 sk)
  show ?thesis
  proof (cases "scale_shift (h mf)")
    case None
    then show ?thesis by (simp add: scale_shift_stmts_def)
  next
    case (Some s)
    then show ?thesis
      unfolding scale_shift_stmts_def
      by (simp only: option.case) (intro seq_keeps [where \<psi> = "\<lambda>h. \<phi> (h m)"] a b)
  qed
qed

lemma lf_body_keeps:
  assumes "\<And>t x. \<phi> (t\<lparr> node_embedding_weight := x \<rparr>) = \<phi> t"
    and "\<And>h. \<phi> (snd (bessel_stmt m mf h) m) = \<phi> (h m)"
    and "\<And>t x. \<phi> (t\<lparr> interactions := x \<rparr>) = \<phi> t"
    and "\<And>t x. \<phi> (t\<lparr> products := x \<rparr>) = \<phi> t"
    and "\<And>t x. \<phi> (t\<lparr> readouts := x \<rparr>) = \<phi> t"
    and "\<And>t x. \<phi> (t\<lparr> scale_shift := x \<rparr>) = \<phi> t"
  shows "\<phi> (snd (lf_body L m mf n load_readout use_shift use_scale max_L h) m) = \<phi> (h m)"
proof -
  have nd: "\<phi> (snd (node_embedding_stmt L m mf h) m) = \<phi> (h m)" for h
    unfolding node_embedding_stmt_def
    by (rule set_stmt_keeps_field) (auto simp: store_node_embedding_def assms(1))
  show ?thesis
    unfolding lf_body_def
    by (intro seq_keeps [where \<psi> = "\<lambda>h. \<phi> (h m)"]
        for_range_keeps [where \<psi> = "\<lambda>h. \<phi> (h m)"] nd assms(2)
        interaction_body_keeps product_body_keeps readout_stmts_keeps
        scale_shift_stmts_keeps assms(3-6))
qed

lemma load_foundations_keeps:
  assumes "\<And>L h. \<phi> (snd (lf_body L m mf (num_interactions (h m)) load_readout use_shift
                        use_scale max_L h) m) = \<phi> (h m)"
  shows "\<phi> (snd (load_foundations h m mf table load_readout use_shift use_scale max_L) m)
           = \<phi> (h m)"
proof (cases "compute_locals (h m) (h mf) table")
  case (Inl e)
  then show ?thesis by (simp add: load_foundations_def)
next
  case (Inr L)
  obtain e h' where b: "lf_body L m mf (num_interactions (h m)) load_readout use_shift
                           use_scale max_L h = (e, h')"
    by (cases "lf_body L m mf (num_interactions (h m)) load_readout use_shift
                 use_scale max_L h") auto
  have "\<phi> (h' m) = \<phi> (h m)" using assms [of L h] b by simp
  then show ?thesis
    using Inr b by (cases e) (simp_all add: load_foundations_def)
qed

lemma unsupported_basis_keeps_weights:
  "(if bessel_fn_class
         (snd (load_foundations h m mf table load_readout use_shift use_scale max_L) m)
        = ''BesselBasis'' then None
    else Some (bessel_weights
         (snd (load_foundations h m mf table load_readout use_shift use_scale max_L) m)))
   = (if bessel_fn_class (h m) = ''BesselBasis'' then None else Some (bessel_weights (h m)))"
proof (rule load_foundations_keeps [where \<phi> = "\<lambda>t. if bessel_fn_class t = ''BesselBasis''
         then None else Some (bessel_weights t)"], rule lf_body_keeps)
  fix h :: heap
  show "(if bessel_fn_class (snd (bessel_stmt m mf h) m) = ''BesselBasis'' then None
         else Some (bessel_weights (snd (bessel_stmt m mf h) m)))
        = (if bessel_fn_class (h m) = ''BesselBasis'' then None
           else Some (bessel_weights (h m)))"
    by (auto simp: bessel_stmt_def set_stmt_def store_bessel_def split: sum.splits)
qed simp_all

text \<open>
  Claim C4, amended. A radial basis whose class is not named \<^verbatim>\<open>BesselBasis\<close> is
  skipped silently: the statement on the radial weights does nothing and raises
  nothing, and after the call, whatever its outcome, the target has the radial
  weights it had. Interaction blocks are never skipped: for a block of any class
  other than \<^verbatim>\<open>RealAgnosticResidualInteractionBlock\<close> a returning call has assigned
  to \<^verbatim>\<open>skip_tp.weight\<close> the foundation's tensor, reshaped to (channels,
  \<open>max_ell + 1\<close>, foundation species, channels), re-indexed, flattened and rescaled.
\<close>

theorem class_name_branches:
  "(bessel_fn_class (h model) \<noteq> ''BesselBasis'' \<longrightarrow>
      bessel_stmt model model_foundations h = (None, h)
      \<and> bessel_weights
          (snd (load_foundations h model model_foundations table load_readout use_shift
                  use_scale max_L) model)
        = bessel_weights (h model))
   \<and> (model \<noteq> model_foundations
       \<and> load_foundations h model model_foundations table load_readout use_shift use_scale
            max_L = (Inr model, h')
       \<and> compute_locals (h model) (h model_foundations) table = Inr L
       \<and> i < num_interactions (h model)
       \<and> class_name (interactions (h model) ! i) \<noteq> ''RealAgnosticResidualInteractionBlock''
       \<longrightarrow> skip_tp_else_rhs L i (h model_foundations)
             = Inr (skip_tp_weight (interactions (h' model) ! i)))"
proof (intro conjI impI)
  assume c: "bessel_fn_class (h model) \<noteq> ''BesselBasis''"
  then show "bessel_stmt model model_foundations h = (None, h)"
    by (simp add: bessel_stmt_def)
  from unsupported_basis_keeps_weights
         [of h model model_foundations table load_readout use_shift use_scale max_L] c
  show "bessel_weights
          (snd (load_foundations h model model_foundations table load_readout use_shift
                  use_scale max_L) model)
        = bessel_weights (h model)"
    by (simp split: if_splits)
next
  assume a: "model \<noteq> model_foundations
       \<and> load_foundations h model model_foundations table load_readout use_shift use_scale
            max_L = (Inr model, h')
       \<and> compute_locals (h model) (h model_foundations) table = Inr L
       \<and> i < num_interactions (h model)
       \<and> class_name (interactions (h model) ! i) \<noteq> ''RealAgnosticResidualInteractionBlock''"
  then have ne: "model \<noteq> model_foundations"
    and run: "load_foundations h model model_foundations table load_readout use_shift
                use_scale max_L = (Inr model, h')"
    and L: "compute_locals (h model) (h model_foundations) table = Inr L"
    and i: "i < num_interactions (h model)"
    and c: "class_name (interactions (h model) ! i) \<noteq> ''RealAgnosticResidualInteractionBlock''"
    by simp_all
  from load_foundations_Inr [OF run] L
  have body: "lf_body L model model_foundations (num_interactions (h model)) load_readout
                use_shift use_scale max_L h = (None, h')"
    by auto
  from lf_body_None [OF ne body] obtain bs where
    bs: "interactions (h' model) = bs"
    "\<forall>k<num_interactions (h model).
        interaction_copied L (h model_foundations) k (interactions (h model) ! k) (bs ! k)"
    by auto
  from bs(2) i
  have "interaction_copied L (h model_foundations) i (interactions (h model) ! i) (bs ! i)"
    by blast
  then show "skip_tp_else_rhs L i (h model_foundations)
             = Inr (skip_tp_weight (interactions (h' model) ! i))"
    using c bs(1) by (simp add: interaction_copied_def)
qed

lemma example_else_branch_run:
  "load_foundations
     (example_heap (example_target ''GaussianBasis'' ''AgnosticNonlinearInteractionBlock'')
        example_foundation)
     0 1 (AtomicNumberTable [8, 1]) False False True 0
   = (Inr 0,
      snd (load_foundations
        (example_heap (example_target ''GaussianBasis'' ''AgnosticNonlinearInteractionBlock'')
           example_foundation)
        0 1 (AtomicNumberTable [8, 1]) False False True 0))"
proof -
  have "fst (load_foundations
     (example_heap (example_target ''GaussianBasis'' ''AgnosticNonlinearInteractionBlock'')
        example_foundation)
     0 1 (AtomicNumberTable [8, 1]) False False True 0) = Inr 0"
    by (simp add: lf_defs)
  then show ?thesis by (metis prod.collapse)
qed

text \<open>
  Claim C4 says that an interaction block of an unsupported class leaves the
  corresponding weights of the target unchanged. The function has an \<^verbatim>\<open>else\<close>
  branch for every class other than \<^verbatim>\<open>RealAgnosticResidualInteractionBlock\<close>: on the
  concrete pair with a target block of class \<^verbatim>\<open>AgnosticNonlinearInteractionBlock\<close>
  the call returns and the skip weight of the target is overwritten.
\<close>

theorem unsupported_block_is_overwritten:
  "fst (load_foundations
     (example_heap (example_target ''GaussianBasis'' ''AgnosticNonlinearInteractionBlock'')
        example_foundation)
     0 1 (AtomicNumberTable [8, 1]) False False True 0) = Inr 0
   \<and> skip_tp_weight (interactions
        (example_heap (example_target ''GaussianBasis'' ''AgnosticNonlinearInteractionBlock'')
           example_foundation 0) ! 0)
      = \<lparr> shape = [8], data = [0, 0, 0, 0, 0, 0, 0, 0] \<rparr>
   \<and> skip_tp_weight (interactions
        (snd (load_foundations
           (example_heap (example_target ''GaussianBasis'' ''AgnosticNonlinearInteractionBlock'')
              example_foundation)
           0 1 (AtomicNumberTable [8, 1]) False False True 0) 0) ! 0)
      = \<lparr> shape = [8],
          data = [5 / sqrt (3 / 2), 6 / sqrt (3 / 2), 1 / sqrt (3 / 2), 2 / sqrt (3 / 2),
                  11 / sqrt (3 / 2), 12 / sqrt (3 / 2), 7 / sqrt (3 / 2), 8 / sqrt (3 / 2)] \<rparr>
   \<and> skip_tp_weight (interactions
        (snd (load_foundations
           (example_heap (example_target ''GaussianBasis'' ''AgnosticNonlinearInteractionBlock'')
              example_foundation)
           0 1 (AtomicNumberTable [8, 1]) False False True 0) 0) ! 0)
      \<noteq> skip_tp_weight (interactions
        (example_heap (example_target ''GaussianBasis'' ''AgnosticNonlinearInteractionBlock'')
           example_foundation 0) ! 0)"
  by (simp add: lf_defs)

text \<open>
  The amended claim on the same pair: the target's basis is a \<^verbatim>\<open>GaussianBasis\<close>, its
  radial weights stay absent, and the skip weight is the value of the \<^verbatim>\<open>else\<close>
  branch.
\<close>

theorem class_name_branches_witness:
  "bessel_weights
     (snd (load_foundations
        (example_heap (example_target ''GaussianBasis'' ''AgnosticNonlinearInteractionBlock'')
           example_foundation)
        0 1 (AtomicNumberTable [8, 1]) False False True 0) 0) = None
   \<and> skip_tp_weight (interactions
        (snd (load_foundations
           (example_heap (example_target ''GaussianBasis'' ''AgnosticNonlinearInteractionBlock'')
              example_foundation)
           0 1 (AtomicNumberTable [8, 1]) False False True 0) 0) ! 0)
      = \<lparr> shape = [8],
          data = [5 / sqrt (3 / 2), 6 / sqrt (3 / 2), 1 / sqrt (3 / 2), 2 / sqrt (3 / 2),
                  11 / sqrt (3 / 2), 12 / sqrt (3 / 2), 7 / sqrt (3 / 2), 8 / sqrt (3 / 2)] \<rparr>"
proof -
  define H where "H = example_heap (example_target ''GaussianBasis''
                        ''AgnosticNonlinearInteractionBlock'') example_foundation"
  define R where "R = snd (load_foundations H 0 1 (AtomicNumberTable [8, 1]) False False True 0)"
  define L where "L = \<lparr> num_species_foundations = 3, num_channels_foundation = 2,
                        indices_weights = [2, 0], num_radial = 1, num_species = 2,
                        max_ell = 0 \<rparr>"
  have run: "load_foundations H 0 1 (AtomicNumberTable [8, 1]) False False True 0 = (Inr 0, R)"
    unfolding H_def R_def by (rule example_else_branch_run)
  have loc: "compute_locals (H 0) (H 1) (AtomicNumberTable [8, 1]) = Inr L"
    unfolding H_def L_def
    by (simp add: compute_locals_def example_heap_def example_target_def example_foundation_def
        vec_def AtomicNumberTable_def z_to_index_def and_then_def Let_def)
  have pre: "bessel_fn_class (H 0) \<noteq> ''BesselBasis''"
    "(0::nat) \<noteq> 1" "0 < num_interactions (H 0)"
    "class_name (interactions (H 0) ! 0) \<noteq> ''RealAgnosticResidualInteractionBlock''"
    unfolding H_def
    by (simp_all add: example_heap_def example_target_def fresh_block_def)
  have old: "bessel_weights (H 0) = None"
    unfolding H_def by (simp add: example_heap_def example_target_def)
  have ev: "skip_tp_else_rhs L 0 (H 1)
          = Inr \<lparr> shape = [8],
          data = [5 / sqrt (3 / 2), 6 / sqrt (3 / 2), 1 / sqrt (3 / 2), 2 / sqrt (3 / 2),
                  11 / sqrt (3 / 2), 12 / sqrt (3 / 2), 7 / sqrt (3 / 2), 8 / sqrt (3 / 2)] \<rparr>"
    unfolding H_def L_def
    by (simp add: skip_tp_else_rhs_def example_heap_def example_foundation_def vec_def
        and_then_def item_def reshape_def index_dim_def select_blocks_def rescale_factor_def
        div_scalar_def clone_def flatten_def numel_def upt_0_2)
  from class_name_branches
         [of H 0 1 "AtomicNumberTable [8, 1]" False False True 0 R L 0] pre run loc
  have "bessel_weights (snd (load_foundations H 0 1 (AtomicNumberTable [8, 1])
                               False False True 0) 0) = bessel_weights (H 0)"
    and "skip_tp_else_rhs L 0 (H 1) = Inr (skip_tp_weight (interactions (R 0) ! 0))"
    by blast+
  then show ?thesis
    using old ev unfolding R_def H_def by simp
qed

section \<open>load_foundations: the foundation's own table\<close>

lemma collect_map:
  "(\<And>x. x \<in> set xs \<Longrightarrow> f x = Inr (g x)) \<Longrightarrow> collect f xs = Inr (map g xs)"
  by (induction xs) (simp_all add: and_then_def)

lemma identity_indices:
  assumes "distinct xs"
  shows "collect (z_to_index (AtomicNumberTable xs)) xs = Inr [0..<length xs]"
proof -
  have "collect (z_to_index (AtomicNumberTable xs)) xs
          = Inr (map (\<lambda>z. the (list_index xs z)) xs)"
  proof (rule collect_map)
    fix x assume "x \<in> set xs"
    then obtain i where "list_index xs x = Some i" using list_index_mem by fastforce
    then show "z_to_index (AtomicNumberTable xs) x = Inr (the (list_index xs x))"
      by (simp add: z_to_index_def AtomicNumberTable_def)
  qed
  moreover have "map (\<lambda>z. the (list_index xs z)) xs = [0..<length xs]"
    by (rule nth_equalityI) (simp_all add: list_index_nth_distinct [OF assms])
  ultimately show ?thesis by simp
qed

lemma concat_consecutive_blocks:
  "concat (map (\<lambda>i. take c (drop (a + i * c) xs)) [0..<n]) = take (n * c) (drop a xs)"
proof (induction n)
  case 0
  then show ?case by simp
next
  case (Suc n)
  have "take (Suc n * c) (drop a xs)
          = take (n * c) (drop a xs) @ take c (drop (n * c) (drop a xs))"
    using take_add [of "n * c" c "drop a xs"] by (simp add: add.commute)
  then show ?case using Suc by (simp add: add.commute)
qed

lemma select_blocks_identity:
  assumes "length xs = outer * n * inner"
  shows "select_blocks outer n inner [0..<n] xs = xs"
proof -
  have inner: "concat (map (\<lambda>i. take inner (drop ((g * n + i) * inner) xs)) [0..<n])
                 = take (n * inner) (drop (g * (n * inner)) xs)" for g
    using concat_consecutive_blocks [of inner "g * (n * inner)" xs n]
    by (simp add: algebra_simps)
  have "select_blocks outer n inner [0..<n] xs
          = concat (map (\<lambda>g. take (n * inner) (drop (0 + g * (n * inner)) xs)) [0..<outer])"
    by (simp add: select_blocks_def inner)
  also have "\<dots> = take (outer * (n * inner)) (drop 0 xs)"
    by (rule concat_consecutive_blocks)
  also have "\<dots> = xs" using assms by (simp add: mult.assoc)
  finally show ?thesis .
qed

lemma clone_id: "clone t = t"
  by (simp add: clone_def)

lemma index_dim_identity:
  assumes "index_dim 0 2 [0..<n] t = Inr s" and "species_tensor n t"
  shows "s = t"
proof -
  from assms(2) obtain rest where sh: "shape t = n # rest"
    and len: "length (data t) = n * prod_list rest"
    by (cases "shape t") (auto simp: species_tensor_def wf_tensor_def numel_def)
  have "select_blocks 1 n (prod_list rest) [0..<n] (data t) = data t"
    by (rule select_blocks_identity) (simp add: len)
  then show ?thesis
    using assms(1) sh by (auto simp: index_dim_def split: if_splits)
qed

lemma flat_shape: "flat t \<Longrightarrow> shape t = [length (data t)]"
  by (cases "shape t") (auto simp: flat_def wf_tensor_def numel_def)

lemma node_embedding_identity:
  assumes "node_embedding_rhs L f = Inr w"
    and "indices_weights L = [0..<num_species_foundations L]"
    and "num_species L = num_species_foundations L"
    and "flat (node_embedding_weight f)"
  shows "w = node_embedding_weight f"
proof -
  note r = node_embedding_rhs_Inr [OF assms(1)]
  define n where "n = num_species_foundations L"
  define W where "W = node_embedding_weight f"
  have sh: "shape W = [length (data W)]" using assms(4) by (simp add: W_def flat_shape)
  then have nu: "numel W = length (data W)" by (simp add: numel_def)
  have "n dvd numel W" using r(2) by (simp add: n_def W_def mod_0_imp_dvd)
  then have dv: "n * (numel W div n) = numel W" by simp
  have "select_blocks 1 n (numel W div n) [0..<n] (data W) = data W"
    by (rule select_blocks_identity) (simp add: dv nu [symmetric])
  moreover have "sqrt (real n / real n) = 1" using r(1) by (simp add: n_def)
  ultimately have "w = \<lparr> shape = [numel W], data = data W \<rparr>"
    using r(5) assms(2,3) dv by (simp add: n_def W_def)
  then show ?thesis using sh nu unfolding W_def by simp
qed

lemma prod_list_split:
  "pre < length sh \<Longrightarrow>
     prod_list sh = prod_list (take pre sh) * sh ! pre * prod_list (drop (Suc pre) sh)"
  for sh :: "nat list"
  using id_take_nth_drop [of pre sh] prod_list.append [of "take pre sh" "sh ! pre # drop (Suc pre) sh"]
  by (simp add: mult.assoc)

lemma reindex_identity:
  assumes "reshape sh t = Inr v"
    and "index_dim pre 1 [0..<n] v = Inr s"
    and "rescale_factor n n = Inr k"
    and "pre < length sh" and "sh ! pre = n"
    and "flat t"
  shows "div_scalar (clone (flatten s)) k = t"
proof -
  from assms(1) have p: "prod_list sh = numel t" and v: "v = \<lparr> shape = sh, data = data t \<rparr>"
    by (auto simp: reshape_def split: if_splits)
  have len: "length (data t) = numel t" and sh1: "shape t = [length (data t)]"
    using assms(6) by (simp_all add: flat_def wf_tensor_def flat_shape)
  have "length (data t)
          = prod_list (take pre sh) * n * prod_list (drop (Suc pre) sh)"
    using prod_list_split [OF assms(4)] assms(5) p len by simp
  then have sel: "select_blocks (prod_list (take pre sh)) n (prod_list (drop (Suc pre) sh))
                    [0..<n] (data t) = data t"
    by (rule select_blocks_identity)
  have upd: "sh[pre := n] = sh" using assms(5) by (metis list_update_id)
  have shv: "shape v = sh" "data v = data t" using v by simp_all
  from assms(2) have "s = \<lparr> shape = (shape v)[pre := length [0..<n]],
        data = select_blocks (prod_list (take pre (shape v))) (shape v ! pre)
                 (prod_list (drop (Suc pre) (shape v))) [0..<n] (data v) \<rparr>"
    by (simp add: index_dim_def split: if_splits)
  then have s: "s = \<lparr> shape = sh, data = data t \<rparr>"
    unfolding shv assms(5) sel by (simp only: length_upt diff_zero upd)
  from assms(3) have k: "k = 1"
    by (auto simp: rescale_factor_def split: if_splits)
  have pl: "prod_list sh = length (data t)" using p len by simp
  have "div_scalar (clone (flatten s)) k = \<lparr> shape = [length (data t)], data = data t \<rparr>"
    unfolding s k by (simp add: div_scalar_def clone_def flatten_def numel_def pl)
  also have "\<dots> = t" using sh1 by (cases t) simp
  finally show ?thesis .
qed

lemma slice_rows_all:
  assumes "slice_rows k t = Inr s" and "wf_tensor t" and "hd (shape t) \<le> k"
  shows "s = t"
proof -
  from assms(1) obtain s0 s1 rest where sh: "shape t = s0 # s1 # rest"
    by (auto simp: slice_rows_def split: list.splits)
  have "length (data t) = s0 * (s1 * prod_list rest)"
    using assms(2) sh by (simp add: wf_tensor_def numel_def)
  then show ?thesis
    using assms(1,3) sh by (cases t) (auto simp: slice_rows_def min_def)
qed

lemma interaction_copied_identity:
  assumes "interaction_copied L f i b b'"
    and "indices_weights L = [0..<num_species_foundations L]"
    and "num_species L = num_species_foundations L"
    and "list_all (\<lambda>b. flat (skip_tp_weight b)) (interactions f)"
  shows "i < length (interactions f)"
    and "linear_up_weight b' = linear_up_weight (interactions f ! i)"
    and "avg_num_neighbors b' = avg_num_neighbors (interactions f ! i)"
    and "slice_rows (num_radial L) (conv_tp_weights (interactions f ! i) ! 0)
           = Inr (conv_tp_weights b' ! 0)"
    and "conv_tp_weights b' ! 1 = conv_tp_weights (interactions f ! i) ! 1"
    and "conv_tp_weights b' ! 2 = conv_tp_weights (interactions f ! i) ! 2"
    and "conv_tp_weights b' ! 3 = conv_tp_weights (interactions f ! i) ! 3"
    and "linear_weight b' = linear_weight (interactions f ! i)"
    and "skip_tp_weight b' = skip_tp_weight (interactions f ! i)"
proof -
  note c = assms(1) [unfolded interaction_copied_def]
  from c show i: "i < length (interactions f)"
    by (auto simp: linear_up_rhs_def and_then_Inr item_Inr)
  from c show "linear_up_weight b' = linear_up_weight (interactions f ! i)"
    by (auto simp: linear_up_rhs_def and_then_Inr item_Inr clone_id)
  from c show "avg_num_neighbors b' = avg_num_neighbors (interactions f ! i)"
    by (auto simp: avg_num_neighbors_rhs_def and_then_Inr item_Inr)
  from c have "conv_tp_rhs L i 0 f = Inr (conv_tp_weights b' ! 0)" by simp
  then show "slice_rows (num_radial L) (conv_tp_weights (interactions f ! i) ! 0)
           = Inr (conv_tp_weights b' ! 0)"
    by (auto simp: conv_tp_rhs_def and_then_Inr item_Inr clone_id)
  from c have "conv_tp_rhs L i 1 f = Inr (conv_tp_weights b' ! 1)" by simp
  then show "conv_tp_weights b' ! 1 = conv_tp_weights (interactions f ! i) ! 1"
    by (auto simp: conv_tp_rhs_def and_then_Inr item_Inr clone_id)
  from c have "conv_tp_rhs L i 2 f = Inr (conv_tp_weights b' ! 2)" by simp
  then show "conv_tp_weights b' ! 2 = conv_tp_weights (interactions f ! i) ! 2"
    by (auto simp: conv_tp_rhs_def and_then_Inr item_Inr clone_id)
  from c have "conv_tp_rhs L i 3 f = Inr (conv_tp_weights b' ! 3)" by simp
  then show "conv_tp_weights b' ! 3 = conv_tp_weights (interactions f ! i) ! 3"
    by (auto simp: conv_tp_rhs_def and_then_Inr item_Inr clone_id)
  from c show "linear_weight b' = linear_weight (interactions f ! i)"
    by (auto simp: linear_rhs_def and_then_Inr item_Inr clone_id)
  have fl: "flat (skip_tp_weight (interactions f ! i))"
    using assms(4) i by (simp add: list_all_length)
  show "skip_tp_weight b' = skip_tp_weight (interactions f ! i)"
  proof (cases "class_name b = ''RealAgnosticResidualInteractionBlock''")
    case True
    with c have "skip_tp_residual_rhs L i f = Inr (skip_tp_weight b')" by simp
    then obtain v s k where
      "reshape [num_channels_foundation L, num_species_foundations L,
                num_channels_foundation L] (skip_tp_weight (interactions f ! i)) = Inr v"
      "index_dim 1 1 [0..<num_species_foundations L] v = Inr s"
      "rescale_factor (num_species_foundations L) (num_species_foundations L) = Inr k"
      "skip_tp_weight b' = div_scalar (clone (flatten s)) k"
      by (auto simp: skip_tp_residual_rhs_def and_then_Inr item_Inr assms(2,3))
    then show ?thesis
      using reindex_identity [of _ "skip_tp_weight (interactions f ! i)" v 1
          "num_species_foundations L" s k] fl
      by simp
  next
    case False
    with c have "skip_tp_else_rhs L i f = Inr (skip_tp_weight b')" by simp
    then obtain v s k where
      "reshape [num_channels_foundation L, max_ell L + 1, num_species_foundations L,
                num_channels_foundation L] (skip_tp_weight (interactions f ! i)) = Inr v"
      "index_dim 2 1 [0..<num_species_foundations L] v = Inr s"
      "rescale_factor (num_species_foundations L) (num_species_foundations L) = Inr k"
      "skip_tp_weight b' = div_scalar (clone (flatten s)) k"
      by (auto simp: skip_tp_else_rhs_def and_then_Inr item_Inr assms(2,3))
    then show ?thesis
      using reindex_identity [of _ "skip_tp_weight (interactions f ! i)" v 2
          "num_species_foundations L" s k] fl
      by simp
  qed
qed

lemma contraction_copied_identity:
  assumes "contraction_copied L f i j c c'"
    and "indices_weights L = [0..<num_species_foundations L]"
    and "list_all (\<lambda>p. list_all (wf_contraction (num_species_foundations L)) (contractions p))
           (products f)"
  shows "i < length (products f)" and "j < length (contractions (products f ! i))"
    and "weights_max c' = weights_max (contractions (products f ! i) ! j)"
    and "weights c' ! 0 = weights (contractions (products f ! i) ! j) ! 0"
    and "weights c' ! 1 = weights (contractions (products f ! i) ! j) ! 1"
proof -
  note c = assms(1) [unfolded contraction_copied_def]
  define cf where "cf = contractions (products f ! i) ! j"
  from c obtain s where
    i: "i < length (products f)" and j: "j < length (contractions (products f ! i))"
    and wm: "index_dim 0 2 [0..<num_species_foundations L] (weights_max cf) = Inr s"
      "weights_max c' = s"
    by (auto simp: weights_max_rhs_def and_then_Inr item_Inr clone_id assms(2) cf_def)
  show "i < length (products f)" "j < length (contractions (products f ! i))"
    by (rule i, rule j)
  have wf: "wf_contraction (num_species_foundations L) cf"
    using assms(3) i j by (simp add: list_all_length cf_def)
  from index_dim_identity [OF wm(1)] wf wm(2)
  show "weights_max c' = weights_max (contractions (products f ! i) ! j)"
    by (simp add: wf_contraction_def cf_def)
  from c obtain s0 where
    k0: "0 < length (weights cf)"
    and w0: "index_dim 0 2 [0..<num_species_foundations L] (weights cf ! 0) = Inr s0"
      "weights c' ! 0 = s0"
    by (auto simp: weights_rhs_def and_then_Inr item_Inr clone_id assms(2) cf_def)
  have "species_tensor (num_species_foundations L) (weights cf ! 0)"
    using wf k0 by (simp add: wf_contraction_def list_all_length)
  from index_dim_identity [OF w0(1) this] w0(2)
  show "weights c' ! 0 = weights (contractions (products f ! i) ! j) ! 0"
    by (simp add: cf_def)
  from c obtain s1 where
    k1: "1 < length (weights cf)"
    and w1: "index_dim 0 2 [0..<num_species_foundations L] (weights cf ! 1) = Inr s1"
      "weights c' ! 1 = s1"
    by (auto simp: weights_rhs_def and_then_Inr item_Inr clone_id assms(2) cf_def)
  have "species_tensor (num_species_foundations L) (weights cf ! 1)"
    using wf k1 by (simp add: wf_contraction_def list_all_length)
  from index_dim_identity [OF w1(1) this] w1(2)
  show "weights c' ! 1 = weights (contractions (products f ! i) ! j) ! 1"
    by (simp add: cf_def)
qed

lemma product_copied_identity:
  assumes "product_copied L f i n p p'"
    and "indices_weights L = [0..<num_species_foundations L]"
    and "list_all (\<lambda>p. list_all (wf_contraction (num_species_foundations L)) (contractions p))
           (products f)"
  shows "product_linear_weight p' = product_linear_weight (products f ! i)"
    and "j < n \<Longrightarrow>
           weights_max (contractions p' ! j) = weights_max (contractions (products f ! i) ! j)
         \<and> weights (contractions p' ! j) ! 0 = weights (contractions (products f ! i) ! j) ! 0
         \<and> weights (contractions p' ! j) ! 1 = weights (contractions (products f ! i) ! j) ! 1"
proof -
  note c = assms(1) [unfolded product_copied_def]
  from c show "product_linear_weight p' = product_linear_weight (products f ! i)"
    by (auto simp: product_linear_rhs_def and_then_Inr item_Inr clone_id)
  assume "j < n"
  with c have "contraction_copied L f i j (contractions p ! j) (contractions p' ! j)"
    by (simp add: list_all_iff)
  from contraction_copied_identity(3-5) [OF this assms(2,3)]
  show "weights_max (contractions p' ! j) = weights_max (contractions (products f ! i) ! j)
         \<and> weights (contractions p' ! j) ! 0 = weights (contractions (products f ! i) ! j) ! 0
         \<and> weights (contractions p' ! j) ! 1 = weights (contractions (products f ! i) ! j) ! 1"
    by simp
qed

lemma readout_rhs_identity:
  assumes "readout_linear_rhs f = Inr w0" and "readout_linear_1_rhs f = Inr w1"
    and "readout_linear_2_rhs f = Inr w2"
  shows "readouts f ! 0 = LinearReadoutBlock w0"
    and "readouts f ! 1 = NonLinearReadoutBlock w1 w2"
proof -
  from assms(1) show "readouts f ! 0 = LinearReadoutBlock w0"
    by (auto simp: readout_linear_rhs_def and_then_Inr item_Inr clone_id
        split: readout_block.splits)
  from assms(2,3) show "readouts f ! 1 = NonLinearReadoutBlock w1 w2"
    by (auto simp: readout_linear_1_rhs_def readout_linear_2_rhs_def and_then_Inr item_Inr
        clone_id split: readout_block.splits)
qed

text \<open>
  Claim C2, amended. Let the target table be the foundation's own table, without a
  repeated element, and let the foundation's tensors have the shapes of its
  architecture. When the call returns, the rescale factor is 1 and every tensor
  that was copied equals the foundation's, with one exception: the first layer of
  the radial network of each interaction holds the first \<open>radial_out_dim\<close> rows of
  the foundation's layer, which is the whole layer when the target's radial
  dimension is at least the number of its rows.
\<close>

theorem identity_table_near_identity:
  fixes h h' :: heap and model model_foundations :: ref
  defines "F \<equiv> h model_foundations" and "T \<equiv> h model" and "T' \<equiv> h' model"
  assumes ne: "model \<noteq> model_foundations"
    and run: "load_foundations h model model_foundations table load_readout use_shift use_scale
                max_L = (Inr r, h')"
    and tbl: "zs table = atomic_numbers F"
    and dis: "distinct (atomic_numbers F)"
    and wf: "wf_foundation F"
  shows "rescale_factor (length (atomic_numbers F)) (length (zs table)) = Inr 1
   \<and> node_embedding_weight T' = node_embedding_weight F
   \<and> (bessel_fn_class T = ''BesselBasis'' \<longrightarrow> bessel_weights T' = bessel_weights F)
   \<and> (\<forall>i<num_interactions T.
          linear_up_weight (interactions T' ! i) = linear_up_weight (interactions F ! i)
        \<and> avg_num_neighbors (interactions T' ! i) = avg_num_neighbors (interactions F ! i)
        \<and> slice_rows (radial_out_dim T) (conv_tp_weights (interactions F ! i) ! 0)
            = Inr (conv_tp_weights (interactions T' ! i) ! 0)
        \<and> (wf_tensor (conv_tp_weights (interactions F ! i) ! 0)
            \<and> hd (shape (conv_tp_weights (interactions F ! i) ! 0)) \<le> radial_out_dim T
            \<longrightarrow> conv_tp_weights (interactions T' ! i) ! 0
                 = conv_tp_weights (interactions F ! i) ! 0)
        \<and> conv_tp_weights (interactions T' ! i) ! 1 = conv_tp_weights (interactions F ! i) ! 1
        \<and> conv_tp_weights (interactions T' ! i) ! 2 = conv_tp_weights (interactions F ! i) ! 2
        \<and> conv_tp_weights (interactions T' ! i) ! 3 = conv_tp_weights (interactions F ! i) ! 3
        \<and> linear_weight (interactions T' ! i) = linear_weight (interactions F ! i)
        \<and> skip_tp_weight (interactions T' ! i) = skip_tp_weight (interactions F ! i))
   \<and> (\<forall>i<2. product_linear_weight (products T' ! i) = product_linear_weight (products F ! i)
        \<and> (\<forall>j<(if i = 0 then nat (max_L + 1) else 1).
              weights_max (contractions (products T' ! i) ! j)
                = weights_max (contractions (products F ! i) ! j)
            \<and> weights (contractions (products T' ! i) ! j) ! 0
                = weights (contractions (products F ! i) ! j) ! 0
            \<and> weights (contractions (products T' ! i) ! j) ! 1
                = weights (contractions (products F ! i) ! j) ! 1))
   \<and> (load_readout \<longrightarrow> readouts T' ! 0 = readouts F ! 0 \<and> readouts T' ! 1 = readouts F ! 1)
   \<and> (scale_shift F \<noteq> None \<and> use_scale \<longrightarrow>
         map_option scale (scale_shift T') = map_option scale (scale_shift F))
   \<and> (scale_shift F \<noteq> None \<and> use_shift \<longrightarrow>
         map_option shift (scale_shift T') = map_option shift (scale_shift F))"
proof -
  from load_foundations_Inr [OF run] obtain L where
    L: "compute_locals T F table = Inr L"
    and body: "lf_body L model model_foundations (num_interactions T) load_readout
                use_shift use_scale max_L h = (None, h')"
    unfolding T_def F_def by blast
  note loc = compute_locals_Inr [OF L]
  have idx: "indices_weights L = [0..<num_species_foundations L]"
    using loc(3) identity_indices [OF dis] unfolding tbl loc(1) by simp
  have ns: "num_species L = num_species_foundations L"
    using loc(1,4) tbl by simp
  have wf1: "flat (node_embedding_weight F)"
    and wf2: "list_all (\<lambda>b. flat (skip_tp_weight b)) (interactions F)"
    and wf3: "list_all (\<lambda>p. list_all (wf_contraction (num_species_foundations L))
                (contractions p)) (products F)"
    using wf unfolding wf_foundation_def loc(1) by simp_all
  have body': "lf_body L model model_foundations (num_interactions (h model)) load_readout
                use_shift use_scale max_L h = (None, h')"
    using body unfolding T_def .
  from lf_body_None [OF ne body'] obtain w bw bs ps rs ss where
    fin: "h' = h(model := (h model)\<lparr> node_embedding_weight := w, bessel_weights := bw,
                     interactions := bs, products := ps, readouts := rs, scale_shift := ss \<rparr>)"
    and d1: "node_embedding_rhs L (h model_foundations) = Inr w"
    and d2: "if bessel_fn_class (h model) = ''BesselBasis''
             then \<exists>x. bessel_rhs (h model_foundations) = Inr x \<and> bw = Some x
             else bw = bessel_weights (h model)"
    and d3: "\<forall>i<num_interactions (h model).
               interaction_copied L (h model_foundations) i (interactions (h model) ! i) (bs ! i)"
    and d4: "product_copied L (h model_foundations) 0 (nat (max_L + 1))
               (products (h model) ! 0) (ps ! 0)"
      "product_copied L (h model_foundations) 1 1 (products (h model) ! 1) (ps ! 1)"
    and d5: "if load_readout
             then \<exists>w0 w1 w2. readout_linear_rhs (h model_foundations) = Inr w0
                    \<and> readout_linear_1_rhs (h model_foundations) = Inr w1
                    \<and> readout_linear_2_rhs (h model_foundations) = Inr w2
                    \<and> rs ! 0 = LinearReadoutBlock w0
                    \<and> rs ! 1 = NonLinearReadoutBlock w1 w2
             else rs = readouts (h model)"
    and d6: "scale_shift (h model_foundations) \<noteq> None \<and> use_scale \<longrightarrow>
              (\<exists>s. ss = Some s \<and> scale_rhs (h model_foundations) = Inr (scale s))"
      "scale_shift (h model_foundations) \<noteq> None \<and> use_shift \<longrightarrow>
              (\<exists>s. ss = Some s \<and> shift_rhs (h model_foundations) = Inr (shift s))"
    by (elim exE conjE) (rule that)
  note c1 = d1 [folded F_def]
    and c2 = d2 [folded F_def T_def]
    and c3 = d3 [folded F_def T_def]
    and c4 = d4 [folded F_def T_def]
    and c5 = d5 [folded F_def T_def]
    and c6 = d6 [folded F_def]
  have T': "node_embedding_weight T' = w" "bessel_weights T' = bw" "interactions T' = bs"
    "products T' = ps" "readouts T' = rs" "scale_shift T' = ss"
    unfolding T'_def fin by simp_all
  have g1: "rescale_factor (length (atomic_numbers F)) (length (zs table)) = Inr 1"
    using loc(2) tbl by (simp add: rescale_factor_def)
  have g2: "node_embedding_weight T' = node_embedding_weight F"
    unfolding T'(1) by (rule node_embedding_identity [OF c1 idx ns wf1])
  have g3: "bessel_fn_class T = ''BesselBasis'' \<longrightarrow> bessel_weights T' = bessel_weights F"
    using c2 unfolding T'(2)
    by (auto simp: bessel_rhs_def clone_id split: option.splits)
  have g4: "\<forall>i<num_interactions T.
          linear_up_weight (interactions T' ! i) = linear_up_weight (interactions F ! i)
        \<and> avg_num_neighbors (interactions T' ! i) = avg_num_neighbors (interactions F ! i)
        \<and> slice_rows (radial_out_dim T) (conv_tp_weights (interactions F ! i) ! 0)
            = Inr (conv_tp_weights (interactions T' ! i) ! 0)
        \<and> (wf_tensor (conv_tp_weights (interactions F ! i) ! 0)
            \<and> hd (shape (conv_tp_weights (interactions F ! i) ! 0)) \<le> radial_out_dim T
            \<longrightarrow> conv_tp_weights (interactions T' ! i) ! 0
                 = conv_tp_weights (interactions F ! i) ! 0)
        \<and> conv_tp_weights (interactions T' ! i) ! 1 = conv_tp_weights (interactions F ! i) ! 1
        \<and> conv_tp_weights (interactions T' ! i) ! 2 = conv_tp_weights (interactions F ! i) ! 2
        \<and> conv_tp_weights (interactions T' ! i) ! 3 = conv_tp_weights (interactions F ! i) ! 3
        \<and> linear_weight (interactions T' ! i) = linear_weight (interactions F ! i)
        \<and> skip_tp_weight (interactions T' ! i) = skip_tp_weight (interactions F ! i)"
  proof (intro allI impI)
    fix i assume "i < num_interactions T"
    with c3 have c: "interaction_copied L F i (interactions T ! i) (bs ! i)" by blast
    note e = interaction_copied_identity [OF c idx ns wf2]
    have sl: "slice_rows (radial_out_dim T) (conv_tp_weights (interactions F ! i) ! 0)
            = Inr (conv_tp_weights (bs ! i) ! 0)"
      using e(4) loc(6) by simp
    have full: "conv_tp_weights (bs ! i) ! 0 = conv_tp_weights (interactions F ! i) ! 0"
      if "wf_tensor (conv_tp_weights (interactions F ! i) ! 0)
            \<and> hd (shape (conv_tp_weights (interactions F ! i) ! 0)) \<le> radial_out_dim T"
      using slice_rows_all [OF sl] that by blast
    show "linear_up_weight (interactions T' ! i) = linear_up_weight (interactions F ! i)
        \<and> avg_num_neighbors (interactions T' ! i) = avg_num_neighbors (interactions F ! i)
        \<and> slice_rows (radial_out_dim T) (conv_tp_weights (interactions F ! i) ! 0)
            = Inr (conv_tp_weights (interactions T' ! i) ! 0)
        \<and> (wf_tensor (conv_tp_weights (interactions F ! i) ! 0)
            \<and> hd (shape (conv_tp_weights (interactions F ! i) ! 0)) \<le> radial_out_dim T
            \<longrightarrow> conv_tp_weights (interactions T' ! i) ! 0
                 = conv_tp_weights (interactions F ! i) ! 0)
        \<and> conv_tp_weights (interactions T' ! i) ! 1 = conv_tp_weights (interactions F ! i) ! 1
        \<and> conv_tp_weights (interactions T' ! i) ! 2 = conv_tp_weights (interactions F ! i) ! 2
        \<and> conv_tp_weights (interactions T' ! i) ! 3 = conv_tp_weights (interactions F ! i) ! 3
        \<and> linear_weight (interactions T' ! i) = linear_weight (interactions F ! i)
        \<and> skip_tp_weight (interactions T' ! i) = skip_tp_weight (interactions F ! i)"
      unfolding T'(3) using e(2,3,5-9) sl full by (intro conjI impI)
  qed
  have g5: "\<forall>i<2. product_linear_weight (products T' ! i)
                     = product_linear_weight (products F ! i)
        \<and> (\<forall>j<(if i = 0 then nat (max_L + 1) else 1).
              weights_max (contractions (products T' ! i) ! j)
                = weights_max (contractions (products F ! i) ! j)
            \<and> weights (contractions (products T' ! i) ! j) ! 0
                = weights (contractions (products F ! i) ! j) ! 0
            \<and> weights (contractions (products T' ! i) ! j) ! 1
                = weights (contractions (products F ! i) ! j) ! 1)"
  proof (intro allI impI)
    fix i :: nat assume "i < 2"
    then consider "i = 0" | "i = 1" by linarith
    then have c: "product_copied L F i (if i = 0 then nat (max_L + 1) else 1)
                    (products T ! i) (ps ! i)"
      using c4 by cases simp_all
    show "product_linear_weight (products T' ! i) = product_linear_weight (products F ! i)
        \<and> (\<forall>j<(if i = 0 then nat (max_L + 1) else 1).
              weights_max (contractions (products T' ! i) ! j)
                = weights_max (contractions (products F ! i) ! j)
            \<and> weights (contractions (products T' ! i) ! j) ! 0
                = weights (contractions (products F ! i) ! j) ! 0
            \<and> weights (contractions (products T' ! i) ! j) ! 1
                = weights (contractions (products F ! i) ! j) ! 1)"
      unfolding T'(4)
      using product_copied_identity [OF c idx wf3] by blast
  qed
  have g6: "load_readout \<longrightarrow> readouts T' ! 0 = readouts F ! 0 \<and> readouts T' ! 1 = readouts F ! 1"
  proof
    assume load_readout
    with c5 obtain w0 w1 w2 where r: "readout_linear_rhs F = Inr w0"
      "readout_linear_1_rhs F = Inr w1" "readout_linear_2_rhs F = Inr w2"
      "rs ! 0 = LinearReadoutBlock w0" "rs ! 1 = NonLinearReadoutBlock w1 w2"
      by auto
    from readout_rhs_identity [OF r(1-3)] r(4,5)
    show "readouts T' ! 0 = readouts F ! 0 \<and> readouts T' ! 1 = readouts F ! 1"
      unfolding T'(5) by simp
  qed
  have g7: "scale_shift F \<noteq> None \<and> use_scale \<longrightarrow>
         map_option scale (scale_shift T') = map_option scale (scale_shift F)"
    using c6(1) unfolding T'(6)
    by (auto simp: scale_rhs_def clone_id split: option.splits)
  have g8: "scale_shift F \<noteq> None \<and> use_shift \<longrightarrow>
         map_option shift (scale_shift T') = map_option shift (scale_shift F)"
    using c6(2) unfolding T'(6)
    by (auto simp: shift_rhs_def clone_id split: option.splits)
  show ?thesis
    using g1 g2 g3 g4 g5 g6 g7 g8 by (intro conjI)
qed

text \<open>
  Claim C2 says that with the foundation's own table every copied tensor of the
  target equals the foundation's. The first radial layer is sliced to the radial
  dimension of the target: on the concrete pair, whose target has radial dimension
  1, the call with the table 1, 6, 8 returns and the target's layer is the first
  row of the foundation's two rows.
\<close>

theorem identity_table_slices_first_layer:
  "zs (AtomicNumberTable [1, 6, 8]) = atomic_numbers example_foundation
   \<and> fst (load_foundations
        (example_heap (example_target ''BesselBasis'' ''RealAgnosticResidualInteractionBlock'')
           example_foundation)
        0 1 (AtomicNumberTable [1, 6, 8]) True True True 0) = Inr 0
   \<and> conv_tp_weights (interactions
        (snd (load_foundations
           (example_heap (example_target ''BesselBasis''
              ''RealAgnosticResidualInteractionBlock'') example_foundation)
           0 1 (AtomicNumberTable [1, 6, 8]) True True True 0) 0) ! 0) ! 0
      = \<lparr> shape = [1, 2], data = [1, 2] \<rparr>
   \<and> conv_tp_weights (interactions example_foundation ! 0) ! 0
      = \<lparr> shape = [2, 2], data = [1, 2, 3, 4] \<rparr>
   \<and> conv_tp_weights (interactions
        (snd (load_foundations
           (example_heap (example_target ''BesselBasis''
              ''RealAgnosticResidualInteractionBlock'') example_foundation)
           0 1 (AtomicNumberTable [1, 6, 8]) True True True 0) 0) ! 0) ! 0
      \<noteq> conv_tp_weights (interactions example_foundation ! 0) ! 0"
  by (simp add: lf_defs)

lemma example_identity_run:
  "load_foundations
     (example_heap (example_target ''BesselBasis'' ''RealAgnosticResidualInteractionBlock'')
        example_foundation)
     0 1 (AtomicNumberTable [1, 6, 8]) True True True 0
   = (Inr 0,
      snd (load_foundations
        (example_heap (example_target ''BesselBasis'' ''RealAgnosticResidualInteractionBlock'')
           example_foundation)
        0 1 (AtomicNumberTable [1, 6, 8]) True True True 0))"
proof -
  have "fst (load_foundations
     (example_heap (example_target ''BesselBasis'' ''RealAgnosticResidualInteractionBlock'')
        example_foundation)
     0 1 (AtomicNumberTable [1, 6, 8]) True True True 0) = Inr 0"
    by (simp add: lf_defs)
  then show ?thesis by (metis prod.collapse)
qed

lemma example_foundation_wf: "wf_foundation example_foundation"
  by (simp add: wf_foundation_def flat_def wf_tensor_def numel_def species_tensor_def
      wf_contraction_def example_foundation_def vec_def)

text \<open>
  The amended claim on the same pair: node embedding and skip weight equal the
  foundation's, and the first radial layer is the one-row slice.
\<close>

theorem identity_table_near_identity_witness:
  "(0::nat) \<noteq> 1
   \<and> zs (AtomicNumberTable [1, 6, 8]) = atomic_numbers example_foundation
   \<and> distinct (atomic_numbers example_foundation)
   \<and> wf_foundation example_foundation
   \<and> node_embedding_weight
        (snd (load_foundations
           (example_heap (example_target ''BesselBasis''
              ''RealAgnosticResidualInteractionBlock'') example_foundation)
           0 1 (AtomicNumberTable [1, 6, 8]) True True True 0) 0)
      = node_embedding_weight example_foundation
   \<and> skip_tp_weight (interactions
        (snd (load_foundations
           (example_heap (example_target ''BesselBasis''
              ''RealAgnosticResidualInteractionBlock'') example_foundation)
           0 1 (AtomicNumberTable [1, 6, 8]) True True True 0) 0) ! 0)
      = skip_tp_weight (interactions example_foundation ! 0)
   \<and> slice_rows 1 (conv_tp_weights (interactions example_foundation ! 0) ! 0)
      = Inr (conv_tp_weights (interactions
        (snd (load_foundations
           (example_heap (example_target ''BesselBasis''
              ''RealAgnosticResidualInteractionBlock'') example_foundation)
           0 1 (AtomicNumberTable [1, 6, 8]) True True True 0) 0) ! 0) ! 0)"
proof -
  define H where "H = example_heap (example_target ''BesselBasis''
                        ''RealAgnosticResidualInteractionBlock'') example_foundation"
  define R where "R = snd (load_foundations H 0 1 (AtomicNumberTable [1, 6, 8])
                             True True True 0)"
  have f: "H 1 = example_foundation" by (simp add: H_def example_heap_def)
  have t: "num_interactions (H 0) = 1" "radial_out_dim (H 0) = 1"
    by (simp_all add: H_def example_heap_def example_target_def)
  have ne: "(0::nat) \<noteq> 1" by simp
  have run: "load_foundations H 0 1 (AtomicNumberTable [1, 6, 8]) True True True 0 = (Inr 0, R)"
    unfolding H_def R_def by (rule example_identity_run)
  have tbl: "zs (AtomicNumberTable [1, 6, 8]) = atomic_numbers (H 1)"
    unfolding f by (simp add: AtomicNumberTable_def example_foundation_def)
  have dis: "distinct (atomic_numbers (H 1))"
    unfolding f by (simp add: example_foundation_def)
  have wf: "wf_foundation (H 1)" unfolding f by (rule example_foundation_wf)
  note inst = identity_table_near_identity [OF ne run tbl dis wf]
  from inst have 1: "node_embedding_weight (R 0) = node_embedding_weight (H 1)"
    by blast
  from inst have "\<forall>i<num_interactions (H 0).
        skip_tp_weight (interactions (R 0) ! i) = skip_tp_weight (interactions (H 1) ! i)
      \<and> slice_rows (radial_out_dim (H 0)) (conv_tp_weights (interactions (H 1) ! i) ! 0)
          = Inr (conv_tp_weights (interactions (R 0) ! i) ! 0)"
    by blast
  then have 2: "skip_tp_weight (interactions (R 0) ! 0) = skip_tp_weight (interactions (H 1) ! 0)"
    and 3: "slice_rows 1 (conv_tp_weights (interactions (H 1) ! 0) ! 0)
          = Inr (conv_tp_weights (interactions (R 0) ! 0) ! 0)"
    unfolding t by simp_all
  show ?thesis
    using ne tbl dis wf 1 2 3 unfolding f unfolding R_def H_def by (intro conjI)
qed

end
